(* ===== verification/Prelude.thy ===== *)
theory Prelude
  imports Main "HOL-Library.Word" "HOL-Library.Char_ord" "HOL-Library.List_Lexorder"
begin

text \<open>
  Shared vocabulary of the ez-cpp development: the generic lemmas on lists that more than one
  component uses, the outcome of a call that may hit a failed EZ_ASSERT, and the collections of
  rewrite rules the component theories add to.
\<close>

named_theorems report_simps \<open>frame and update rules of the execution-report arena\<close>
named_theorems flow_simps \<open>unfolding rules of the flow interpreter's monad\<close>

section \<open>Aborting calls\<close>

text \<open>
  EZ_ASSERT (core/headers/ez/Contract.hpp) prints and calls std::terminate; a standard container
  accessed out of range throws or is undefined. Both are values here.
\<close>

datatype abort = Terminated | OutOfRange | UndefinedBehaviour

abbreviation ok :: "'a \<Rightarrow> 'e + 'a" where
  "ok \<equiv> Inr"

abbreviation is_ok :: "'e + 'a \<Rightarrow> bool" where
  "is_ok r \<equiv> (case r of Inr _ \<Rightarrow> True | Inl _ \<Rightarrow> False)"

section \<open>Lists\<close>

lemma nth_concat_uniform:
  assumes "\<forall>b \<in> set (butlast bss). length b = n" and "0 < n"
    and "bss \<noteq> [] \<Longrightarrow> length (last bss) \<le> n" and "i < length (concat bss)"
  shows "i div n < length bss \<and> i mod n < length (bss ! (i div n))
    \<and> concat bss ! i = (bss ! (i div n)) ! (i mod n)"
  using assms
proof (induction bss arbitrary: i)
  case Nil
  then show ?case by simp
next
  case (Cons b bss)
  show ?case
  proof (cases "bss = []")
    case True
    with Cons.prems show ?thesis by (simp split: if_splits)
  next
    case False
    with Cons.prems have b: "length b = n" by simp
    show ?thesis
    proof (cases "i < n")
      case True
      with b show ?thesis by (simp add: nth_append)
    next
      case ge: False
      have IH: "(i - n) div n < length bss \<and> (i - n) mod n < length (bss ! ((i - n) div n))
        \<and> concat bss ! (i - n) = (bss ! ((i - n) div n)) ! ((i - n) mod n)"
        using Cons.prems False b ge by (intro Cons.IH) auto
      moreover have "i div n = Suc ((i - n) div n)" and "i mod n = (i - n) mod n"
        using ge \<open>0 < n\<close> by (simp_all add: le_div_geq le_mod_geq)
      ultimately show ?thesis using b ge by (simp add: nth_append)
    qed
  qed
qed

lemma length_concat_full:
  "\<forall>b \<in> set bss. length b = n \<Longrightarrow> length (concat bss) = n * length bss"
  by (induction bss) auto

lemma concat_butlast_last: "bss \<noteq> [] \<Longrightarrow> concat (butlast bss) @ last bss = concat bss"
  by (induction bss) auto

lemma set_butlast_snoc_iff: "x \<in> set (butlast xs @ [last xs]) \<longleftrightarrow> xs = [] \<and> x = last [] \<or> x \<in> set xs"
  by (cases xs rule: rev_cases) auto

lemma find_rev_append_None:
  "(\<forall>x \<in> set ys. \<not> P x) \<Longrightarrow> find P (rev (xs @ ys)) = find P (rev xs)"
  by (induction ys rule: rev_induct) auto

lemma sum_list_map_pos: "0 < sum_list (map f xs) \<longleftrightarrow> (\<exists>x \<in> set xs. 0 < (f x :: nat))"
  by (induction xs) auto

end
