(* ===== verification/Interfaces.thy ===== *)
theory Interfaces
  imports Prelude
begin

text \<open>
  The contracts the components rely on, as locales: an append-only sequence (what
  ExecutionReport needs of its three vectors), a store of shared cells (what a std::shared_ptr
  gives the interpreter and the report tree), a last-in-wins table (a scope), and a transition
  system with an inductive invariant (every state machine of the development).
\<close>

section \<open>Append-only sequences\<close>

locale append_only =
  fixes empty :: "'q"
    and append :: "'q \<Rightarrow> 'a \<Rightarrow> 'q"
    and at :: "'q \<Rightarrow> nat \<Rightarrow> abort + 'a"
    and count :: "'q \<Rightarrow> nat"
    and elems :: "'q \<Rightarrow> 'a list"
    and invar :: "'q \<Rightarrow> bool"
  assumes invar_empty: "invar empty"
    and elems_empty: "elems empty = []"
    and invar_append: "invar q \<Longrightarrow> invar (append q x)"
    and elems_append: "invar q \<Longrightarrow> elems (append q x) = elems q @ [x]"
    and count_elems: "invar q \<Longrightarrow> count q = length (elems q)"
    and at_elems: "invar q \<Longrightarrow> i < count q \<Longrightarrow> at q i = Inr (elems q ! i)"
    and at_beyond: "invar q \<Longrightarrow> count q \<le> i \<Longrightarrow> at q i = Inl Terminated"
begin

lemma count_append: "invar q \<Longrightarrow> count (append q x) = Suc (count q)"
  by (simp add: count_elems elems_append invar_append)

lemma at_append_old: "invar q \<Longrightarrow> i < count q \<Longrightarrow> at (append q x) i = at q i"
  by (simp add: at_elems count_append elems_append invar_append count_elems [symmetric] nth_append)

lemma at_append_new: "invar q \<Longrightarrow> at (append q x) (count q) = Inr x"
  by (simp add: at_elems count_append elems_append invar_append count_elems)

lemma foldl_append:
  "invar q \<Longrightarrow> invar (foldl append q xs) \<and> elems (foldl append q xs) = elems q @ xs"
  by (induction xs arbitrary: q) (simp_all add: invar_append elems_append)

lemma built_elems: "elems (foldl append empty xs) = xs"
  using foldl_append [OF invar_empty, of xs] by (simp add: elems_empty)

lemma at_is_stable:
  assumes "invar q" and "i < count q"
  shows "at (foldl append q xs) i = at q i"
  using assms
proof (induction xs arbitrary: q)
  case Nil
  then show ?case by simp
next
  case (Cons x xs)
  then show ?case by (simp add: at_append_old invar_append count_append)
qed

end

section \<open>Stores of shared cells\<close>

locale cell_store =
  fixes alloc :: "'h \<Rightarrow> 'v \<Rightarrow> nat \<times> 'h"
    and cell_get :: "'h \<Rightarrow> nat \<Rightarrow> 'v option"
    and cell_set :: "'h \<Rightarrow> nat \<Rightarrow> 'v \<Rightarrow> 'h"
  assumes alloc_fresh: "cell_get h (fst (alloc h v)) = None"
    and read_alloc: "cell_get (snd (alloc h v)) a = (if a = fst (alloc h v) then Some v else cell_get h a)"
    and read_set: "cell_get (cell_set h a v) b =
      (if a = b \<and> cell_get h a \<noteq> None then Some v else cell_get h b)"
begin

lemma read_alloc_old: "cell_get h a = Some w \<Longrightarrow> cell_get (snd (alloc h v)) a = Some w"
  using alloc_fresh [of h v] by (auto simp: read_alloc)

lemma read_set_same: "cell_get h a = Some w \<Longrightarrow> cell_get (cell_set h a v) a = Some v"
  by (simp add: read_set)

lemma read_set_other: "a \<noteq> b \<Longrightarrow> cell_get (cell_set h a v) b = cell_get h b"
  by (simp add: read_set)

lemma detached_copy_independent:
  assumes "cell_get h a = Some w"
  shows "cell_get (cell_set (snd (alloc h w)) (fst (alloc h w)) v) a = Some w"
proof -
  have "fst (alloc h w) \<noteq> a" using assms alloc_fresh [of h w] by auto
  with assms show ?thesis by (simp add: read_set_other read_alloc_old)
qed

end

section \<open>Tables where the last entry wins\<close>

locale last_wins =
  fixes add :: "'t \<Rightarrow> 'k \<Rightarrow> 'v \<Rightarrow> 't"
    and look :: "'t \<Rightarrow> 'k \<Rightarrow> 'v option"
  assumes look_add: "look (add t k v) k' = (if k = k' then Some v else look t k')"
begin

lemma look_add_same: "look (add t k v) k = Some v"
  by (simp add: look_add)

lemma look_shadow: "look (add (add t k v) k w) k = Some w"
  by (simp add: look_add)

lemma look_add_commute:
  "k \<noteq> l \<Longrightarrow> look (add (add t k v) l w) m = look (add (add t l w) k v) m"
  by (auto simp: look_add)

end

section \<open>Transition systems with an inductive invariant\<close>

locale invariant_system =
  fixes init :: "'s \<Rightarrow> bool"
    and step :: "'s \<Rightarrow> 's \<Rightarrow> bool"
    and inv :: "'s \<Rightarrow> bool"
  assumes inv_init: "init s \<Longrightarrow> inv s"
    and inv_step: "inv s \<Longrightarrow> step s t \<Longrightarrow> inv t"
begin

lemma inv_steps: "step\<^sup>*\<^sup>* s t \<Longrightarrow> inv s \<Longrightarrow> inv t"
  by (induction rule: rtranclp_induct) (auto intro: inv_step)

lemma inv_reachable: "init s \<Longrightarrow> step\<^sup>*\<^sup>* s t \<Longrightarrow> inv t"
  by (rule inv_steps) (auto intro: inv_init)

end

section \<open>Total orders up to an equivalence\<close>

text \<open>What a key of an ordered container must provide, where equality is an operator of the code.\<close>

locale ordered_upto =
  fixes equiv :: "'a \<Rightarrow> 'a \<Rightarrow> bool"
    and less :: "'a \<Rightarrow> 'a \<Rightarrow> bool"
  assumes equiv_refl: "equiv a a"
    and equiv_trans: "equiv a b \<Longrightarrow> equiv b c \<Longrightarrow> equiv a c"
    and less_trans: "less a b \<Longrightarrow> less b c \<Longrightarrow> less a c"
    and trichotomy: "less a b \<or> equiv a b \<or> less b a"
    and less_not_equiv: "less a b \<Longrightarrow> \<not> equiv a b \<and> \<not> equiv b a"
begin

lemma less_irrefl: "\<not> less a a"
  using less_not_equiv equiv_refl by blast

lemma less_asym: "less a b \<Longrightarrow> \<not> less b a"
  using less_trans less_irrefl by blast

lemma incomparable_iff: "\<not> less a b \<and> \<not> less b a \<longleftrightarrow> equiv a b"
  using trichotomy less_not_equiv by blast

lemma equiv_sym: "equiv a b \<Longrightarrow> equiv b a"
  using trichotomy less_not_equiv by blast

lemma less_equiv_trans:
  assumes "less a b" and "equiv b c"
  shows "less a c"
proof -
  consider "less a c" | "equiv a c" | "less c a" using trichotomy [of a c] by blast
  then show ?thesis
  proof cases
    case 2
    then have "equiv a b" using equiv_trans equiv_sym assms(2) by blast
    then show ?thesis using less_not_equiv [OF assms(1)] by blast
  next
    case 3
    then have "less c b" using less_trans assms(1) by blast
    then show ?thesis using less_not_equiv [of c b] assms(2) by blast
  qed
qed

end

end
