(* ===== verification/Report_Types.thy ===== *)
theory Report_Types
  imports Interfaces
begin

text \<open>
  core/headers/ez/reporting/Types.hpp: the enumerations, the log message and ExecutionProgress,
  whose value is an unsigned char (8 word) clamped to 0..100. The progress of a report with sub
  reports is the rounded mean of double quotients; progress_of_mean is that rounding (half up, as
  std::round does on non-negative values) of the exact quotient, which is what the doubles give
  while the total weight stays below 2^44.
\<close>

datatype execution_status =
  Pending | Running | CancelRequest | Cancelled | Finished | StatusWarning | StatusError

datatype log_category = Info | LogWarning | LogError | Success | Debug

datatype event_type = StatusChanged | ProgressChanged | MessageAdded | SubReportAdded

datatype report_flag = Empty | IsTerminal

record execution_event =
  ev_type :: event_type
  ev_index :: "nat option"

record log_message =
  msg_header :: string
  msg_body :: string
  msg_category :: log_category
  msg_is_notification :: bool

definition log_message_new :: "log_category \<Rightarrow> string \<Rightarrow> string \<Rightarrow> log_message" where
  "log_message_new ctg header body =
     \<lparr>msg_header = header, msg_body = body, msg_category = ctg, msg_is_notification = False\<rparr>"

definition log_message_shl :: "log_message \<Rightarrow> string \<Rightarrow> log_message" where
  "log_message_shl m t = m\<lparr>msg_body := msg_body m @ t\<rparr>"

definition log_message_eq :: "log_message \<Rightarrow> log_message \<Rightarrow> bool" where
  "log_message_eq l r \<longleftrightarrow>
     (msg_header l, msg_body l, msg_category l, msg_is_notification l) =
     (msg_header r, msg_body r, msg_category r, msg_is_notification r)"

section \<open>Progress\<close>

type_synonym uchar = "8 word"

definition progress_of_uchar :: "uchar \<Rightarrow> uchar" where
  "progress_of_uchar v = (if v < 0 then 0 else if 100 < v then 100 else v)"

definition progress_of_int :: "int \<Rightarrow> uchar" where
  "progress_of_int value = progress_of_uchar (word_of_int value)"

definition progress_of_mean :: "nat \<Rightarrow> nat \<Rightarrow> uchar" where
  "progress_of_mean tot weights =
     progress_of_uchar (of_nat ((2 * tot + weights) div (2 * weights)))"

definition progress_of_ratio :: "64 word \<Rightarrow> 64 word \<Rightarrow> abort + uchar" where
  "progress_of_ratio current tot =
     (if tot = 0 then Inl UndefinedBehaviour
      else Inr (progress_of_uchar (ucast (current * 100 div tot))))"

definition try_update :: "uchar \<Rightarrow> uchar \<Rightarrow> uchar \<Rightarrow> bool \<times> uchar" where
  "try_update stored expected value = (if stored = expected then (True, value) else (False, stored))"

definition bounded_progress_weight :: "nat \<Rightarrow> 32 word" where
  "bounded_progress_weight val = of_nat (if val < 1 then 1 else if 2 ^ 32 - 1 < val then 2 ^ 32 - 1 else val)"

fun is_final :: "execution_status \<Rightarrow> bool" where
  "is_final Pending = False"
| "is_final Running = False"
| "is_final CancelRequest = False"
| "is_final Cancelled = True"
| "is_final Finished = True"
| "is_final StatusWarning = True"
| "is_final StatusError = True"

fun status_to_string :: "execution_status \<Rightarrow> string" where
  "status_to_string Pending = ''Pending''"
| "status_to_string Running = ''Running''"
| "status_to_string CancelRequest = ''Cancel request''"
| "status_to_string Cancelled = ''Cancelled''"
| "status_to_string Finished = ''Finished''"
| "status_to_string StatusWarning = ''Warning''"
| "status_to_string StatusError = ''Error''"

fun event_to_string :: "event_type \<Rightarrow> string" where
  "event_to_string StatusChanged = ''Status changed''"
| "event_to_string ProgressChanged = ''Progress changed''"
| "event_to_string MessageAdded = ''Message added''"
| "event_to_string SubReportAdded = ''Sub report added''"

fun category_to_string :: "log_category \<Rightarrow> string" where
  "category_to_string Info = ''Info''"
| "category_to_string LogWarning = ''Warning''"
| "category_to_string LogError = ''Error''"
| "category_to_string Success = ''Success''"
| "category_to_string Debug = ''Debug''"

section \<open>Facts\<close>

lemma progress_of_uchar_le: "progress_of_uchar v \<le> 100"
  by (auto simp: progress_of_uchar_def not_less)

lemma progress_of_uchar_id: "v \<le> 100 \<Longrightarrow> progress_of_uchar v = v"
  by (auto simp: progress_of_uchar_def)

lemma progress_of_int_le: "progress_of_int v \<le> 100"
  by (simp add: progress_of_int_def progress_of_uchar_le)

lemma progress_of_mean_le: "progress_of_mean t w \<le> 100"
  by (simp add: progress_of_mean_def progress_of_uchar_le)

lemma progress_of_int_small:
  assumes "0 \<le> v" and "v \<le> 100"
  shows "unat (progress_of_int v) = nat v"
proof -
  have "uint (word_of_int v :: uchar) = v" using assms by (simp add: uint_word_of_int)
  then have u: "unat (word_of_int v :: uchar) = nat v" by (simp add: unat_eq_nat_uint)
  then have "(word_of_int v :: uchar) \<le> 100" using assms by (simp add: word_le_nat_alt)
  with u show ?thesis by (simp add: progress_of_int_def progress_of_uchar_id)
qed

lemma progress_of_mean_exact:
  assumes "0 < weights" and "tot \<le> 100 * weights"
  shows "unat (progress_of_mean tot weights) = (2 * tot + weights) div (2 * weights)"
proof -
  let ?q = "(2 * tot + weights) div (2 * weights)"
  have "2 * tot + weights < 101 * (2 * weights)" using assms by simp
  then have q: "?q < 101" using assms(1) by (simp add: less_mult_imp_div_less)
  then have u: "unat (of_nat ?q :: uchar) = ?q" by (simp add: unat_of_nat)
  then have "(of_nat ?q :: uchar) \<le> 100" using q by (simp add: word_le_nat_alt)
  with u show ?thesis by (simp add: progress_of_mean_def progress_of_uchar_id)
qed

end
