(* ===== verification/Stable_Vector.thy ===== *)
theory Stable_Vector
  imports Interfaces
begin

text \<open>
  core/headers/ez/reporting/AppendOnlyStableVector.hpp: a list of fixed-capacity blocks with an
  element count that is published after the element is in place. The block size is the template
  parameter BlockSize (64 unless given); EZ_ASSERT is the one of a build without NDEBUG.
  The writer's append is kept in its two steps (store the element, then publish the count),
  so that what a concurrent reader can see is a property of the state in between.
\<close>

record 'a stable_vector =
  m_blocks :: "'a list list"
  m_size :: nat
  m_capacity :: nat
  m_blockCount :: nat

definition sv_empty :: "'a stable_vector" where
  "sv_empty = \<lparr>m_blocks = [], m_size = 0, m_capacity = 0, m_blockCount = 0\<rparr>"

definition maybe_grow :: "nat \<Rightarrow> 'a stable_vector \<Rightarrow> 'a stable_vector" where
  "maybe_grow bs v =
     (if m_size v = m_capacity v
      then v\<lparr>m_blocks := m_blocks v @ [[]], m_capacity := m_capacity v + bs,
             m_blockCount := Suc (m_blockCount v)\<rparr>
      else v)"

definition push_back_last :: "'a stable_vector \<Rightarrow> 'a \<Rightarrow> 'a stable_vector" where
  "push_back_last v t =
     v\<lparr>m_blocks := butlast (m_blocks v) @ [last (m_blocks v) @ [t]]\<rparr>"

definition sv_store :: "nat \<Rightarrow> 'a stable_vector \<Rightarrow> 'a \<Rightarrow> 'a stable_vector" where
  "sv_store bs v t = push_back_last (maybe_grow bs v) t"

definition sv_publish :: "'a stable_vector \<Rightarrow> 'a stable_vector" where
  "sv_publish v = v\<lparr>m_size := Suc (m_size v)\<rparr>"

definition sv_append :: "nat \<Rightarrow> 'a stable_vector \<Rightarrow> 'a \<Rightarrow> 'a stable_vector" where
  "sv_append bs v t = sv_publish (sv_store bs v t)"

definition sv_at :: "nat \<Rightarrow> 'a stable_vector \<Rightarrow> nat \<Rightarrow> abort + 'a" where
  "sv_at bs v i =
     (if m_size v = 0 then Inl Terminated
      else if \<not> i < m_size v then Inl Terminated
      else (let blockIndex = i div bs; localIndex = i mod bs in
        if \<not> blockIndex < length (m_blocks v) then Inl UndefinedBehaviour
        else if \<not> localIndex < length (m_blocks v ! blockIndex) then Inl OutOfRange
        else Inr ((m_blocks v ! blockIndex) ! localIndex)))"

definition sv_last :: "'a stable_vector \<Rightarrow> abort + 'a" where
  "sv_last v =
     (if \<not> m_size v > 0 then Inl Terminated
      else if m_blocks v = [] \<or> last (m_blocks v) = [] then Inl UndefinedBehaviour
      else Inr (last (last (m_blocks v))))"

definition sv_size :: "'a stable_vector \<Rightarrow> nat" where
  "sv_size v = m_size v"

definition sv_is_empty :: "'a stable_vector \<Rightarrow> bool" where
  "sv_is_empty v \<longleftrightarrow> m_size v = 0"

text \<open>
  visit: the two nested loops over blocks and items, with the early return of the snapshot
  counter. Inl is "returned", Inr carries the remaining count to the next block. The visited
  callable is a state transformer; visit_while_true's callable also says whether to go on.
\<close>

fun visit_block :: "('a \<Rightarrow> 's \<Rightarrow> 's) \<Rightarrow> 'a list \<Rightarrow> nat \<Rightarrow> 's \<Rightarrow> 's + (nat \<times> 's)" where
  "visit_block f [] count s = Inr (count, s)"
| "visit_block f (item # block) count s =
     (if count = 0 then Inl s else visit_block f block (count - 1) (f item s))"

fun visit_blocks :: "('a \<Rightarrow> 's \<Rightarrow> 's) \<Rightarrow> 'a list list \<Rightarrow> nat \<Rightarrow> 's \<Rightarrow> 's" where
  "visit_blocks f [] count s = s"
| "visit_blocks f (block # blocks) count s =
     (case visit_block f block count s of
        Inl s' \<Rightarrow> s'
      | Inr (count', s') \<Rightarrow> visit_blocks f blocks count' s')"

definition sv_visit :: "('a \<Rightarrow> 's \<Rightarrow> 's) \<Rightarrow> 'a stable_vector \<Rightarrow> 's \<Rightarrow> 's" where
  "sv_visit f v s = visit_blocks f (m_blocks v) (m_size v) s"

fun visit_while_block ::
  "('a \<Rightarrow> 's \<Rightarrow> bool \<times> 's) \<Rightarrow> 'a list \<Rightarrow> nat \<Rightarrow> 's \<Rightarrow> 's + (nat \<times> 's)" where
  "visit_while_block f [] count s = Inr (count, s)"
| "visit_while_block f (item # block) count s =
     (if count = 0 then Inl s
      else (case f item s of (go, s') \<Rightarrow>
        if \<not> go then Inl s' else visit_while_block f block (count - 1) s'))"

fun visit_while_blocks ::
  "('a \<Rightarrow> 's \<Rightarrow> bool \<times> 's) \<Rightarrow> 'a list list \<Rightarrow> nat \<Rightarrow> 's \<Rightarrow> 's" where
  "visit_while_blocks f [] count s = s"
| "visit_while_blocks f (block # blocks) count s =
     (case visit_while_block f block count s of
        Inl s' \<Rightarrow> s'
      | Inr (count', s') \<Rightarrow> visit_while_blocks f blocks count' s')"

definition sv_visit_while_true ::
  "('a \<Rightarrow> 's \<Rightarrow> bool \<times> 's) \<Rightarrow> 'a stable_vector \<Rightarrow> 's \<Rightarrow> 's" where
  "sv_visit_while_true f v s = visit_while_blocks f (m_blocks v) (m_size v) s"

section \<open>Invariant and abstraction\<close>

definition sv_list :: "'a stable_vector \<Rightarrow> 'a list" where
  "sv_list v = take (m_size v) (concat (m_blocks v))"

definition sv_inv :: "nat \<Rightarrow> 'a stable_vector \<Rightarrow> bool" where
  "sv_inv bs v \<longleftrightarrow> 0 < bs
     \<and> m_size v = length (concat (m_blocks v))
     \<and> m_capacity v = bs * length (m_blocks v)
     \<and> m_blockCount v = length (m_blocks v)
     \<and> (\<forall>b \<in> set (butlast (m_blocks v)). length b = bs)
     \<and> (m_blocks v \<noteq> [] \<longrightarrow> 0 < length (last (m_blocks v)) \<and> length (last (m_blocks v)) \<le> bs)"

lemma sv_inv_empty: "0 < bs \<Longrightarrow> sv_inv bs sv_empty"
  by (simp add: sv_inv_def sv_empty_def)

lemma sv_list_empty: "sv_list sv_empty = []"
  by (simp add: sv_list_def sv_empty_def)

lemma sv_inv_list: "sv_inv bs v \<Longrightarrow> sv_list v = concat (m_blocks v)"
  by (simp add: sv_list_def sv_inv_def)

lemma sv_inv_last_full:
  assumes "sv_inv bs v" and "m_blocks v \<noteq> []"
  shows "m_size v = m_capacity v \<longleftrightarrow> length (last (m_blocks v)) = bs"
proof -
  let ?B = "m_blocks v"
  have "length (concat ?B) = length (concat (butlast ?B)) + length (last ?B)"
    using concat_butlast_last [OF assms(2), symmetric] by (metis length_append)
  also have "length (concat (butlast ?B)) = bs * (length ?B - 1)"
    using assms(1) length_concat_full [of "butlast ?B" bs] by (simp add: sv_inv_def)
  finally have "m_size v = bs * (length ?B - 1) + length (last ?B)"
    using assms(1) by (simp add: sv_inv_def)
  moreover have "m_capacity v = bs * (length ?B - 1) + bs"
    using assms by (cases ?B rule: rev_cases) (auto simp: sv_inv_def)
  ultimately show ?thesis by simp
qed

lemma sv_store_blocks:
  assumes "sv_inv bs v"
  shows "concat (m_blocks (sv_store bs v t)) = concat (m_blocks v) @ [t]"
    and "m_size (sv_store bs v t) = m_size v"
proof -
  have ne: "m_size v \<noteq> m_capacity v \<Longrightarrow> m_blocks v \<noteq> []"
    using assms by (auto simp: sv_inv_def)
  show "concat (m_blocks (sv_store bs v t)) = concat (m_blocks v) @ [t]"
    using ne concat_butlast_last [of "m_blocks v"]
    by (auto simp: sv_store_def push_back_last_def maybe_grow_def simp flip: append_assoc)
  show "m_size (sv_store bs v t) = m_size v"
    by (simp add: sv_store_def push_back_last_def maybe_grow_def)
qed

lemma sv_store_shape:
  assumes "sv_inv bs v"
  shows "m_capacity (sv_store bs v t) = bs * length (m_blocks (sv_store bs v t))"
    and "m_blockCount (sv_store bs v t) = length (m_blocks (sv_store bs v t))"
    and "\<forall>b \<in> set (butlast (m_blocks (sv_store bs v t))). length b = bs"
    and "m_blocks (sv_store bs v t) \<noteq> []"
    and "0 < length (last (m_blocks (sv_store bs v t)))"
    and "length (last (m_blocks (sv_store bs v t))) \<le> bs"
proof -
  let ?B = "m_blocks v"
  have bs: "0 < bs" using assms by (simp add: sv_inv_def)
  have grown: "m_size v = m_capacity v \<Longrightarrow> \<forall>b \<in> set ?B. length b = bs"
    using assms sv_inv_last_full [OF assms]
    by (cases ?B rule: rev_cases) (auto simp: sv_inv_def)
  have room: "m_size v \<noteq> m_capacity v \<Longrightarrow> ?B \<noteq> [] \<and> length (last ?B) < bs"
    using assms sv_inv_last_full [OF assms] by (fastforce simp: sv_inv_def)
  have sz: "m_size v \<noteq> m_capacity v \<Longrightarrow> Suc (length ?B - Suc 0) = length ?B"
    using room by auto
  have cap: "m_capacity v = bs * length ?B" "m_blockCount v = length ?B"
    using assms by (simp_all add: sv_inv_def)
  have len: "length (m_blocks (sv_store bs v t)) =
      (if m_size v = m_capacity v then Suc (length ?B) else length ?B)"
    using sz by (simp add: sv_store_def push_back_last_def maybe_grow_def)
  note defs = sv_store_def push_back_last_def maybe_grow_def
  show "m_capacity (sv_store bs v t) = bs * length (m_blocks (sv_store bs v t))"
    using cap(1) by (simp only: len) (simp add: defs)
  show "m_blockCount (sv_store bs v t) = length (m_blocks (sv_store bs v t))"
    using cap(2) by (simp only: len) (simp add: defs)
  show "\<forall>b \<in> set (butlast (m_blocks (sv_store bs v t))). length b = bs"
    using assms grown by (simp add: defs sv_inv_def)
  show "m_blocks (sv_store bs v t) \<noteq> []" by (simp add: defs)
  show "0 < length (last (m_blocks (sv_store bs v t)))" by (simp add: defs)
  show "length (last (m_blocks (sv_store bs v t))) \<le> bs"
    using room bs by (auto simp: defs)
qed

lemma sv_inv_append:
  assumes "sv_inv bs v"
  shows "sv_inv bs (sv_append bs v t)"
proof -
  have "0 < bs" and "m_size v = length (concat (m_blocks v))"
    using assms by (simp_all add: sv_inv_def)
  then show ?thesis
    using sv_store_blocks [OF assms, of t] sv_store_shape [OF assms, of t]
    unfolding sv_append_def sv_publish_def sv_inv_def by (simp del: length_concat length_greater_0_conv)
qed

lemma sv_list_append:
  assumes "sv_inv bs v"
  shows "sv_list (sv_append bs v t) = sv_list v @ [t]"
proof -
  have "sv_list (sv_append bs v t) = concat (m_blocks (sv_append bs v t))"
    using assms by (intro sv_inv_list [of bs] sv_inv_append)
  also have "\<dots> = concat (m_blocks v) @ [t]"
    using sv_store_blocks(1) [OF assms] by (simp add: sv_append_def sv_publish_def)
  finally show ?thesis using assms by (simp add: sv_inv_list)
qed

lemma sv_at_list:
  assumes "sv_inv bs v" and "i < m_size v"
  shows "sv_at bs v i = Inr (sv_list v ! i)"
proof -
  have "i div bs < length (m_blocks v) \<and> i mod bs < length (m_blocks v ! (i div bs))
      \<and> concat (m_blocks v) ! i = (m_blocks v ! (i div bs)) ! (i mod bs)"
    using assms by (intro nth_concat_uniform) (auto simp: sv_inv_def)
  moreover have "sv_list v = concat (m_blocks v)" using assms(1) by (rule sv_inv_list)
  ultimately show ?thesis using assms(2) by (simp add: sv_at_def Let_def)
qed

lemma sv_size_list: "sv_inv bs v \<Longrightarrow> sv_size v = length (sv_list v)"
  by (simp add: sv_size_def sv_list_def sv_inv_def)

lemma sv_at_beyond: "m_size v \<le> i \<Longrightarrow> sv_at bs v i = Inl Terminated"
  by (simp add: sv_at_def)

interpretation sv: append_only sv_empty "sv_append (Suc n)" "sv_at (Suc n)" sv_size sv_list
    "sv_inv (Suc n)"
  by unfold_locales
    (simp_all add: sv_inv_empty sv_list_empty sv_inv_append sv_list_append sv_size_list
      sv_at_list sv_at_beyond sv_size_def [symmetric])

lemma sv_last_append: "sv_inv bs v \<Longrightarrow> sv_last (sv_append bs v t) = Inr t"
  by (simp add: sv_last_def sv_append_def sv_publish_def sv_store_def push_back_last_def)

section \<open>Visiting\<close>

lemma visit_block_take:
  "visit_block f b n s =
     (if n < length b then Inl (fold f (take n b) s) else Inr (n - length b, fold f b s))"
  by (induction b arbitrary: n s) (auto simp: take_Cons' gr0_conv_Suc)

lemma visit_blocks_take: "visit_blocks f bs n s = fold f (take n (concat bs)) s"
  by (induction bs arbitrary: n s) (auto simp: visit_block_take)

lemma sv_visit_list: "sv_visit f v s = fold f (sv_list v) s"
  by (simp add: sv_visit_def visit_blocks_take sv_list_def)

fun fold_while :: "('a \<Rightarrow> 's \<Rightarrow> bool \<times> 's) \<Rightarrow> 'a list \<Rightarrow> 's \<Rightarrow> bool \<times> 's" where
  "fold_while f [] s = (True, s)"
| "fold_while f (x # xs) s = (case f x s of (go, s') \<Rightarrow> if go then fold_while f xs s' else (False, s'))"

lemma fold_while_append:
  "fold_while f (xs @ ys) s =
     (case fold_while f xs s of (go, s') \<Rightarrow> if go then fold_while f ys s' else (False, s'))"
  by (induction xs arbitrary: s) (auto split: prod.splits)

lemma visit_while_block_fold:
  "visit_while_block f b n s =
     (case fold_while f (take n b) s of (go, s') \<Rightarrow>
        if go \<and> length b \<le> n then Inr (n - length b, s') else Inl s')"
  by (induction b arbitrary: n s) (auto simp: take_Cons' split: prod.splits)

lemma visit_while_blocks_fold:
  "visit_while_blocks f bs n s = snd (fold_while f (take n (concat bs)) s)"
  by (induction bs arbitrary: n s)
    (auto simp: visit_while_block_fold fold_while_append split: prod.splits if_splits)

lemma sv_visit_while_true_list: "sv_visit_while_true f v s = snd (fold_while f (sv_list v) s)"
  by (simp add: sv_visit_while_true_def visit_while_blocks_fold sv_list_def)

text \<open>
  Between the two steps of an append, a reader sees exactly what it saw before.
\<close>

lemma sv_list_store: "sv_inv bs v \<Longrightarrow> sv_list (sv_store bs v t) = sv_list v"
  using sv_store_blocks [of bs v t] by (simp add: sv_list_def sv_inv_def)

lemma sv_at_store:
  assumes "sv_inv bs v"
  shows "sv_at bs (sv_store bs v t) i = sv_at bs v i"
proof (cases "i < m_size v")
  case True
  have "sv_at bs (sv_append bs v t) i = Inr (sv_list (sv_append bs v t) ! i)"
    using True sv_store_blocks(2) [OF assms, of t] assms
    by (intro sv_at_list sv_inv_append) (simp_all add: sv_append_def sv_publish_def)
  then have "sv_at bs (sv_append bs v t) i = Inr (sv_list v ! i)"
    using True sv_size_list [OF assms]
    by (simp add: sv_list_append [OF assms] nth_append sv_size_def)
  then have "sv_at bs (sv_store bs v t) i = Inr (sv_list v ! i)"
    using True sv_store_blocks(2) [OF assms, of t]
    by (simp add: sv_at_def sv_append_def sv_publish_def Let_def split: if_splits)
  with True assms show ?thesis by (simp add: sv_at_list)
next
  case False
  then show ?thesis using sv_store_blocks(2) [OF assms] by (simp add: sv_at_beyond)
qed

end
