(* ===== verification/Execution_Report.thy ===== *)
theory Execution_Report
  imports Report_Types Stable_Vector
begin

text \<open>
  core/headers/ez/reporting/ExecutionReport.hpp and core/src/reporting/ExecutionReport.cpp.
  A report handle is a std::shared_ptr to an ExecutionReportData; here it is a number into an
  arena of data records, so that parent and child handles alias the same record, as in the code.
  The weak parent pointer is an option (an expired one is None). Calling an observer is recorded:
  who owns the observer, its id, the report it is called with, and the event.
  Operations that follow parent or child links return an option: None is "does not return",
  which only a cyclic tree produces (the link-following loops are bounded by the number of reports).
\<close>

abbreviation block_size :: nat where
  "block_size \<equiv> 64"

interpretation blocks: append_only sv_empty "sv_append block_size" "sv_at block_size" sv_size sv_list
    "sv_inv block_size"
  by unfold_locales
    (simp_all add: sv_inv_empty sv_list_empty sv_inv_append sv_list_append sv_size_list
      sv_at_list sv_at_beyond sv_size_def [symmetric])

datatype report_item =
    InvalidItem
  | ReportItem "nat option" nat
  | MessageItem nat nat

record report_data =
  rd_parent :: "nat option"
  rd_subitems :: "report_item stable_vector"
  rd_messages :: "log_message stable_vector"
  rd_sub_reports :: "nat stable_vector"
  rd_next_observer_id :: nat
  rd_observers :: "nat list"
  rd_name :: string
  rd_description :: string
  rd_id :: nat
  rd_progress :: uchar
  rd_weight :: "32 word"
  rd_status :: execution_status
  rd_flags :: "32 word"
  rd_start :: int
  rd_end :: int
  rd_warning_logged :: bool
  rd_error_logged :: bool

record notification =
  nt_owner :: nat
  nt_observer :: nat
  nt_source :: nat
  nt_event :: execution_event

record report_world =
  data :: "nat \<Rightarrow> report_data"
  next_report :: nat
  notified :: "notification list"

definition fresh_data :: report_data where
  "fresh_data =
     \<lparr>rd_parent = None, rd_subitems = sv_empty, rd_messages = sv_empty, rd_sub_reports = sv_empty,
      rd_next_observer_id = 0, rd_observers = [], rd_name = [], rd_description = [], rd_id = 0,
      rd_progress = 0, rd_weight = 1, rd_status = Pending, rd_flags = 0, rd_start = 0, rd_end = 0,
      rd_warning_logged = False, rd_error_logged = False\<rparr>"

definition empty_world :: report_world where
  "empty_world = \<lparr>data = (\<lambda>_. fresh_data), next_report = 0, notified = []\<rparr>"

definition upd :: "report_world \<Rightarrow> nat \<Rightarrow> (report_data \<Rightarrow> report_data) \<Rightarrow> report_world" where
  "upd w r f = w\<lparr>data := (data w)(r := f (data w r))\<rparr>"

section \<open>Items\<close>

definition item_valid :: "report_item \<Rightarrow> bool" where
  "item_valid it \<longleftrightarrow> (case it of InvalidItem \<Rightarrow> False | _ \<Rightarrow> True)"

definition is_message :: "report_item \<Rightarrow> bool" where
  "is_message it \<longleftrightarrow> (case it of MessageItem _ _ \<Rightarrow> True | _ \<Rightarrow> False)"

definition is_execution_report :: "report_item \<Rightarrow> bool" where
  "is_execution_report it \<longleftrightarrow> (case it of ReportItem _ _ \<Rightarrow> True | _ \<Rightarrow> False)"

definition to_message :: "report_world \<Rightarrow> report_item \<Rightarrow> abort + log_message" where
  "to_message w it = (case it of
     MessageItem owner i \<Rightarrow> sv_at block_size (rd_messages (data w owner)) i
   | _ \<Rightarrow> Inl Terminated)"

definition to_report :: "report_item \<Rightarrow> abort + nat" where
  "to_report it = (case it of ReportItem _ r \<Rightarrow> Inr r | _ \<Rightarrow> Inl Terminated)"

definition item_parent :: "report_item \<Rightarrow> nat option" where
  "item_parent it = (case it of
     InvalidItem \<Rightarrow> None | ReportItem p _ \<Rightarrow> p | MessageItem p _ \<Rightarrow> Some p)"

definition item_of_report :: "report_world \<Rightarrow> nat \<Rightarrow> report_item" where
  "item_of_report w r = ReportItem (rd_parent (data w r)) r"

section \<open>Plain accessors\<close>

definition is_root :: "report_world \<Rightarrow> nat \<Rightarrow> bool" where
  "is_root w r \<longleftrightarrow> rd_parent (data w r) = None"

definition parent :: "report_world \<Rightarrow> nat \<Rightarrow> nat option" where
  "parent w r = rd_parent (data w r)"

definition set_name :: "report_world \<Rightarrow> nat \<Rightarrow> string \<Rightarrow> report_world" where
  "set_name w r n = upd w r (rd_name_update (\<lambda>_. n))"

definition set_description :: "report_world \<Rightarrow> nat \<Rightarrow> string \<Rightarrow> report_world" where
  "set_description w r d = upd w r (rd_description_update (\<lambda>_. d))"

definition set_id :: "report_world \<Rightarrow> nat \<Rightarrow> nat \<Rightarrow> report_world" where
  "set_id w r i = upd w r (rd_id_update (\<lambda>_. i))"

definition set_start_time :: "report_world \<Rightarrow> nat \<Rightarrow> int \<Rightarrow> report_world" where
  "set_start_time w r now = upd w r (rd_start_update (\<lambda>_. now))"

definition set_end_time :: "report_world \<Rightarrow> nat \<Rightarrow> int \<Rightarrow> report_world" where
  "set_end_time w r now = upd w r (rd_end_update (\<lambda>_. now))"

definition elapsed :: "report_world \<Rightarrow> nat \<Rightarrow> abort + int" where
  "elapsed w r =
     (if \<not> rd_end (data w r) \<ge> rd_start (data w r) then Inl Terminated
      else Inr (rd_end (data w r) - rd_start (data w r)))"

definition set_flags :: "report_world \<Rightarrow> nat \<Rightarrow> 32 word \<Rightarrow> report_world" where
  "set_flags w r f = upd w r (rd_flags_update (\<lambda>_. f))"

definition set_progress_weight :: "report_world \<Rightarrow> nat \<Rightarrow> 32 word \<Rightarrow> report_world" where
  "set_progress_weight w r x = upd w r (rd_weight_update (\<lambda>_. x))"

definition exclude_from_parent_progress :: "report_world \<Rightarrow> nat \<Rightarrow> report_world" where
  "exclude_from_parent_progress w r = set_progress_weight w r 0"

definition status :: "report_world \<Rightarrow> nat \<Rightarrow> execution_status" where
  "status w r = rd_status (data w r)"

definition progress :: "report_world \<Rightarrow> nat \<Rightarrow> uchar" where
  "progress w r = rd_progress (data w r)"

definition progress_weight :: "report_world \<Rightarrow> nat \<Rightarrow> 32 word" where
  "progress_weight w r = rd_weight (data w r)"

definition subitem_count :: "report_world \<Rightarrow> nat \<Rightarrow> nat" where
  "subitem_count w r = sv_size (rd_subitems (data w r))"

definition subitem_at :: "report_world \<Rightarrow> nat \<Rightarrow> nat \<Rightarrow> abort + report_item" where
  "subitem_at w r i = sv_at block_size (rd_subitems (data w r)) i"

definition sub_report_count :: "report_world \<Rightarrow> nat \<Rightarrow> nat" where
  "sub_report_count w r = sv_size (rd_sub_reports (data w r))"

definition sub_report_at :: "report_world \<Rightarrow> nat \<Rightarrow> nat \<Rightarrow> abort + nat" where
  "sub_report_at w r i = sv_at block_size (rd_sub_reports (data w r)) i"

definition log_message_count :: "report_world \<Rightarrow> nat \<Rightarrow> nat" where
  "log_message_count w r = sv_size (rd_messages (data w r))"

definition log_message_at :: "report_world \<Rightarrow> nat \<Rightarrow> nat \<Rightarrow> abort + log_message" where
  "log_message_at w r i = sv_at block_size (rd_messages (data w r)) i"

definition sub_reports :: "report_world \<Rightarrow> nat \<Rightarrow> nat list" where
  "sub_reports w r = sv_list (rd_sub_reports (data w r))"

section \<open>Observers and notification\<close>

definition add_observer :: "report_world \<Rightarrow> nat \<Rightarrow> nat \<times> report_world" where
  "add_observer w r =
     (let i = rd_next_observer_id (data w r) in
      (i, upd w r (\<lambda>d. d\<lparr>rd_next_observer_id := Suc i, rd_observers := rd_observers d @ [i]\<rparr>)))"

definition has_observers :: "report_world \<Rightarrow> nat \<Rightarrow> bool" where
  "has_observers w r \<longleftrightarrow> rd_observers (data w r) \<noteq> []"

definition remove_observer :: "report_world \<Rightarrow> nat \<Rightarrow> int \<Rightarrow> report_world" where
  "remove_observer w r i =
     upd w r (rd_observers_update (List.filter (\<lambda>j. int j \<noteq> i)))"

definition call_observers ::
  "report_world \<Rightarrow> nat \<Rightarrow> nat \<Rightarrow> execution_event \<Rightarrow> report_world" where
  "call_observers w owner source event =
     w\<lparr>notified := notified w @
        map (\<lambda>i. \<lparr>nt_owner = owner, nt_observer = i, nt_source = source, nt_event = event\<rparr>)
          (rd_observers (data w owner))\<rparr>"

text \<open>The while loop over shared_parent; the fuel bounds the number of iterations.\<close>

primrec notify_parents ::
  "nat \<Rightarrow> report_world \<Rightarrow> nat option \<Rightarrow> nat \<Rightarrow> execution_event \<Rightarrow> report_world option" where
  "notify_parents 0 w shared_parent source event =
     (case shared_parent of None \<Rightarrow> Some w | Some _ \<Rightarrow> None)"
| "notify_parents (Suc n) w shared_parent source event =
     (case shared_parent of
        None \<Rightarrow> Some w
      | Some p \<Rightarrow>
          notify_parents n (call_observers w p source event) (rd_parent (data w p)) source event)"

definition notify ::
  "report_world \<Rightarrow> nat \<Rightarrow> event_type \<Rightarrow> nat option \<Rightarrow> report_world option" where
  "notify w r type index =
     (let event = \<lparr>ev_type = type, ev_index = index\<rparr> in
      notify_parents (next_report w) (call_observers w r r event) (rd_parent (data w r)) r event)"

section \<open>Progress\<close>

definition progress_from_sub_reports :: "report_world \<Rightarrow> nat \<Rightarrow> uchar option" where
  "progress_from_sub_reports w r =
     (let (totalProgress, totalWeights) =
        sv_visit (\<lambda>c (p, t).
            if progress_weight w c \<noteq> 0
            then (p + unat (progress w c) * unat (progress_weight w c),
                  t + unat (progress_weight w c))
            else (p, t))
          (rd_sub_reports (data w r)) (0, 0)
      in if totalWeights \<noteq> 0 then Some (progress_of_mean totalProgress totalWeights) else None)"

text \<open>
  try_set_progress, update_progress_from_sub_reports and try_propagate_progress_to_parent call
  each other up the parent chain; the first two take the third as the argument go, and
  propagate_progress ties the knot. The compare-and-swap loop reads the expected value and
  computes the new one in the same iteration; there is one writer, so the swap finds the value it
  expects (a spurious failure repeats the iteration from the same state).
\<close>

definition try_set_progress ::
  "(report_world \<Rightarrow> nat \<Rightarrow> report_world option) \<Rightarrow> report_world \<Rightarrow> nat \<Rightarrow> uchar \<Rightarrow> uchar
    \<Rightarrow> (bool \<times> report_world) option" where
  "try_set_progress go w r oldValue newValue =
     (case try_update (progress w r) oldValue newValue of
        (True, v) \<Rightarrow>
          (case notify (upd w r (rd_progress_update (\<lambda>_. v))) r ProgressChanged None of
             None \<Rightarrow> None
           | Some w1 \<Rightarrow> map_option (Pair True) (go w1 r))
      | (False, _) \<Rightarrow> Some (False, w))"

definition update_progress_from_sub_reports ::
  "(report_world \<Rightarrow> nat \<Rightarrow> report_world option) \<Rightarrow> report_world \<Rightarrow> nat \<Rightarrow> report_world option" where
  "update_progress_from_sub_reports go w r =
     (let old = progress w r in
      case progress_from_sub_reports w r of
        None \<Rightarrow> Some w
      | Some new \<Rightarrow> map_option snd (try_set_progress go w r old new))"

primrec propagate_progress :: "nat \<Rightarrow> report_world \<Rightarrow> nat \<Rightarrow> report_world option" where
  "propagate_progress 0 w r = None"
| "propagate_progress (Suc n) w r =
     (if progress_weight w r \<noteq> 0
      then (case rd_parent (data w r) of
              Some sharedParent \<Rightarrow>
                update_progress_from_sub_reports (propagate_progress n) w sharedParent
            | None \<Rightarrow> Some w)
      else Some w)"

definition try_propagate_progress_to_parent :: "report_world \<Rightarrow> nat \<Rightarrow> report_world option" where
  "try_propagate_progress_to_parent w r = propagate_progress (Suc (next_report w)) w r"

definition set_progress :: "report_world \<Rightarrow> nat \<Rightarrow> uchar \<Rightarrow> report_world option" where
  "set_progress w r p =
     (if progress w r \<noteq> p
      then (case notify (upd w r (rd_progress_update (\<lambda>_. p))) r ProgressChanged None of
              None \<Rightarrow> None
            | Some w1 \<Rightarrow> try_propagate_progress_to_parent w1 r)
      else Some w)"

definition set_progress_of ::
  "report_world \<Rightarrow> nat \<Rightarrow> 64 word \<Rightarrow> 64 word \<Rightarrow> report_world option" where
  "set_progress_of w r current tot =
     (if tot = 0 then Some w
      else set_progress w r
             (progress_of_int (sint (ucast (current * 100 div tot) :: 32 word))))"

section \<open>Status\<close>

primrec set_status_fuel ::
  "nat \<Rightarrow> report_world \<Rightarrow> nat \<Rightarrow> execution_status \<Rightarrow> report_world option" where
  "set_status_fuel 0 w r st = None"
| "set_status_fuel (Suc n) w r st =
     (if status w r \<noteq> st
      then (let w1 = upd w r (rd_status_update (\<lambda>_. st));
                w2 = (if st = StatusError then upd w1 r (rd_error_logged_update (\<lambda>_. True))
                      else if st = StatusWarning then upd w1 r (rd_warning_logged_update (\<lambda>_. True))
                      else w1)
            in case notify w2 r StatusChanged None of
                 None \<Rightarrow> None
               | Some w3 \<Rightarrow>
                   (case (if status w3 r = Finished then set_progress w3 r (progress_of_int 100)
                          else Some w3) of
                      None \<Rightarrow> None
                    | Some w4 \<Rightarrow>
                        (if st = Cancelled
                         then sv_visit (\<lambda>c s. case s of
                                  None \<Rightarrow> None
                                | Some w' \<Rightarrow> (if \<not> is_final (status w' c)
                                              then set_status_fuel n w' c Cancelled
                                              else Some w'))
                                (rd_sub_reports (data w4 r)) (Some w4)
                         else Some w4)))
      else Some w)"

definition set_status :: "report_world \<Rightarrow> nat \<Rightarrow> execution_status \<Rightarrow> report_world option" where
  "set_status w r st = set_status_fuel (Suc (next_report w)) w r st"

text \<open>is_busy and has_busy_sub_report: an index loop over the sub reports, recursing downwards.\<close>

primrec busy_loop ::
  "(nat \<Rightarrow> bool option) \<Rightarrow> nat stable_vector \<Rightarrow> nat \<Rightarrow> nat \<Rightarrow> bool option" where
  "busy_loop busy subs i 0 = Some False"
| "busy_loop busy subs i (Suc k) =
     (case sv_at block_size subs i of
        Inl _ \<Rightarrow> None
      | Inr c \<Rightarrow> (case busy c of
          None \<Rightarrow> None
        | Some True \<Rightarrow> Some True
        | Some False \<Rightarrow> busy_loop busy subs (Suc i) k))"

primrec is_busy_fuel :: "nat \<Rightarrow> report_world \<Rightarrow> nat \<Rightarrow> bool option" where
  "is_busy_fuel 0 w r = None"
| "is_busy_fuel (Suc n) w r =
     (if \<not> is_final (status w r) then Some True
      else busy_loop (is_busy_fuel n w) (rd_sub_reports (data w r)) 0 (sub_report_count w r))"

definition is_busy :: "report_world \<Rightarrow> nat \<Rightarrow> bool option" where
  "is_busy w r = is_busy_fuel (Suc (next_report w)) w r"

definition has_busy_sub_report :: "report_world \<Rightarrow> nat \<Rightarrow> bool option" where
  "has_busy_sub_report w r =
     busy_loop (is_busy w) (rd_sub_reports (data w r)) 0 (sub_report_count w r)"

section \<open>Sub reports, logging, construction\<close>

definition add_sub_report :: "report_world \<Rightarrow> nat \<Rightarrow> nat \<Rightarrow> report_world option" where
  "add_sub_report w r ctx =
     (let w1 = upd w ctx (rd_parent_update (\<lambda>_. Some r));
          w2 = upd w1 r (\<lambda>d. d\<lparr>rd_sub_reports := sv_append block_size (rd_sub_reports d) ctx\<rparr>);
          item = item_of_report w2 ctx;
          w3 = upd w2 r (\<lambda>d. d\<lparr>rd_subitems := sv_append block_size (rd_subitems d) item\<rparr>)
      in notify w3 r SubReportAdded (Some (sv_size (rd_subitems (data w3 r)) - 1)))"

definition log_entry :: "report_world \<Rightarrow> nat \<Rightarrow> log_message \<Rightarrow> report_world option" where
  "log_entry w r msg =
     (let w1 = (case msg_category msg of
                  LogWarning \<Rightarrow> upd w r (rd_warning_logged_update (\<lambda>_. True))
                | LogError \<Rightarrow> upd w r (rd_error_logged_update (\<lambda>_. True))
                | _ \<Rightarrow> w);
          w2 = upd w1 r (\<lambda>d. d\<lparr>rd_messages := sv_append block_size (rd_messages d) msg\<rparr>);
          item = MessageItem r (sv_size (rd_messages (data w2 r)) - 1);
          w3 = upd w2 r (\<lambda>d. d\<lparr>rd_subitems := sv_append block_size (rd_subitems d) item\<rparr>)
      in notify w3 r MessageAdded (Some (sv_size (rd_subitems (data w3 r)) - 1)))"

datatype report_arg =
    NameArg string | DescriptionArg string | FlagsArg "32 word" | ObserverArg | WeightArg "32 word"

fun apply_arg :: "report_world \<Rightarrow> nat \<Rightarrow> report_arg \<Rightarrow> report_world" where
  "apply_arg w r (NameArg n) = set_name w r n"
| "apply_arg w r (DescriptionArg d) = set_description w r d"
| "apply_arg w r (FlagsArg f) = set_flags w r f"
| "apply_arg w r ObserverArg = snd (add_observer w r)"
| "apply_arg w r (WeightArg x) = set_progress_weight w r x"

definition new_report :: "report_world \<Rightarrow> report_arg list \<Rightarrow> nat \<times> report_world" where
  "new_report w args =
     (let r = next_report w;
          w1 = w\<lparr>data := (data w)(r := fresh_data\<lparr>rd_name := ''Root''\<rparr>), next_report := Suc r\<rparr>
      in (r, foldl (\<lambda>v a. apply_arg v r a) w1 args))"

definition create_sub_report ::
  "report_world \<Rightarrow> nat \<Rightarrow> report_arg list \<Rightarrow> (nat \<times> report_world) option" where
  "create_sub_report w r args =
     (let (ctx, w1) = new_report w args in map_option (Pair ctx) (add_sub_report w1 r ctx))"

text \<open>ExecutionLogMessageBuilder: the message is logged when the builder is destroyed.\<close>

record message_builder =
  mb_report :: "nat option"
  mb_message :: log_message

definition builder_new :: "nat \<Rightarrow> log_category \<Rightarrow> string \<Rightarrow> message_builder" where
  "builder_new r ctg header = \<lparr>mb_report = Some r, mb_message = log_message_new ctg header []\<rparr>"

definition builder_shl :: "message_builder \<Rightarrow> string \<Rightarrow> message_builder" where
  "builder_shl b fragment = b\<lparr>mb_message := log_message_shl (mb_message b) fragment\<rparr>"

definition builder_move :: "message_builder \<Rightarrow> message_builder \<times> message_builder" where
  "builder_move rhs =
     (\<lparr>mb_report = mb_report rhs, mb_message = mb_message rhs\<rparr>, rhs\<lparr>mb_report := None\<rparr>)"

definition builder_destroy :: "report_world \<Rightarrow> message_builder \<Rightarrow> report_world option" where
  "builder_destroy w b =
     (case mb_report b of None \<Rightarrow> Some w | Some r \<Rightarrow> log_entry w r (mb_message b))"

end
