(* ===== verification/Report_Tree.thy ===== *)
theory Report_Tree
  imports Execution_Report
begin

text \<open>
  The tree invariant of the report arena, what each operation does to it, and the termination of
  the operations that follow its links: notification and progress go up the parent chain, status
  and busyness go down the sub reports.
\<close>

section \<open>The invariant\<close>

definition tree_part ::
  "report_data \<Rightarrow> nat option \<times> report_item stable_vector \<times> log_message stable_vector
    \<times> nat stable_vector" where
  "tree_part d = (rd_parent d, rd_subitems d, rd_messages d, rd_sub_reports d)"

definition same_tree :: "report_world \<Rightarrow> report_world \<Rightarrow> bool" where
  "same_tree w w' \<longleftrightarrow> next_report w' = next_report w
     \<and> (\<forall>r. tree_part (data w' r) = tree_part (data w r))"

definition vectors_ok :: "report_data \<Rightarrow> bool" where
  "vectors_ok d \<longleftrightarrow> sv_inv block_size (rd_subitems d) \<and> sv_inv block_size (rd_messages d)
     \<and> sv_inv block_size (rd_sub_reports d)"

definition wf_tree :: "report_world \<Rightarrow> bool" where
  "wf_tree w \<longleftrightarrow>
     (\<forall>r p. rd_parent (data w r) = Some p \<longrightarrow> p < r \<and> r < next_report w)
     \<and> (\<forall>r c. c \<in> set (sub_reports w r) \<longleftrightarrow> rd_parent (data w c) = Some r)
     \<and> (\<forall>r. vectors_ok (data w r))"

lemma same_tree_refl [simp, intro]: "same_tree w w"
  by (simp add: same_tree_def)

lemma same_tree_trans: "same_tree u v \<Longrightarrow> same_tree v w \<Longrightarrow> same_tree u w"
  by (simp add: same_tree_def)

lemma same_tree_next: "same_tree w w' \<Longrightarrow> next_report w' = next_report w"
  by (simp add: same_tree_def)

lemma same_tree_parent: "same_tree w w' \<Longrightarrow> rd_parent (data w' r) = rd_parent (data w r)"
  by (simp add: same_tree_def tree_part_def)

lemma same_tree_vectors:
  "same_tree w w' \<Longrightarrow> rd_sub_reports (data w' r) = rd_sub_reports (data w r)"
  "same_tree w w' \<Longrightarrow> rd_messages (data w' r) = rd_messages (data w r)"
  "same_tree w w' \<Longrightarrow> rd_subitems (data w' r) = rd_subitems (data w r)"
  by (simp_all add: same_tree_def tree_part_def)

lemma same_tree_subs: "same_tree w w' \<Longrightarrow> sub_reports w' r = sub_reports w r"
  by (simp add: sub_reports_def same_tree_vectors)

lemma same_tree_wf: "same_tree w w' \<Longrightarrow> wf_tree w \<Longrightarrow> wf_tree w'"
  by (simp add: wf_tree_def same_tree_next same_tree_parent same_tree_subs vectors_ok_def
      same_tree_vectors)

lemma wf_parent_less: "wf_tree w \<Longrightarrow> rd_parent (data w r) = Some p \<Longrightarrow> p < r \<and> r < next_report w"
  by (simp add: wf_tree_def)

lemma wf_child: "wf_tree w \<Longrightarrow> c \<in> set (sub_reports w r) \<longleftrightarrow> rd_parent (data w c) = Some r"
  by (simp add: wf_tree_def)

lemma wf_child_less:
  "wf_tree w \<Longrightarrow> c \<in> set (sub_reports w r) \<Longrightarrow> r < c \<and> c < next_report w"
  by (simp add: wf_child wf_parent_less)

lemma wf_vectors: "wf_tree w \<Longrightarrow> vectors_ok (data w r)"
  by (simp add: wf_tree_def)

section \<open>Updates of one record\<close>

lemma data_upd: "data (upd w r f) x = (if x = r then f (data w r) else data w x)"
  by (simp add: upd_def)

lemma next_upd [simp]: "next_report (upd w r f) = next_report w"
  by (simp add: upd_def)

lemma notified_upd [simp]: "notified (upd w r f) = notified w"
  by (simp add: upd_def)

lemma same_tree_upd: "(\<And>d. tree_part (f d) = tree_part d) \<Longrightarrow> same_tree w (upd w r f)"
  by (simp add: same_tree_def data_upd)

lemmas plain_update_defs =
  set_name_def set_description_def set_id_def set_start_time_def set_end_time_def set_flags_def
  set_progress_weight_def exclude_from_parent_progress_def remove_observer_def

lemma same_tree_plain:
  "same_tree w (set_name w r n)" "same_tree w (set_description w r n)" "same_tree w (set_id w r i)"
  "same_tree w (set_start_time w r t)" "same_tree w (set_end_time w r t)"
  "same_tree w (set_flags w r f)" "same_tree w (set_progress_weight w r x)"
  "same_tree w (exclude_from_parent_progress w r)" "same_tree w (remove_observer w r o')"
  "same_tree w (snd (add_observer w r))"
  by (simp_all add: plain_update_defs add_observer_def Let_def same_tree_upd tree_part_def)

section \<open>Notification\<close>

definition calls_of ::
  "report_world \<Rightarrow> nat \<Rightarrow> execution_event \<Rightarrow> nat \<Rightarrow> notification list" where
  "calls_of w source event owner =
     map (\<lambda>i. \<lparr>nt_owner = owner, nt_observer = i, nt_source = source, nt_event = event\<rparr>)
       (rd_observers (data w owner))"

primrec ancestors :: "nat \<Rightarrow> report_world \<Rightarrow> nat option \<Rightarrow> nat list" where
  "ancestors 0 w p = []"
| "ancestors (Suc n) w p =
     (case p of None \<Rightarrow> [] | Some q \<Rightarrow> q # ancestors n w (rd_parent (data w q)))"

definition lineage :: "report_world \<Rightarrow> nat \<Rightarrow> nat list" where
  "lineage w r = r # ancestors (next_report w) w (rd_parent (data w r))"

lemma call_observers_simps [simp]:
  "data (call_observers w o' s e) = data w"
  "next_report (call_observers w o' s e) = next_report w"
  "notified (call_observers w o' s e) = notified w @ calls_of w s e o'"
  by (simp_all add: call_observers_def calls_of_def)

lemma calls_of_data: "data v = data w \<Longrightarrow> calls_of v = calls_of w"
  by (simp add: calls_of_def fun_eq_iff)

lemma ancestors_data: "data v = data w \<Longrightarrow> ancestors n v p = ancestors n w p"
  by (induction n arbitrary: p) (simp_all split: option.split)

lemma notify_parents_spec:
  assumes "wf_tree w" and "\<forall>q. p = Some q \<longrightarrow> q < n"
  shows "notify_parents n w p s e =
    Some (w\<lparr>notified := notified w @ concat (map (calls_of w s e) (ancestors n w p))\<rparr>)"
  using assms
proof (induction n arbitrary: w p)
  case 0
  then show ?case by (cases p) auto
next
  case (Suc n)
  show ?case
  proof (cases p)
    case None
    then show ?thesis by simp
  next
    case (Some q)
    let ?v = "call_observers w q s e"
    have v: "data ?v = data w" "next_report ?v = next_report w" by simp_all
    have "same_tree w ?v" by (simp add: same_tree_def)
    then have "wf_tree ?v" using Suc.prems(1) by (rule same_tree_wf)
    moreover have "\<forall>q'. rd_parent (data w q) = Some q' \<longrightarrow> q' < n"
      using Suc.prems Some by (auto dest: wf_parent_less)
    ultimately have "notify_parents n ?v (rd_parent (data w q)) s e =
        Some (?v\<lparr>notified := notified ?v @
          concat (map (calls_of ?v s e) (ancestors n ?v (rd_parent (data w q))))\<rparr>)"
      using Suc.IH [of ?v] by simp
    with Some show ?thesis
      by (simp add: ancestors_data [OF v(1)] calls_of_data [OF v(1)])
  qed
qed

lemma notify_spec:
  assumes "wf_tree w"
  shows "notify w r ty i = Some (w\<lparr>notified := notified w @
    concat (map (calls_of w r \<lparr>ev_type = ty, ev_index = i\<rparr>) (lineage w r))\<rparr>)"
proof -
  let ?e = "\<lparr>ev_type = ty, ev_index = i\<rparr>"
  let ?v = "call_observers w r r ?e"
  have v: "data ?v = data w" by simp
  have wf: "wf_tree ?v" using assms by (rule same_tree_wf [rotated]) (simp add: same_tree_def)
  have "\<forall>q. rd_parent (data w r) = Some q \<longrightarrow> q < next_report w"
    using assms by (auto dest: wf_parent_less)
  from notify_parents_spec [OF wf this, of r ?e] show ?thesis
    by (simp add: notify_def Let_def lineage_def ancestors_data [OF v] calls_of_data [OF v])
qed

lemma notify_returns: "wf_tree w \<Longrightarrow> \<exists>ns. notify w r ty i = Some (w\<lparr>notified := notified w @ ns\<rparr>)"
  by (auto simp: notify_spec)

lemma notify_data: "wf_tree w \<Longrightarrow> notify w r ty i = Some w' \<Longrightarrow> data w' = data w \<and> next_report w' = next_report w"
  by (auto simp: notify_spec)

lemma ancestors_enough:
  "wf_tree w \<Longrightarrow> \<forall>q. p = Some q \<longrightarrow> q < n \<Longrightarrow> ancestors (n + k) w p = ancestors n w p"
proof (induction n arbitrary: p)
  case 0
  then show ?case by (cases p; cases k) auto
next
  case (Suc n)
  then show ?case
    by (cases p) (auto dest: wf_parent_less intro!: Suc.IH)
qed

lemma lineage_unfold:
  assumes "wf_tree w"
  shows "lineage w r = r # (case rd_parent (data w r) of None \<Rightarrow> [] | Some p \<Rightarrow> lineage w p)"
proof (cases "rd_parent (data w r)")
  case None
  then show ?thesis by (cases "next_report w") (simp_all add: lineage_def)
next
  case (Some p)
  then obtain m where m: "next_report w = Suc m" and p: "p \<le> m"
    using wf_parent_less [OF assms Some] by (cases "next_report w") auto
  have "ancestors (m + 1) w (rd_parent (data w p)) = ancestors m w (rd_parent (data w p))"
    using assms p by (intro ancestors_enough) (auto dest: wf_parent_less)
  with Some m show ?thesis by (simp add: lineage_def)
qed

section \<open>Progress\<close>

text \<open>Only progress values and the notification trace differ, and the trace only grows.\<close>

definition progress_only :: "report_world \<Rightarrow> report_world \<Rightarrow> bool" where
  "progress_only w w' \<longleftrightarrow> next_report w' = next_report w
     \<and> (\<forall>r. (data w' r)\<lparr>rd_progress := 0\<rparr> = (data w r)\<lparr>rd_progress := 0\<rparr>)
     \<and> (\<exists>ns. notified w' = notified w @ ns)"

lemma progress_only_refl [simp, intro]: "progress_only w w"
  by (simp add: progress_only_def)

lemma progress_only_trans: "progress_only u v \<Longrightarrow> progress_only v w \<Longrightarrow> progress_only u w"
  by (auto simp: progress_only_def)

lemma progress_only_field:
  assumes "progress_only w w'" and "\<And>d x. f (d\<lparr>rd_progress := x\<rparr>) = f d"
  shows "f (data w' r) = f (data w r)"
proof -
  have "f ((data w' r)\<lparr>rd_progress := 0\<rparr>) = f ((data w r)\<lparr>rd_progress := 0\<rparr>)"
    using assms(1) by (simp add: progress_only_def)
  then show ?thesis by (simp add: assms(2))
qed

lemma progress_only_fields:
  assumes "progress_only w w'"
  shows "status w' r = status w r" and "progress_weight w' r = progress_weight w r"
    and "rd_parent (data w' r) = rd_parent (data w r)"
    and "rd_error_logged (data w' r) = rd_error_logged (data w r)"
    and "rd_warning_logged (data w' r) = rd_warning_logged (data w r)"
    and "rd_observers (data w' r) = rd_observers (data w r)"
  using assms
  by (simp_all add: status_def progress_weight_def
      progress_only_field [of w w' rd_status] progress_only_field [of w w' rd_weight]
      progress_only_field [of w w' rd_parent] progress_only_field [of w w' rd_error_logged]
      progress_only_field [of w w' rd_warning_logged] progress_only_field [of w w' rd_observers])

lemma progress_only_tree: "progress_only w w' \<Longrightarrow> same_tree w w'"
  using progress_only_field [of w w' tree_part]
  by (simp add: same_tree_def progress_only_def tree_part_def)

lemma progress_only_upd: "progress_only w (upd w r (rd_progress_update (\<lambda>_. p)))"
  by (simp add: progress_only_def data_upd)

lemma progress_only_notify:
  "wf_tree w \<Longrightarrow> notify w r ty i = Some w' \<Longrightarrow> progress_only w w'"
  by (auto simp: notify_spec progress_only_def)

definition weighted_progress :: "report_world \<Rightarrow> nat \<Rightarrow> nat" where
  "weighted_progress w r =
     sum_list (map (\<lambda>c. unat (progress w c) * unat (progress_weight w c)) (sub_reports w r))"

definition total_weight :: "report_world \<Rightarrow> nat \<Rightarrow> nat" where
  "total_weight w r = sum_list (map (\<lambda>c. unat (progress_weight w c)) (sub_reports w r))"

lemma progress_fold:
  "fold (\<lambda>c (p, t). if progress_weight w c \<noteq> 0
        then (p + unat (progress w c) * unat (progress_weight w c), t + unat (progress_weight w c))
        else (p, t)) cs (p, t) =
   (p + sum_list (map (\<lambda>c. unat (progress w c) * unat (progress_weight w c)) cs),
    t + sum_list (map (\<lambda>c. unat (progress_weight w c)) cs))"
  by (induction cs arbitrary: p t) auto

lemma progress_from_sub_reports_mean:
  "progress_from_sub_reports w r =
     (if total_weight w r \<noteq> 0 then Some (progress_of_mean (weighted_progress w r) (total_weight w r))
      else None)"
  by (auto simp: progress_from_sub_reports_def sv_visit_list progress_fold
      weighted_progress_def total_weight_def sub_reports_def sum_list_map_pos)

lemma progress_from_cong:
  assumes "progress_only w w'" and "\<forall>c \<in> set (sub_reports w r). progress w' c = progress w c"
  shows "progress_from_sub_reports w' r = progress_from_sub_reports w r"
proof -
  have s: "sub_reports w' r = sub_reports w r"
    using assms(1) by (intro same_tree_subs progress_only_tree)
  have p: "map (\<lambda>c. unat (progress w' c) * unat (progress_weight w c)) (sub_reports w r) =
      map (\<lambda>c. unat (progress w c) * unat (progress_weight w c)) (sub_reports w r)"
    using assms by simp
  show ?thesis
    by (simp add: progress_from_sub_reports_mean weighted_progress_def total_weight_def s p
        progress_only_fields(2) [OF assms(1)])
qed

text \<open>The reports whose progress is recomputed when the progress of r changes.\<close>

primrec progress_chain :: "nat \<Rightarrow> report_world \<Rightarrow> nat \<Rightarrow> nat list" where
  "progress_chain 0 w r = []"
| "progress_chain (Suc n) w r =
     (if progress_weight w r \<noteq> 0
      then (case rd_parent (data w r) of None \<Rightarrow> [] | Some p \<Rightarrow> p # progress_chain n w p)
      else [])"

lemma progress_chain_cong:
  "progress_only w w' \<Longrightarrow> progress_chain n w' r = progress_chain n w r"
  by (induction n arbitrary: r) (simp_all add: progress_only_fields split: option.split)

definition consistent :: "report_world \<Rightarrow> nat \<Rightarrow> bool" where
  "consistent w r \<longleftrightarrow> progress_from_sub_reports w r = Some (progress w r)"

lemma total_weight_pos:
  assumes "wf_tree w" and "rd_parent (data w r) = Some p" and "progress_weight w r \<noteq> 0"
  shows "total_weight w p \<noteq> 0"
proof -
  have "r \<in> set (sub_reports w p)" using assms by (simp add: wf_child)
  moreover have "unat (progress_weight w r) \<noteq> 0" using assms(3) by (simp add: unat_eq_0)
  ultimately show ?thesis by (auto simp: total_weight_def)
qed

lemma propagate_progress_spec:
  assumes "wf_tree w" and "r < n"
  shows "\<exists>w'. propagate_progress n w r = Some w' \<and> progress_only w w'
    \<and> (\<forall>x. r \<le> x \<longrightarrow> progress w' x = progress w x)
    \<and> (list_all (consistent w') (progress_chain n w r))"
  using assms
proof (induction n arbitrary: w r)
  case 0
  then show ?case by simp
next
  case (Suc n)
  show ?case
  proof (cases "progress_weight w r \<noteq> 0 \<and> rd_parent (data w r) \<noteq> None")
    case False
    then show ?thesis by (intro exI [of _ w]) (auto split: option.split)
  next
    case True
    then obtain p where p: "rd_parent (data w r) = Some p" by auto
    then have pr: "p < r" using Suc.prems by (auto dest: wf_parent_less)
    from total_weight_pos [OF Suc.prems(1) p] True obtain m
      where m: "progress_from_sub_reports w p = Some m" by (simp add: progress_from_sub_reports_mean)
    define w1 where "w1 = upd w p (rd_progress_update (\<lambda>_. m))"
    have w1: "progress_only w w1" by (simp add: w1_def progress_only_upd)
    then have wf1: "wf_tree w1" using Suc.prems(1) by (rule same_tree_wf [OF progress_only_tree])
    obtain w2 where w2: "notify w1 p ProgressChanged None = Some w2"
      using notify_returns [OF wf1] by blast
    have po2: "progress_only w w2"
      using w1 progress_only_notify [OF wf1 w2] by (rule progress_only_trans)
    have d2: "data w2 = data w1" using notify_data [OF wf1 w2] by simp
    have wf2: "wf_tree w2" using progress_only_tree [OF po2] Suc.prems(1) by (rule same_tree_wf)
    from Suc.IH [OF wf2, of p] pr Suc.prems(2) obtain w'
      where w': "propagate_progress n w2 p = Some w'" "progress_only w2 w'"
        and keep: "\<forall>x. p \<le> x \<longrightarrow> progress w' x = progress w2 x"
        and chain: "list_all (consistent w') (progress_chain n w2 p)" by auto
    have po: "progress_only w w'" using po2 w'(2) by (rule progress_only_trans)
    have prog2: "progress w2 x = (if x = p then m else progress w x)" for x
      using d2 by (simp add: progress_def w1_def data_upd)
    have "\<forall>c \<in> set (sub_reports w p). progress w' c = progress w c"
      using keep prog2 Suc.prems(1) by (auto dest: wf_child_less)
    then have "progress_from_sub_reports w' p = Some m"
      using progress_from_cong [OF po] m by simp
    then have "consistent w' p" using keep prog2 by (simp add: consistent_def)
    moreover have "progress_chain n w2 p = progress_chain n w p"
      by (rule progress_chain_cong [OF po2])
    moreover have "propagate_progress (Suc n) w r = Some w'"
      using True p m w2 w'(1)
      by (simp add: update_progress_from_sub_reports_def try_set_progress_def try_update_def w1_def)
    moreover have "\<forall>x. r \<le> x \<longrightarrow> progress w' x = progress w x"
      using keep prog2 pr by simp
    ultimately show ?thesis using po chain True p by auto
  qed
qed

lemma set_progress_spec:
  assumes "wf_tree w" and "r < next_report w"
  shows "\<exists>w'. set_progress w r p = Some w' \<and> progress_only w w' \<and> progress w' r = p
    \<and> (\<forall>x. r < x \<longrightarrow> progress w' x = progress w x)
    \<and> (progress w r \<noteq> p \<longrightarrow> (list_all (consistent w') (progress_chain (Suc (next_report w)) w r)))"
proof (cases "progress w r = p")
  case True
  then show ?thesis by (intro exI [of _ w]) (simp add: set_progress_def)
next
  case False
  define w1 where "w1 = upd w r (rd_progress_update (\<lambda>_. p))"
  have w1: "progress_only w w1" by (simp add: w1_def progress_only_upd)
  then have wf1: "wf_tree w1" using assms(1) by (rule same_tree_wf [OF progress_only_tree])
  obtain w2 where w2: "notify w1 r ProgressChanged None = Some w2"
    using notify_returns [OF wf1] by blast
  have po2: "progress_only w w2" using w1 progress_only_notify [OF wf1 w2] by (rule progress_only_trans)
  have d2: "data w2 = data w1" "next_report w2 = next_report w"
    using notify_data [OF wf1 w2] by (simp_all add: w1_def)
  have wf2: "wf_tree w2" using progress_only_tree [OF po2] assms(1) by (rule same_tree_wf)
  have prog2: "progress w2 x = (if x = r then p else progress w x)" for x
    using d2 by (simp add: progress_def w1_def data_upd)
  have "r < Suc (next_report w)" using assms(2) by simp
  from propagate_progress_spec [OF wf2 this] obtain w'
    where w': "propagate_progress (Suc (next_report w)) w2 r = Some w'" "progress_only w2 w'"
      and keep: "\<forall>x. r \<le> x \<longrightarrow> progress w' x = progress w2 x"
      and chain: "list_all (consistent w') (progress_chain (Suc (next_report w)) w2 r)" by blast
  have "set_progress w r p = Some w'"
    using False w2 w'(1) d2(2)
    by (simp add: set_progress_def try_propagate_progress_to_parent_def w1_def
        del: propagate_progress.simps)
  moreover have "progress_only w w'" using po2 w'(2) by (rule progress_only_trans)
  ultimately show ?thesis
    using keep prog2 chain progress_chain_cong [OF po2] by fastforce
qed

end
