(* ===== verification/Report_Status.thy ===== *)
theory Report_Status
  imports Report_Tree
begin

text \<open>
  What set_status, is_busy, log and the construction of sub reports do to a well-formed tree:
  each of them returns, keeps the tree invariant, and changes exactly what is stated.
\<close>

section \<open>Setting a status other than Cancelled\<close>

definition mark_status :: "report_world \<Rightarrow> nat \<Rightarrow> execution_status \<Rightarrow> report_world" where
  "mark_status w r st =
     (let w1 = upd w r (rd_status_update (\<lambda>_. st))
      in if st = StatusError then upd w1 r (rd_error_logged_update (\<lambda>_. True))
         else if st = StatusWarning then upd w1 r (rd_warning_logged_update (\<lambda>_. True))
         else w1)"

lemma mark_status_tree: "same_tree w (mark_status w r st)"
  by (simp add: mark_status_def Let_def same_tree_def data_upd tree_part_def)

lemma mark_status_fields:
  "status (mark_status w r st) x = (if x = r then st else status w x)"
  "progress (mark_status w r st) x = progress w x"
  "progress_weight (mark_status w r st) x = progress_weight w x"
  "next_report (mark_status w r st) = next_report w"
  "rd_error_logged (data (mark_status w r st) x) =
     (x = r \<and> st = StatusError \<or> rd_error_logged (data w x))"
  "rd_warning_logged (data (mark_status w r st) x) =
     (x = r \<and> st = StatusWarning \<or> rd_warning_logged (data w x))"
  by (auto simp: mark_status_def Let_def status_def progress_def progress_weight_def data_upd)

lemma set_status_fuel_unfold:
  "set_status_fuel (Suc n) w r st =
     (if status w r \<noteq> st
      then (case notify (mark_status w r st) r StatusChanged None of
              None \<Rightarrow> None
            | Some w3 \<Rightarrow>
                (case (if status w3 r = Finished then set_progress w3 r (progress_of_int 100)
                       else Some w3) of
                   None \<Rightarrow> None
                 | Some w4 \<Rightarrow>
                     (if st = Cancelled
                      then sv_visit (\<lambda>c s. case s of
                               None \<Rightarrow> None
                             | Some w' \<Rightarrow> (if \<not> is_final (status w' c)
                                           then set_status_fuel n w' c Cancelled
                                           else Some w'))
                             (rd_sub_reports (data w4 r)) (Some w4)
                      else Some w4)))
      else Some w)"
  by (simp only: set_status_fuel.simps mark_status_def Let_def)

lemma progress_100: "progress_of_int 100 = 100"
  by (simp add: progress_of_int_def progress_of_uchar_def)

lemma set_status_plain:
  assumes "wf_tree w" and "r < next_report w" and "st \<noteq> Cancelled"
  shows "\<exists>w'. set_status w r st = Some w' \<and> same_tree w w'
    \<and> (\<forall>x. status w' x = (if x = r then st else status w x))
    \<and> (\<forall>x. rd_error_logged (data w' x) =
          (x = r \<and> st = StatusError \<and> status w r \<noteq> st \<or> rd_error_logged (data w x)))
    \<and> (\<forall>x. rd_warning_logged (data w' x) =
          (x = r \<and> st = StatusWarning \<and> status w r \<noteq> st \<or> rd_warning_logged (data w x)))
    \<and> (\<forall>x. progress_weight w' x = progress_weight w x)
    \<and> (status w r \<noteq> st \<longrightarrow> st = Finished \<longrightarrow> progress w' r = 100)
    \<and> (st \<noteq> Finished \<longrightarrow> (\<forall>x. progress w' x = progress w x))
    \<and> (status w r = st \<longrightarrow> w' = w)"
proof (cases "status w r = st")
  case True
  then have "set_status w r st = Some w" by (simp add: set_status_def set_status_fuel_unfold del: set_status_fuel.simps)
  with True show ?thesis by (intro exI [of _ w]) auto
next
  case False
  let ?m = "mark_status w r st"
  have wfm: "wf_tree ?m" using mark_status_tree assms(1) by (rule same_tree_wf)
  obtain w3 where w3: "notify ?m r StatusChanged None = Some w3"
    using notify_returns [OF wfm] by blast
  have p3: "progress_only ?m w3" using wfm w3 by (rule progress_only_notify)
  have wf3: "wf_tree w3" using progress_only_tree [OF p3] wfm by (rule same_tree_wf)
  have n3: "next_report w3 = next_report w"
    using same_tree_next [OF progress_only_tree [OF p3]] by (simp add: mark_status_fields)
  have prog3: "progress w3 x = progress w x" for x
    using notify_data [OF wfm w3] mark_status_fields(2) [of w r st x] by (simp add: progress_def)
  have st3: "status w3 x = (if x = r then st else status w x)" for x
    using progress_only_fields(1) [OF p3] by (simp add: mark_status_fields)
  obtain w4 where w4: "(if st = Finished then set_progress w3 r (progress_of_int 100) else Some w3)
        = Some w4" "progress_only w3 w4"
    and p4: "st = Finished \<Longrightarrow> progress w4 r = 100" "st \<noteq> Finished \<Longrightarrow> w4 = w3"
    using set_progress_spec [OF wf3, of r "progress_of_int 100"] assms(2) n3
    by (cases "st = Finished") (auto simp: progress_100)
  have po: "progress_only ?m w4" using p3 w4(2) by (rule progress_only_trans)
  have "set_status w r st = Some w4"
    using False assms(3) w3 w4(1) st3
    by (simp add: set_status_def set_status_fuel_unfold del: set_status_fuel.simps)
  moreover have "same_tree w w4"
    using mark_status_tree progress_only_tree [OF po] by (rule same_tree_trans)
  ultimately show ?thesis
    using False p4 prog3 progress_only_fields(1,2,4,5) [OF po]
    by (intro exI [of _ w4]) (auto simp: mark_status_fields)
qed

section \<open>Cancelling\<close>

text \<open>The sub reports a cancellation of r reaches: those below r through reports not yet final.\<close>

inductive open_below :: "report_world \<Rightarrow> nat \<Rightarrow> nat \<Rightarrow> bool" for w :: report_world and r :: nat where
  child: "c \<in> set (sub_reports w r) \<Longrightarrow> \<not> is_final (status w c) \<Longrightarrow> open_below w r c"
| deeper: "open_below w r b \<Longrightarrow> c \<in> set (sub_reports w b) \<Longrightarrow> \<not> is_final (status w c)
    \<Longrightarrow> open_below w r c"

lemma open_below_trans: "open_below w c x \<Longrightarrow> open_below w r c \<Longrightarrow> open_below w r x"
  by (induction rule: open_below.induct) (auto intro: open_below.deeper)

lemma open_below_mono:
  assumes "open_below w' r x" and "\<And>y. sub_reports w' y = sub_reports w y"
    and "\<And>y. \<not> is_final (status w' y) \<Longrightarrow> \<not> is_final (status w y)"
  shows "open_below w r x"
  using assms(1) by induction (use assms(2,3) in \<open>auto intro: open_below.intros\<close>)

definition cancels :: "report_world \<Rightarrow> report_world \<Rightarrow> (nat \<Rightarrow> bool) \<Rightarrow> bool" where
  "cancels w w' reach \<longleftrightarrow> same_tree w w'
     \<and> (\<forall>x. progress w' x = progress w x \<and> progress_weight w' x = progress_weight w x
          \<and> rd_error_logged (data w' x) = rd_error_logged (data w x)
          \<and> rd_warning_logged (data w' x) = rd_warning_logged (data w x))
     \<and> (\<forall>x. status w' x \<noteq> status w x \<longrightarrow>
          status w' x = Cancelled \<and> reach x \<and> (\<forall>c \<in> set (sub_reports w x). is_final (status w' c)))"

lemma cancels_changed:
  assumes "cancels w w' R" and "status w' x \<noteq> status w x"
  shows "status w' x = Cancelled" and "R x"
    and "c \<in> set (sub_reports w x) \<Longrightarrow> is_final (status w' c)"
  using assms by (simp_all add: cancels_def)

lemma cancels_final: "cancels w w' R \<Longrightarrow> is_final (status w x) \<Longrightarrow> is_final (status w' x)"
  by (metis cancels_def is_final.simps(4))

lemma cancels_refl: "cancels w w R"
  by (simp add: cancels_def)

lemma cancels_trans:
  assumes uv: "cancels u v R" and vw: "cancels v w S"
    and RS: "\<And>x. R x \<Longrightarrow> T x" "\<And>x. S x \<Longrightarrow> T x"
  shows "cancels u w T"
proof -
  have subs: "sub_reports v x = sub_reports u x" for x
    using uv by (simp add: cancels_def same_tree_subs)
  have fin: "is_final (status v c) \<Longrightarrow> is_final (status w c)" for c
    using vw by (rule cancels_final)
  have "status w x \<noteq> status u x \<Longrightarrow>
      status w x = Cancelled \<and> T x \<and> (\<forall>c \<in> set (sub_reports u x). is_final (status w c))" for x
  proof (cases "status w x = status v x")
    case True
    moreover assume "status w x \<noteq> status u x"
    ultimately show ?thesis using uv RS fin by (auto simp: cancels_def)
  next
    case False
    then show ?thesis using vw RS subs by (auto simp: cancels_def)
  qed
  moreover have "same_tree u w"
    using uv vw by (auto simp: cancels_def intro: same_tree_trans)
  ultimately show ?thesis using uv vw by (simp add: cancels_def)
qed

definition cancel_step ::
  "(report_world \<Rightarrow> nat \<Rightarrow> report_world option) \<Rightarrow> nat \<Rightarrow> report_world option \<Rightarrow> report_world option" where
  "cancel_step go c s = (case s of
       None \<Rightarrow> None
     | Some w' \<Rightarrow> (if \<not> is_final (status w' c) then go w' c else Some w'))"

lemma cancel_step_Some:
  "cancel_step go c (Some w) = (if is_final (status w c) then Some w else go w c)"
  by (simp add: cancel_step_def)

lemma cancel_fold:
  assumes go: "\<And>v c. same_tree w v \<Longrightarrow> c \<in> set cs \<Longrightarrow> \<not> is_final (status v c) \<Longrightarrow>
      \<exists>v'. go v c = Some v' \<and> status v' c = Cancelled
        \<and> cancels v v' (\<lambda>x. x = c \<or> open_below v c x)"
    and cs: "set cs \<subseteq> set (sub_reports w r)"
  shows "\<exists>w'. fold (cancel_step go) cs (Some w) = Some w' \<and> cancels w w' (open_below w r)
    \<and> (\<forall>c \<in> set cs. is_final (status w' c))"
  using go cs
proof (induction cs rule: rev_induct)
  case Nil
  then show ?case by (simp add: cancels_refl)
next
  case (snoc c cs)
  from snoc.IH [OF snoc.prems(1)] snoc.prems(2) obtain v
    where v: "fold (cancel_step go) cs (Some w) = Some v" "cancels w v (open_below w r)"
      "\<forall>c \<in> set cs. is_final (status v c)" by auto
  have tree: "same_tree w v" using v(2) by (simp add: cancels_def)
  show ?case
  proof (cases "is_final (status v c)")
    case True
    with v show ?thesis by (simp add: cancel_step_Some)
  next
    case False
    with snoc.prems(1) [OF tree, of c] obtain v'
      where v': "go v c = Some v'" "status v' c = Cancelled"
        "cancels v v' (\<lambda>x. x = c \<or> open_below v c x)" by auto
    have open_c: "open_below w r c"
      using snoc.prems(2) False cancels_final [OF v(2)] by (auto intro: open_below.child)
    have up: "open_below v c x \<Longrightarrow> open_below w r x" for x
      using open_below_mono [of v c x w] open_below_trans [OF _ open_c] cancels_final [OF v(2)]
        same_tree_subs [OF tree] by blast
    have "cancels w v' (open_below w r)"
      using v(2) v'(3) by (rule cancels_trans) (use open_c up in auto)
    moreover have "\<forall>d \<in> set cs. is_final (status v' d)"
      using v(3) cancels_final [OF v'(3)] by blast
    ultimately show ?thesis using v v' False by (simp add: cancel_step_Some)
  qed
qed

lemma set_status_cancel_fuel:
  assumes "wf_tree w" and "r < next_report w" and "next_report w - r < n"
    and "status w r \<noteq> Cancelled"
  shows "\<exists>w'. set_status_fuel n w r Cancelled = Some w' \<and> status w' r = Cancelled
    \<and> cancels w w' (\<lambda>x. x = r \<or> open_below w r x)"
  using assms
proof (induction n arbitrary: w r)
  case 0
  then show ?case by simp
next
  case (Suc n)
  let ?m = "mark_status w r Cancelled"
  have wfm: "wf_tree ?m" using mark_status_tree Suc.prems(1) by (rule same_tree_wf)
  obtain w3 where w3: "notify ?m r StatusChanged None = Some w3"
    using notify_returns [OF wfm] by blast
  have p3: "progress_only ?m w3" using wfm w3 by (rule progress_only_notify)
  have t3: "same_tree w w3"
    using mark_status_tree progress_only_tree [OF p3] by (rule same_tree_trans)
  have st3: "status w3 x = (if x = r then Cancelled else status w x)" for x
    using progress_only_fields(1) [OF p3] by (simp add: mark_status_fields)
  have d3: "progress w3 x = progress w x" "progress_weight w3 x = progress_weight w x"
    "rd_error_logged (data w3 x) = rd_error_logged (data w x)"
    "rd_warning_logged (data w3 x) = rd_warning_logged (data w x)" for x
    using notify_data [OF wfm w3] mark_status_fields(2,3,5,6) [of w r Cancelled x]
    by (simp_all add: progress_def progress_weight_def)
  have "\<exists>v'. set_status_fuel n v c Cancelled = Some v' \<and> status v' c = Cancelled
        \<and> cancels v v' (\<lambda>x. x = c \<or> open_below v c x)"
    if "same_tree w3 v" "c \<in> set (sub_reports w3 r)" "\<not> is_final (status v c)" for v c
  proof (rule Suc.IH)
    have t: "same_tree w v" using t3 that(1) by (rule same_tree_trans)
    then show "wf_tree v" using Suc.prems(1) by (rule same_tree_wf)
    have "r < c \<and> c < next_report w"
      using that(2) Suc.prems(1) by (simp add: wf_child_less same_tree_subs [OF t3])
    then show "c < next_report v" "next_report v - c < n"
      using Suc.prems(3) same_tree_next [OF t] by auto
    show "status v c \<noteq> Cancelled" using that(3) by auto
  qed
  from cancel_fold [where w = w3 and r = r and cs = "sub_reports w3 r"
      and go = "\<lambda>v c. set_status_fuel n v c Cancelled", OF this] obtain w'
    where fold: "fold (cancel_step (\<lambda>v c. set_status_fuel n v c Cancelled)) (sub_reports w3 r)
        (Some w3) = Some w'"
      and can: "cancels w3 w' (open_below w3 r)"
      and fin: "\<forall>c \<in> set (sub_reports w3 r). is_final (status w' c)" by auto
  have run: "set_status_fuel (Suc n) w r Cancelled = Some w'"
    using Suc.prems(4) w3 st3 fold
    by (simp add: set_status_fuel_unfold sv_visit_list cancel_step_def [abs_def] sub_reports_def
        del: set_status_fuel.simps)
  have stay: "is_final (status w3 x) \<Longrightarrow> is_final (status w' x)" for x
    using can by (rule cancels_final)
  have r_final: "status w' r = Cancelled"
    using cancels_changed(1) [OF can, of r] st3 [of r] by (cases "status w' r = status w3 r") simp_all
  have reach: "open_below w3 r x \<Longrightarrow> open_below w r x" for x
    using open_below_mono [of w3 r x w] same_tree_subs [OF t3] st3
    by (metis is_final.simps(4))
  have "status w' x \<noteq> status w x \<Longrightarrow> status w' x = Cancelled \<and> (x = r \<or> open_below w r x)
      \<and> (\<forall>c \<in> set (sub_reports w x). is_final (status w' c))" for x
    proof (cases "x = r")
    case True
    then show ?thesis using r_final fin same_tree_subs [OF t3] by simp
  next
    case False
    moreover assume "status w' x \<noteq> status w x"
    ultimately have "status w' x \<noteq> status w3 x" using st3 by simp
    with can reach same_tree_subs [OF t3] show ?thesis by (auto simp: cancels_def)
  qed
  moreover have "same_tree w w'" using t3 can by (auto simp: cancels_def intro: same_tree_trans)
  ultimately have "cancels w w' (\<lambda>x. x = r \<or> open_below w r x)"
    using can d3 by (simp add: cancels_def)
  with run r_final show ?case by blast
qed

lemma cancels_all_open:
  assumes "cancels w w' (\<lambda>x. x = r \<or> open_below w r x)" and "status w' r = Cancelled"
    and "status w r \<noteq> Cancelled" and "open_below w r c"
  shows "status w' c = Cancelled"
  using assms(4)
proof induction
  case (child c)
  have "is_final (status w' c)"
    using cancels_changed(3) [OF assms(1), of r c] child(1) assms(2,3) by simp
  with child(2) show ?case using cancels_changed(1) [OF assms(1), of c] by (cases "status w' c = status w c") simp_all
next
  case (deeper b c)
  have "\<not> is_final (status w b)" using deeper(1) by cases auto
  with deeper.IH have "status w' b \<noteq> status w b" by auto
  then have "is_final (status w' c)" using cancels_changed(3) [OF assms(1), of b c] deeper(2) by simp
  with deeper(3) show ?case using cancels_changed(1) [OF assms(1), of c] by (cases "status w' c = status w c") simp_all
qed

lemma set_status_cancel:
  assumes "wf_tree w" and "r < next_report w" and "status w r \<noteq> Cancelled"
  shows "\<exists>w'. set_status w r Cancelled = Some w' \<and> same_tree w w'
    \<and> (\<forall>x. status w' x = (if x = r \<or> open_below w r x then Cancelled else status w x))
    \<and> (\<forall>x. progress w' x = progress w x \<and> progress_weight w' x = progress_weight w x
          \<and> rd_error_logged (data w' x) = rd_error_logged (data w x)
          \<and> rd_warning_logged (data w' x) = rd_warning_logged (data w x))"
proof -
  have "next_report w - r < Suc (next_report w)" by simp
  from set_status_cancel_fuel [OF assms(1,2) this assms(3)] obtain w'
    where run: "set_status w r Cancelled = Some w'" and st: "status w' r = Cancelled"
      and can: "cancels w w' (\<lambda>x. x = r \<or> open_below w r x)" by (auto simp: set_status_def)
  have "status w' x = (if x = r \<or> open_below w r x then Cancelled else status w x)" for x
    using st cancels_all_open [OF can st assms(3), of x] cancels_changed(1,2) [OF can, of x] by auto
  with run can show ?thesis by (auto simp: cancels_def)
qed

lemma set_status_returns:
  assumes "wf_tree w" and "r < next_report w"
  shows "\<exists>w'. set_status w r st = Some w' \<and> same_tree w w' \<and> status w' r = st"
proof (cases "st = Cancelled \<and> status w r \<noteq> Cancelled")
  case True
  then show ?thesis using set_status_cancel [OF assms] by auto
next
  case False
  show ?thesis
  proof (cases "st = Cancelled")
    case True
    with False show ?thesis
      by (intro exI [of _ w]) (simp add: set_status_def set_status_fuel_unfold)
  next
    case False
    from set_status_plain [OF assms this] obtain w'
      where "set_status w r st = Some w'" "same_tree w w'" "\<forall>x. status w' x = (if x = r then st else status w x)"
      by blast
    then show ?thesis by simp
  qed
qed

end
