(* ===== verification/Report_Api.thy ===== *)
theory Report_Api
  imports Report_Status
begin

text \<open>
  The writer's interface of ExecutionReport: busyness, logging and the construction of sub
  reports on a well-formed tree, the calls a writer can make as a step relation, and the
  invariants of the arenas it reaches.
\<close>

section \<open>Busyness\<close>

inductive below :: "report_world \<Rightarrow> nat \<Rightarrow> nat \<Rightarrow> bool" for w :: report_world where
  here: "below w r r"
| deeper: "c \<in> set (sub_reports w r) \<Longrightarrow> below w c x \<Longrightarrow> below w r x"

inductive_simps below_unfold: "below w r x"

lemma busy_loop_spec:
  assumes "sv_inv block_size v" and "i + k = sv_size v"
    and "\<forall>c \<in> set (sv_list v). busy c = Some (B c)"
  shows "busy_loop busy v i k = Some (\<exists>c \<in> set (drop i (sv_list v)). B c)"
  using assms(2)
proof (induction k arbitrary: i)
  case 0
  then show ?case by (simp add: blocks.count_elems [OF assms(1)])
next
  case (Suc k)
  then have i: "i < sv_size v" by simp
  have at: "sv_at block_size v i = Inr (sv_list v ! i)"
    using assms(1) i by (rule blocks.at_elems)
  have len: "i < length (sv_list v)" using i blocks.count_elems [OF assms(1)] by simp
  then have b: "busy (sv_list v ! i) = Some (B (sv_list v ! i))" using assms(3) by simp
  have d: "drop i (sv_list v) = sv_list v ! i # drop (Suc i) (sv_list v)"
    using len by (rule Cons_nth_drop_Suc [symmetric])
  have "busy_loop busy v (Suc i) k = Some (\<exists>c \<in> set (drop (Suc i) (sv_list v)). B c)"
    using Suc by simp
  then show ?case by (cases "B (sv_list v ! i)") (simp_all add: at b d)
qed

lemma is_busy_fuel_spec:
  assumes "wf_tree w" and "r < next_report w" and "next_report w - r < n"
  shows "is_busy_fuel n w r = Some (\<exists>x. below w r x \<and> \<not> is_final (status w x))"
  using assms(2,3)
proof (induction n arbitrary: r)
  case 0
  then show ?case by simp
next
  case (Suc n)
  have vec: "sv_inv block_size (rd_sub_reports (data w r))"
    using wf_vectors [OF assms(1)] by (simp add: vectors_ok_def)
  have "\<forall>c \<in> set (sv_list (rd_sub_reports (data w r))).
      is_busy_fuel n w c = Some (\<exists>x. below w c x \<and> \<not> is_final (status w x))"
  proof
    fix c assume "c \<in> set (sv_list (rd_sub_reports (data w r)))"
    then have "r < c \<and> c < next_report w"
      using assms(1) by (intro wf_child_less) (simp_all add: sub_reports_def)
    then show "is_busy_fuel n w c = Some (\<exists>x. below w c x \<and> \<not> is_final (status w x))"
      using Suc.prems by (intro Suc.IH) auto
  qed
  from busy_loop_spec [OF vec _ this, of 0 "sub_report_count w r"]
  show ?case
    by (auto simp: sub_report_count_def below_unfold [of w r] sub_reports_def)
qed

lemma is_busy_spec:
  "wf_tree w \<Longrightarrow> r < next_report w \<Longrightarrow>
    is_busy w r = Some (\<exists>x. below w r x \<and> \<not> is_final (status w x))"
  by (simp add: is_busy_def is_busy_fuel_spec del: is_busy_fuel.simps)

section \<open>The items of a report\<close>

definition item_targets :: "report_item list \<Rightarrow> nat list" where
  "item_targets its = concat (map (\<lambda>it. case it of ReportItem _ c \<Rightarrow> [c] | _ \<Rightarrow> []) its)"

definition item_messages :: "report_item list \<Rightarrow> (nat \<times> nat) list" where
  "item_messages its = concat (map (\<lambda>it. case it of MessageItem r i \<Rightarrow> [(r, i)] | _ \<Rightarrow> []) its)"

definition subitems :: "report_world \<Rightarrow> nat \<Rightarrow> report_item list" where
  "subitems w r = sv_list (rd_subitems (data w r))"

text \<open>
  Reading the sub items in order gives the sub reports in the order they were added and the
  messages in the order they were logged, and every item names r as its parent.
\<close>

definition items_ok :: "report_world \<Rightarrow> bool" where
  "items_ok w \<longleftrightarrow> (\<forall>r. item_targets (subitems w r) = sub_reports w r
     \<and> item_messages (subitems w r) = map (Pair r) [0..<log_message_count w r]
     \<and> (\<forall>it \<in> set (subitems w r). item_valid it \<and> item_parent it = Some r))"

lemma items_ok_tree: "same_tree w w' \<Longrightarrow> items_ok w \<Longrightarrow> items_ok w'"
  by (simp add: items_ok_def subitems_def same_tree_vectors same_tree_subs log_message_count_def)

definition progress_bounded :: "report_world \<Rightarrow> bool" where
  "progress_bounded w \<longleftrightarrow> (\<forall>r. progress w r \<le> 100)"

text \<open>Reports not yet created are unused records.\<close>

definition unused_fresh :: "report_world \<Rightarrow> bool" where
  "unused_fresh w \<longleftrightarrow> (\<forall>r. next_report w \<le> r \<longrightarrow> tree_part (data w r) = tree_part fresh_data)"

lemma unused_tree: "same_tree w w' \<Longrightarrow> unused_fresh w \<Longrightarrow> unused_fresh w'"
  by (simp add: unused_fresh_def same_tree_def)

definition report_inv :: "report_world \<Rightarrow> bool" where
  "report_inv w \<longleftrightarrow> wf_tree w \<and> items_ok w \<and> unused_fresh w \<and> progress_bounded w"

lemma report_inv_tree:
  "same_tree w w' \<Longrightarrow> progress_bounded w' \<Longrightarrow> report_inv w \<Longrightarrow> report_inv w'"
  by (auto simp: report_inv_def intro: same_tree_wf items_ok_tree unused_tree)

section \<open>Progress stays within 100\<close>

lemma notify_parents_data:
  "notify_parents n w p s e = Some w' \<Longrightarrow> data w' = data w"
  by (induction n arbitrary: w p) (auto split: option.splits)

lemma notify_keeps_data: "notify w r ty i = Some w' \<Longrightarrow> data w' = data w"
  by (auto simp: notify_def Let_def dest: notify_parents_data)

lemma progress_bounded_cong: "data w' = data w \<Longrightarrow> progress_bounded w' = progress_bounded w"
  by (simp add: progress_bounded_def progress_def)

lemma progress_bounded_upd:
  "progress_bounded w \<Longrightarrow> (\<And>d. rd_progress d \<le> 100 \<Longrightarrow> rd_progress (f d) \<le> 100) \<Longrightarrow>
    progress_bounded (upd w r f)"
  by (simp add: progress_bounded_def progress_def data_upd)

lemma progress_from_sub_reports_le: "progress_from_sub_reports w r = Some m \<Longrightarrow> m \<le> 100"
  by (auto simp: progress_from_sub_reports_mean progress_of_mean_le split: if_splits)

lemma progress_notify_bounded:
  assumes "notify (upd w r (rd_progress_update (\<lambda>_. p))) r ty i = Some v"
    and "progress_bounded w" and "p \<le> 100"
  shows "progress_bounded v"
proof -
  have "progress_bounded (upd w r (rd_progress_update (\<lambda>_. p)))"
    using assms(2,3) by (intro progress_bounded_upd) simp_all
  then show ?thesis using progress_bounded_cong [OF notify_keeps_data [OF assms(1)]] by blast
qed

lemma try_set_progress_bounded:
  assumes go: "\<And>v v'. progress_bounded v \<Longrightarrow> go v r = Some v' \<Longrightarrow> progress_bounded v'"
    and "try_set_progress go w r old new = Some (b, w')" and "progress_bounded w" and "new \<le> 100"
  shows "progress_bounded w'"
proof (cases "progress w r = old")
  case True
  with assms(2) obtain v where
    v: "notify (upd w r (rd_progress_update (\<lambda>_. new))) r ProgressChanged None = Some v"
    and g: "go v r = Some w'"
    by (auto simp: try_set_progress_def try_update_def split: option.splits)
  have "progress_bounded v" using v assms(3,4) by (rule progress_notify_bounded)
  then show ?thesis using g by (rule go)
next
  case False
  with assms(2,3) show ?thesis by (simp add: try_set_progress_def try_update_def)
qed

lemma propagate_progress_bounded:
  "propagate_progress n w r = Some w' \<Longrightarrow> progress_bounded w \<Longrightarrow> progress_bounded w'"
proof (induction n arbitrary: w r w')
  case 0
  then show ?case by simp
next
  case (Suc n)
  show ?case
  proof (cases "progress_weight w r \<noteq> 0 \<and> rd_parent (data w r) \<noteq> None")
    case False
    with Suc.prems show ?thesis by (auto split: if_splits option.splits)
  next
    case True
    then obtain p where p: "rd_parent (data w r) = Some p" by auto
    show ?thesis
    proof (cases "progress_from_sub_reports w p")
      case None
      with True p Suc.prems show ?thesis by (simp add: update_progress_from_sub_reports_def)
    next
      case (Some m)
      with True p Suc.prems(1) obtain b
        where t: "try_set_progress (propagate_progress n) w p (progress w p) m = Some (b, w')"
        by (auto simp: update_progress_from_sub_reports_def)
      show ?thesis
        by (rule try_set_progress_bounded [OF _ t Suc.prems(2)])
          (use Suc.IH progress_from_sub_reports_le [OF Some] in blast)+
    qed
  qed
qed

lemma set_progress_bounded:
  assumes "set_progress w r p = Some w'" and "progress_bounded w" and "p \<le> 100"
  shows "progress_bounded w'"
proof (cases "progress w r = p")
  case True
  with assms show ?thesis by (simp add: set_progress_def)
next
  case False
  with assms(1) obtain v where
    v: "notify (upd w r (rd_progress_update (\<lambda>_. p))) r ProgressChanged None = Some v"
    and p: "try_propagate_progress_to_parent v r = Some w'"
    by (auto simp: set_progress_def split: option.splits)
  have "progress_bounded v" using v assms(2,3) by (rule progress_notify_bounded)
  with p show ?thesis
    unfolding try_propagate_progress_to_parent_def by (rule propagate_progress_bounded)
qed

lemma fold_option_keeps:
  assumes "\<And>c v v'. P v \<Longrightarrow> f c v = Some v' \<Longrightarrow> P v'"
  shows "fold (\<lambda>c s. case s of None \<Rightarrow> None | Some v \<Rightarrow> f c v) cs (Some w) = Some w' \<Longrightarrow> P w \<Longrightarrow> P w'"
proof (induction cs arbitrary: w)
  case Nil
  then show ?case by simp
next
  case (Cons c cs)
  have "fold (\<lambda>c s. case s of None \<Rightarrow> None | Some v \<Rightarrow> f c v) cs None = None"
    by (induction cs) simp_all
  with Cons show ?case by (cases "f c w") (auto intro: assms)
qed

lemma mark_status_bounded: "progress_bounded w \<Longrightarrow> progress_bounded (mark_status w r st)"
  by (simp add: progress_bounded_def mark_status_fields)

lemma set_status_fuel_bounded:
  "set_status_fuel n w r st = Some w' \<Longrightarrow> progress_bounded w \<Longrightarrow> progress_bounded w'"
proof (induction n arbitrary: w r st w')
  case 0
  then show ?case by simp
next
  case (Suc n)
  show ?case
  proof (cases "status w r = st")
    case True
    with Suc.prems show ?thesis by simp
  next
    case False
    from Suc.prems(1) False obtain w3 w4
      where w3: "notify (mark_status w r st) r StatusChanged None = Some w3"
        and w4: "(if status w3 r = Finished then set_progress w3 r (progress_of_int 100)
            else Some w3) = Some w4"
        and w': "(if st = Cancelled
            then sv_visit (\<lambda>c s. case s of None \<Rightarrow> None
                  | Some w' \<Rightarrow> (if \<not> is_final (status w' c)
                      then set_status_fuel n w' c Cancelled else Some w'))
                (rd_sub_reports (data w4 r)) (Some w4) else Some w4) = Some w'"
      unfolding set_status_fuel_unfold by (auto split: option.splits)
    have "progress_bounded w3"
      using progress_bounded_cong [OF notify_keeps_data [OF w3]] mark_status_bounded [OF Suc.prems(2)]
      by blast
    then have b4: "progress_bounded w4"
      using w4 set_progress_bounded [of w3 r _ w4] progress_of_int_le [of 100] by (auto split: if_splits)
    show ?thesis
    proof (cases "st = Cancelled")
      case False
      with w' b4 show ?thesis by simp
    next
      case True
      let ?f = "\<lambda>c v. if \<not> is_final (status v c) then set_status_fuel n v c Cancelled else Some v"
      have "fold (\<lambda>c s. case s of None \<Rightarrow> None | Some v \<Rightarrow> ?f c v)
          (sv_list (rd_sub_reports (data w4 r))) (Some w4) = Some w'"
        using w' True by (simp add: sv_visit_list)
      then show ?thesis
        by (rule fold_option_keeps [where P = progress_bounded and f = ?f, rotated])
          (use b4 Suc.IH in \<open>auto split: if_splits\<close>)
    qed
  qed
qed

section \<open>Construction and logging\<close>

lemma apply_arg_tree: "same_tree w (apply_arg w r a)"
  by (cases a) (simp_all add: same_tree_plain)

lemma apply_args_tree: "same_tree w (foldl (\<lambda>v a. apply_arg v r a) w args)"
proof (induction args arbitrary: w)
  case Nil
  then show ?case by simp
next
  case (Cons a args)
  then show ?case using same_tree_trans [OF apply_arg_tree [of w r a]] by simp
qed

lemma progress_bounded_apply_arg: "progress_bounded w \<Longrightarrow> progress_bounded (apply_arg w r a)"
  by (cases a) (simp_all add: plain_update_defs add_observer_def Let_def progress_bounded_upd)

lemma progress_bounded_apply_args:
  "progress_bounded w \<Longrightarrow> progress_bounded (foldl (\<lambda>v a. apply_arg v r a) w args)"
  by (induction args arbitrary: w) (simp_all add: progress_bounded_apply_arg)

text \<open>The arena with one more, unattached, record.\<close>

definition grown :: "report_world \<Rightarrow> report_world" where
  "grown w = w\<lparr>data := (data w)(next_report w := fresh_data\<lparr>rd_name := ''Root''\<rparr>),
               next_report := Suc (next_report w)\<rparr>"

lemma grown_tree: "unused_fresh w \<Longrightarrow> tree_part (data (grown w) x) = tree_part (data w x)"
  by (simp add: grown_def unused_fresh_def tree_part_def fresh_data_def)

lemma tree_part_fields:
  "tree_part d = tree_part d' \<longleftrightarrow> rd_parent d = rd_parent d' \<and> rd_subitems d = rd_subitems d'
     \<and> rd_messages d = rd_messages d' \<and> rd_sub_reports d = rd_sub_reports d'"
  by (simp add: tree_part_def)

lemma report_inv_grown:
  assumes "report_inv w"
  shows "report_inv (grown w)"
proof -
  have u: "unused_fresh w" using assms by (simp add: report_inv_def)
  note t = grown_tree [OF u, unfolded tree_part_fields]
  have n: "next_report (grown w) = Suc (next_report w)" by (simp add: grown_def)
  have s: "sub_reports (grown w) x = sub_reports w x" "subitems (grown w) x = subitems w x"
    "log_message_count (grown w) x = log_message_count w x" for x
    by (simp_all add: sub_reports_def subitems_def log_message_count_def t)
  have "wf_tree (grown w)"
    using assms by (auto simp: report_inv_def wf_tree_def t s n vectors_ok_def less_Suc_eq)
  moreover have "items_ok (grown w)" using assms by (simp add: report_inv_def items_ok_def s)
  moreover have "unused_fresh (grown w)"
    using u grown_tree [OF u] by (simp add: unused_fresh_def n)
  moreover have "progress_bounded (grown w)"
    using assms by (simp add: report_inv_def progress_bounded_def progress_def grown_def fresh_data_def)
  ultimately show ?thesis by (simp add: report_inv_def)
qed

lemma new_report_spec:
  assumes "report_inv w"
  shows "fst (new_report w args) = next_report w" and "report_inv (snd (new_report w args))"
    and "same_tree (grown w) (snd (new_report w args))"
proof -
  let ?w' = "foldl (\<lambda>v a. apply_arg v (next_report w) a) (grown w) args"
  have new: "new_report w args = (next_report w, ?w')"
    by (simp add: new_report_def Let_def grown_def)
  then show "fst (new_report w args) = next_report w" by simp
  show t: "same_tree (grown w) (snd (new_report w args))" by (simp add: new apply_args_tree)
  have "progress_bounded ?w'"
    using report_inv_grown [OF assms] by (intro progress_bounded_apply_args) (simp add: report_inv_def)
  then show "report_inv (snd (new_report w args))"
    using report_inv_tree [OF t _ report_inv_grown [OF assms]] by (simp add: new)
qed

definition attach :: "report_world \<Rightarrow> nat \<Rightarrow> nat \<Rightarrow> report_world" where
  "attach w r c =
     upd (upd (upd w c (rd_parent_update (\<lambda>_. Some r)))
            r (\<lambda>d. d\<lparr>rd_sub_reports := sv_append block_size (rd_sub_reports d) c\<rparr>))
       r (\<lambda>d. d\<lparr>rd_subitems := sv_append block_size (rd_subitems d) (ReportItem (Some r) c)\<rparr>)"

lemma vectors_inv:
  assumes "wf_tree w"
  shows "sv_inv block_size (rd_subitems (data w r))" "sv_inv block_size (rd_messages (data w r))"
    "sv_inv block_size (rd_sub_reports (data w r))"
  using wf_vectors [OF assms, of r] by (simp_all add: vectors_ok_def)

lemma attach_fields:
  assumes "wf_tree w" and "c \<noteq> r"
  shows "next_report (attach w r c) = next_report w"
    and "rd_parent (data (attach w r c) x) = (if x = c then Some r else rd_parent (data w x))"
    and "sub_reports (attach w r c) x = (if x = r then sub_reports w r @ [c] else sub_reports w x)"
    and "subitems (attach w r c) x =
          (if x = r then subitems w r @ [ReportItem (Some r) c] else subitems w x)"
    and "rd_messages (data (attach w r c) x) = rd_messages (data w x)"
    and "progress (attach w r c) x = progress w x"
    and "status (attach w r c) x = status w x"
    and "rd_observers (data (attach w r c) x) = rd_observers (data w x)"
  using assms(2) vectors_inv [OF assms(1)]
  by (simp_all add: attach_def data_upd sub_reports_def subitems_def progress_def status_def
      blocks.elems_append)

lemma attach_vectors: "wf_tree w \<Longrightarrow> c \<noteq> r \<Longrightarrow> vectors_ok (data (attach w r c) x)"
  using vectors_inv [of w]
  by (simp add: attach_def data_upd vectors_ok_def blocks.invar_append)

lemma item_targets_append [simp]: "item_targets (xs @ ys) = item_targets xs @ item_targets ys"
  by (simp add: item_targets_def)

lemma item_messages_append [simp]: "item_messages (xs @ ys) = item_messages xs @ item_messages ys"
  by (simp add: item_messages_def)

lemma report_inv_attach:
  assumes inv: "report_inv w" and rc: "r < c" "c < next_report w" and root: "rd_parent (data w c) = None"
  shows "report_inv (attach w r c)"
proof -
  have wf: "wf_tree w" and ne: "c \<noteq> r" using assms by (auto simp: report_inv_def)
  note f = attach_fields [OF wf ne]
  have child: "x \<in> set (sub_reports w p) \<longleftrightarrow> rd_parent (data w x) = Some p" for x p
    using wf by (rule wf_child)
  have par: "rd_parent (data w x) = Some p \<Longrightarrow> p < x \<and> x < next_report w" for x p
    using wf by (rule wf_parent_less)
  have "x \<in> set (sub_reports (attach w r c) p) \<longleftrightarrow> rd_parent (data (attach w r c) x) = Some p" for x p
    using root child by (cases "p = r"; cases "x = c") (simp_all add: f)
  moreover have "rd_parent (data (attach w r c) x) = Some p \<Longrightarrow> p < x \<and> x < next_report w" for x p
    using rc par by (cases "x = c") (simp_all add: f)
  ultimately have "wf_tree (attach w r c)"
    using attach_vectors [OF wf ne] unfolding wf_tree_def f(1) by blast
  moreover have "items_ok (attach w r c)"
    using inv by (auto simp: report_inv_def items_ok_def f log_message_count_def item_targets_def
        item_messages_def item_valid_def item_parent_def)
  moreover have "unused_fresh (attach w r c)"
    using inv rc ne
    by (auto simp: report_inv_def unused_fresh_def f(1) attach_def data_upd)
  moreover have "progress_bounded (attach w r c)"
    using inv by (simp add: report_inv_def progress_bounded_def f)
  ultimately show ?thesis by (simp add: report_inv_def)
qed

lemma report_inv_notify:
  assumes "report_inv w"
  shows "\<exists>ns. notify w r ty i = Some (w\<lparr>notified := notified w @ ns\<rparr>)
    \<and> report_inv (w\<lparr>notified := notified w @ ns\<rparr>)"
proof -
  have "wf_tree w" using assms by (simp add: report_inv_def)
  from notify_returns [OF this] obtain ns
    where n: "notify w r ty i = Some (w\<lparr>notified := notified w @ ns\<rparr>)" by blast
  have "report_inv (w\<lparr>notified := notified w @ ns\<rparr>)"
    by (rule report_inv_tree [OF _ _ assms])
      (use assms in \<open>simp_all add: same_tree_def report_inv_def progress_bounded_def progress_def\<close>)
  with n show ?thesis by blast
qed

lemma add_sub_report_attach:
  assumes "r \<noteq> c"
  shows "add_sub_report w r c = notify (attach w r c) r SubReportAdded
      (Some (sv_size (rd_subitems (data (attach w r c) r)) - 1))"
  using assms
  by (simp add: add_sub_report_def attach_def Let_def item_of_report_def data_upd)

lemma add_sub_report_spec:
  assumes "report_inv w" and "r < c" and "c < next_report w" and "rd_parent (data w c) = None"
  shows "\<exists>ns. add_sub_report w r c = Some ((attach w r c)\<lparr>notified := notified w @ ns\<rparr>)
    \<and> report_inv ((attach w r c)\<lparr>notified := notified w @ ns\<rparr>)"
proof -
  have "notified (attach w r c) = notified w" by (simp add: attach_def)
  then show ?thesis
    using report_inv_notify [OF report_inv_attach [OF assms]] assms(2)
    by (auto simp: add_sub_report_attach)
qed

lemma create_sub_report_spec:
  assumes "report_inv w" and "r < next_report w"
  shows "\<exists>ns. create_sub_report w r args = Some (next_report w,
      (attach (snd (new_report w args)) r (next_report w))\<lparr>notified :=
        notified (snd (new_report w args)) @ ns\<rparr>)
    \<and> report_inv ((attach (snd (new_report w args)) r (next_report w))\<lparr>notified :=
        notified (snd (new_report w args)) @ ns\<rparr>)"
proof -
  note n = new_report_spec [OF assms(1), of args]
  have next': "next_report (snd (new_report w args)) = Suc (next_report w)"
    using same_tree_next [OF n(3)] by (simp add: grown_def)
  have par: "rd_parent (data (snd (new_report w args)) (next_report w)) = None"
    using same_tree_parent [OF n(3)] by (simp add: grown_def fresh_data_def)
  from add_sub_report_spec [OF n(2) assms(2) _ par] next' n(1) show ?thesis
    by (auto simp: create_sub_report_def split_beta)
qed

text \<open>The record after the message is stored, before the observers are told.\<close>

definition logged :: "report_world \<Rightarrow> nat \<Rightarrow> log_message \<Rightarrow> report_world" where
  "logged w r msg =
     upd (upd (case msg_category msg of
                 LogWarning \<Rightarrow> upd w r (rd_warning_logged_update (\<lambda>_. True))
               | LogError \<Rightarrow> upd w r (rd_error_logged_update (\<lambda>_. True))
               | _ \<Rightarrow> w)
            r (\<lambda>d. d\<lparr>rd_messages := sv_append block_size (rd_messages d) msg\<rparr>))
       r (\<lambda>d. d\<lparr>rd_subitems := sv_append block_size (rd_subitems d)
                  (MessageItem r (log_message_count w r))\<rparr>)"

lemma logged_fields:
  "next_report (logged w r m) = next_report w"
  "rd_parent (data (logged w r m) x) = rd_parent (data w x)"
  "rd_sub_reports (data (logged w r m) x) = rd_sub_reports (data w x)"
  "progress (logged w r m) x = progress w x"
  "status (logged w r m) x = status w x"
  "rd_messages (data (logged w r m) x) =
     (if x = r then sv_append block_size (rd_messages (data w r)) m else rd_messages (data w x))"
  "rd_subitems (data (logged w r m) x) =
     (if x = r then sv_append block_size (rd_subitems (data w r)) (MessageItem r (log_message_count w r))
      else rd_subitems (data w x))"
  "rd_error_logged (data (logged w r m) x) =
     (x = r \<and> msg_category m = LogError \<or> rd_error_logged (data w x))"
  "rd_warning_logged (data (logged w r m) x) =
     (x = r \<and> msg_category m = LogWarning \<or> rd_warning_logged (data w x))"
  "notified (logged w r m) = notified w"
  by (auto simp: logged_def data_upd progress_def status_def log_message_count_def
      split: log_category.split)

lemma logged_counts:
  assumes "wf_tree w"
  shows "log_message_count (logged w r m) x =
      (if x = r then Suc (log_message_count w r) else log_message_count w x)"
    and "subitems (logged w r m) x =
      (if x = r then subitems w r @ [MessageItem r (log_message_count w r)] else subitems w x)"
  using vectors_inv [OF assms]
  by (simp_all add: log_message_count_def subitems_def logged_fields blocks.count_append
      blocks.elems_append)

lemma report_inv_logged:
  assumes "report_inv w" and "r < next_report w"
  shows "report_inv (logged w r m)"
proof -
  have wf: "wf_tree w" using assms by (simp add: report_inv_def)
  have s: "sub_reports (logged w r m) x = sub_reports w x" for x
    by (simp add: sub_reports_def logged_fields)
  have "vectors_ok (data (logged w r m) x)" for x
    using vectors_inv [OF wf] by (simp add: vectors_ok_def logged_fields blocks.invar_append)
  then have "wf_tree (logged w r m)" using wf by (auto simp: wf_tree_def s logged_fields)
  moreover have "items_ok (logged w r m)"
    using assms(1) by (auto simp: report_inv_def items_ok_def s logged_counts [OF wf] item_targets_def
        item_messages_def item_valid_def item_parent_def)
  moreover have "unused_fresh (logged w r m)"
    using assms by (auto simp: report_inv_def unused_fresh_def logged_fields tree_part_fields)
  moreover have "progress_bounded (logged w r m)"
    using assms by (simp add: report_inv_def progress_bounded_def logged_fields)
  ultimately show ?thesis by (simp add: report_inv_def)
qed

lemma log_entry_logged:
  assumes "wf_tree w"
  shows "log_entry w r m = notify (logged w r m) r MessageAdded (Some (subitem_count w r))"
proof -
  have "sv_size (rd_messages (data w r)) = log_message_count w r" by (simp add: log_message_count_def)
  then show ?thesis
    using vectors_inv [OF assms]
    by (cases "msg_category m")
      (simp_all add: log_entry_def logged_def Let_def data_upd blocks.count_append subitem_count_def)
qed

lemma log_entry_spec:
  assumes "report_inv w" and "r < next_report w"
  shows "\<exists>ns. log_entry w r m = Some ((logged w r m)\<lparr>notified := notified w @ ns\<rparr>)
    \<and> report_inv ((logged w r m)\<lparr>notified := notified w @ ns\<rparr>)"
  using report_inv_notify [OF report_inv_logged [OF assms]] assms(1)
  by (auto simp: log_entry_logged report_inv_def logged_fields)

section \<open>The calls of a writer\<close>

inductive api_step :: "report_world \<Rightarrow> report_world \<Rightarrow> bool" where
  new_root: "new_report w args = (r, w') \<Longrightarrow> api_step w w'"
| new_sub: "r < next_report w \<Longrightarrow> create_sub_report w r args = Some (c, w') \<Longrightarrow> api_step w w'"
| adopt: "r < c \<Longrightarrow> c < next_report w \<Longrightarrow> is_root w c \<Longrightarrow> add_sub_report w r c = Some w'
    \<Longrightarrow> api_step w w'"
| message: "r < next_report w \<Longrightarrow> log_entry w r m = Some w' \<Longrightarrow> api_step w w'"
| status_set: "r < next_report w \<Longrightarrow> set_status w r st = Some w' \<Longrightarrow> api_step w w'"
| progress_set: "r < next_report w \<Longrightarrow> set_progress w r (progress_of_int v) = Some w' \<Longrightarrow> api_step w w'"
| progress_of: "r < next_report w \<Longrightarrow> set_progress_of w r a b = Some w' \<Longrightarrow> api_step w w'"
| argument: "r < next_report w \<Longrightarrow> api_step w (apply_arg w r a)"
| observer_gone: "r < next_report w \<Longrightarrow> api_step w (remove_observer w r i)"
| started: "r < next_report w \<Longrightarrow> api_step w (set_start_time w r t)"
| ended: "r < next_report w \<Longrightarrow> api_step w (set_end_time w r t)"
| id_set: "r < next_report w \<Longrightarrow> api_step w (set_id w r k)"

lemma plain_bounded:
  assumes "progress_bounded w"
  shows "progress_bounded (remove_observer w r i)" "progress_bounded (set_start_time w r t)"
    "progress_bounded (set_end_time w r t)" "progress_bounded (set_id w r k)"
  using assms by (simp_all add: plain_update_defs progress_bounded_upd)

lemma report_inv_plain:
  "same_tree w w' \<Longrightarrow> (progress_bounded w \<Longrightarrow> progress_bounded w') \<Longrightarrow> report_inv w \<Longrightarrow> report_inv w'"
  by (rule report_inv_tree) (simp_all add: report_inv_def)

lemma report_inv_set_progress:
  assumes "report_inv w" and "r < next_report w" and "set_progress w r p = Some w'" and "p \<le> 100"
  shows "report_inv w'"
proof (rule report_inv_plain [OF _ _ assms(1)])
  show "same_tree w w'"
    using set_progress_spec [of w r p] assms by (auto simp: report_inv_def intro: progress_only_tree)
  show "progress_bounded w \<Longrightarrow> progress_bounded w'" using assms by (blast intro: set_progress_bounded)
qed

lemma report_inv_set_status:
  assumes "report_inv w" and "r < next_report w" and "set_status w r st = Some w'"
  shows "report_inv w'"
proof (rule report_inv_plain [OF _ _ assms(1)])
  show "same_tree w w'" using set_status_returns [of w r st] assms by (auto simp: report_inv_def)
  show "progress_bounded w \<Longrightarrow> progress_bounded w'"
    using assms(3) unfolding set_status_def by (rule set_status_fuel_bounded)
qed

lemma report_inv_step: "api_step w w' \<Longrightarrow> report_inv w \<Longrightarrow> report_inv w'"
proof (induction rule: api_step.induct)
  case (new_root w args r w')
  then show ?case using new_report_spec(2) [of w args] by simp
next
  case (new_sub r w args c w')
  then show ?case using create_sub_report_spec [of w r args] by auto
next
  case (adopt r c w w')
  then show ?case using add_sub_report_spec [of w r c] by (auto simp: is_root_def)
next
  case (message r w m w')
  then show ?case using log_entry_spec [of w r m] by auto
next
  case (progress_of r w a b w')
  then show ?case
    by (auto simp: set_progress_of_def split: if_splits intro: report_inv_set_progress progress_of_int_le)
qed (auto intro: report_inv_set_status report_inv_set_progress progress_of_int_le
      report_inv_plain same_tree_plain apply_arg_tree progress_bounded_apply_arg plain_bounded)

definition empty_arena :: "report_world \<Rightarrow> bool" where
  "empty_arena w \<longleftrightarrow> w = empty_world"

lemma report_inv_empty: "report_inv empty_world"
proof -
  have f: "rd_parent fresh_data = None" "rd_subitems fresh_data = sv_empty"
    "rd_messages fresh_data = sv_empty" "rd_sub_reports fresh_data = sv_empty" "rd_progress fresh_data = 0"
    by (simp_all add: fresh_data_def)
  show ?thesis
    by (simp add: report_inv_def wf_tree_def items_ok_def unused_fresh_def progress_bounded_def
        empty_world_def sub_reports_def subitems_def vectors_ok_def log_message_count_def progress_def f
        sv_list_empty sv_inv_empty item_targets_def item_messages_def sv_size_def)
      (simp add: sv_empty_def)
qed

interpretation report_system: invariant_system empty_arena api_step report_inv
  by unfold_locales (auto simp: empty_arena_def report_inv_empty intro: report_inv_step)

end
