(* ===== verification/Status_Guard.thy ===== *)
theory Status_Guard
  imports Report_Api
begin

text \<open>
  core/headers/ez/reporting/ExecutionStatusGuard.hpp and core/src/reporting/ExecutionStatusGuard.cpp:
  the RAII guard that starts a report and settles its status when it is destroyed. The clock value
  and std::uncaught_exceptions() at the time of the call are arguments.
\<close>

section \<open>The guard\<close>

type_synonym finish_state = "report_world \<times> bool \<times> bool"

definition guard_init :: "report_world \<Rightarrow> nat \<Rightarrow> int \<Rightarrow> report_world option" where
  "guard_init w r now =
     (if status w r = Pending then set_status (set_start_time w r now) r Running else Some w)"

text \<open>The callable of visit_sub_reports: it sets sub reports and records has_warning, has_error.\<close>

definition finish_visit :: "nat \<Rightarrow> finish_state option \<Rightarrow> finish_state option" where
  "finish_visit c s = (case s of
     None \<Rightarrow> None
   | Some (w, has_warning, has_error) \<Rightarrow>
       (case status w c of
          Pending \<Rightarrow> map_option (\<lambda>w'. (w', has_warning, has_error)) (set_status w c Cancelled)
        | Running \<Rightarrow>
            (if rd_error_logged (data w c)
             then map_option (\<lambda>w'. (w', has_warning, True)) (set_status w c StatusError)
             else if rd_warning_logged (data w c)
             then map_option (\<lambda>w'. (w', True, has_error)) (set_status w c StatusWarning)
             else Some (w, has_warning, has_error))
        | StatusWarning \<Rightarrow> Some (w, True, has_error)
        | StatusError \<Rightarrow> Some (w, has_warning, True)
        | _ \<Rightarrow> Some (w, has_warning, has_error)))"

definition guard_finish :: "report_world \<Rightarrow> nat \<Rightarrow> int \<Rightarrow> bool \<Rightarrow> report_world option" where
  "guard_finish w r now uncaught =
     (let w0 = set_end_time w r now in
      case sv_visit finish_visit (rd_sub_reports (data w0 r)) (Some (w0, False, False)) of
        None \<Rightarrow> None
      | Some (w1, has_warning, has_error) \<Rightarrow>
          (if status w1 r = Running \<or> status w1 r = CancelRequest
           then (if has_error \<or> rd_error_logged (data w1 r) \<or> uncaught
                 then set_status w1 r StatusError
                 else if has_warning \<or> rd_warning_logged (data w1 r)
                 then set_status w1 r StatusWarning
                 else set_status w1 r Finished)
           else Some w1))"

type_synonym status_guard = "nat option"

definition guard_default :: status_guard where
  "guard_default = None"

definition guard_new :: "report_world \<Rightarrow> nat \<Rightarrow> int \<Rightarrow> (status_guard \<times> report_world) option" where
  "guard_new w r now = map_option (Pair (Some r)) (guard_init w r now)"

definition guard_move :: "status_guard \<Rightarrow> status_guard \<times> status_guard" where
  "guard_move rhs = (rhs, guard_default)"

definition guard_assign :: "status_guard \<Rightarrow> status_guard \<Rightarrow> status_guard \<times> status_guard" where
  "guard_assign g rhs = (rhs, g)"

definition guard_release :: "status_guard \<Rightarrow> status_guard" where
  "guard_release g = None"

definition guard_destroy :: "report_world \<Rightarrow> status_guard \<Rightarrow> int \<Rightarrow> bool \<Rightarrow> report_world option" where
  "guard_destroy w g now uncaught = (case g of
     None \<Rightarrow> Some w
   | Some r \<Rightarrow> guard_finish w r now uncaught)"

section \<open>What finishing settles\<close>

text \<open>The status of a sub report after its parent's guard has finished.\<close>

definition settled :: "report_world \<Rightarrow> nat \<Rightarrow> execution_status" where
  "settled w c = (case status w c of
     Pending \<Rightarrow> Cancelled
   | Running \<Rightarrow> (if rd_error_logged (data w c) then StatusError
                else if rd_warning_logged (data w c) then StatusWarning else Running)
   | s \<Rightarrow> s)"

text \<open>The status of the report itself.\<close>

definition verdict :: "report_world \<Rightarrow> nat \<Rightarrow> bool \<Rightarrow> execution_status" where
  "verdict w r uncaught =
     (if status w r = Running \<or> status w r = CancelRequest
      then (if (\<exists>c \<in> set (sub_reports w r). settled w c = StatusError)
               \<or> rd_error_logged (data w r) \<or> uncaught
            then StatusError
            else if (\<exists>c \<in> set (sub_reports w r). settled w c = StatusWarning)
               \<or> rd_warning_logged (data w r)
            then StatusWarning else Finished)
      else status w r)"

lemma open_below_parent:
  "open_below w c x \<Longrightarrow> wf_tree w \<Longrightarrow> \<exists>b. rd_parent (data w x) = Some b \<and> c \<le> b"
proof (induction rule: open_below.induct)
  case (child d)
  then show ?case by (auto simp: wf_child)
next
  case (deeper b d)
  then obtain a where "rd_parent (data w b) = Some a" "c \<le> a" by blast
  with deeper.prems have "c \<le> b" using wf_parent_less [of w b a] by simp
  with deeper show ?case by (auto simp: wf_child)
qed

text \<open>Visiting one sub report of r leaves r and the other sub reports of r alone.\<close>

definition visited :: "nat \<Rightarrow> nat set \<Rightarrow> report_world \<Rightarrow> report_world \<Rightarrow> bool" where
  "visited r C w v \<longleftrightarrow> same_tree w v
     \<and> status v r = status w r
     \<and> (\<forall>c \<in> set (sub_reports w r). status v c = (if c \<in> C then settled w c else status w c))
     \<and> (\<forall>x. x = r \<or> x \<in> set (sub_reports w r) \<longrightarrow>
          rd_error_logged (data v x) = rd_error_logged (data w x)
          \<and> rd_warning_logged (data v x) = rd_warning_logged (data w x))"

definition sets_only :: "report_world \<Rightarrow> nat \<Rightarrow> nat \<Rightarrow> execution_status \<Rightarrow> report_world \<Rightarrow> bool" where
  "sets_only v r c st v' \<longleftrightarrow> same_tree v v' \<and> status v' r = status v r
     \<and> (\<forall>d \<in> set (sub_reports v r). status v' d = (if d = c then st else status v d))
     \<and> (\<forall>x. x = r \<or> x \<in> set (sub_reports v r) \<longrightarrow>
          rd_error_logged (data v' x) = rd_error_logged (data v x)
          \<and> rd_warning_logged (data v' x) = rd_warning_logged (data v x))"

lemma set_status_sub:
  assumes "wf_tree v" and "c \<in> set (sub_reports v r)"
    and st: "st = Cancelled \<or> st = StatusError \<and> rd_error_logged (data v c)
      \<or> st = StatusWarning \<and> rd_warning_logged (data v c)"
    and ne: "status v c \<noteq> st"
  shows "\<exists>v'. set_status v c st = Some v' \<and> sets_only v r c st v'"
proof -
  have c: "r < c" "c < next_report v" using wf_child_less [OF assms(1,2)] by simp_all
  show ?thesis
  proof (cases "st = Cancelled")
    case True
    have "\<not> open_below v c x" if "x = r \<or> x \<in> set (sub_reports v r)" for x
      using open_below_parent [of v c x] that c assms(1) wf_parent_less [of v r]
      by (fastforce simp: wf_child)
    moreover from set_status_cancel [OF assms(1) c(2)] ne True obtain v'
      where "set_status v c Cancelled = Some v'" "same_tree v v'"
        "\<forall>x. status v' x = (if x = c \<or> open_below v c x then Cancelled else status v x)"
        "\<forall>x. rd_error_logged (data v' x) = rd_error_logged (data v x)
          \<and> rd_warning_logged (data v' x) = rd_warning_logged (data v x)" by blast
    ultimately show ?thesis using True c by (intro exI [of _ v']) (simp add: sets_only_def)
  next
    case False
    from set_status_plain [OF assms(1) c(2) False] obtain v'
      where "set_status v c st = Some v'" "same_tree v v'"
        "\<forall>x. status v' x = (if x = c then st else status v x)"
        "\<forall>x. rd_error_logged (data v' x) =
          (x = c \<and> st = StatusError \<and> status v c \<noteq> st \<or> rd_error_logged (data v x))"
        "\<forall>x. rd_warning_logged (data v' x) =
          (x = c \<and> st = StatusWarning \<and> status v c \<noteq> st \<or> rd_warning_logged (data v x))" by blast
    then show ?thesis using False c st by (intro exI [of _ v']) (auto simp: sets_only_def)
  qed
qed

definition flags_of :: "report_world \<Rightarrow> nat set \<Rightarrow> bool \<Rightarrow> bool \<Rightarrow> bool" where
  "flags_of w C has_warning has_error \<longleftrightarrow>
     (has_warning \<longleftrightarrow> (\<exists>c \<in> C. settled w c = StatusWarning))
     \<and> (has_error \<longleftrightarrow> (\<exists>c \<in> C. settled w c = StatusError))"

lemma settled_not_pending [simp]: "settled w c \<noteq> Pending"
  by (simp add: settled_def split: execution_status.splits)

lemma visited_step:
  assumes "visited r C w v" and "c \<in> set (sub_reports w r)" and "sets_only v r c (settled w c) v'"
  shows "visited r (insert c C) w v'"
proof -
  have s: "sub_reports v r = sub_reports w r"
    using assms(1) by (simp add: visited_def same_tree_subs)
  have "same_tree w v'" using assms by (auto simp: visited_def sets_only_def intro: same_tree_trans)
  with assms s show ?thesis by (auto simp: visited_def sets_only_def)
qed

lemma visited_keep:
  assumes "visited r C w v" and "c \<in> set (sub_reports w r)" and "status v c = settled w c"
  shows "visited r (insert c C) w v"
  using assms by (auto simp: visited_def)

lemma finish_visit_step:
  assumes wf: "wf_tree w" and vis: "visited r C w v" and fl: "flags_of w C hw he"
    and c: "c \<in> set (sub_reports w r)"
  shows "\<exists>v' hw' he'. finish_visit c (Some (v, hw, he)) = Some (v', hw', he')
    \<and> visited r (insert c C) w v' \<and> flags_of w (insert c C) hw' he'"
proof -
  have tree: "same_tree w v" using vis by (simp add: visited_def)
  have wfv: "wf_tree v" using tree wf by (rule same_tree_wf)
  have cv: "c \<in> set (sub_reports v r)" using c tree by (simp add: same_tree_subs)
  have logs: "rd_error_logged (data v c) = rd_error_logged (data w c)"
    "rd_warning_logged (data v c) = rd_warning_logged (data w c)"
    using vis c by (auto simp: visited_def)
  have stv: "status v c = (if c \<in> C then settled w c else status w c)"
    using vis c by (simp add: visited_def)
  note flags = fl [unfolded flags_of_def]
  have set: "\<exists>v'. set_status v c (settled w c) = Some v' \<and> visited r (insert c C) w v'"
    if "status v c = Pending \<or> status v c = Running \<and> settled w c \<noteq> Running"
  proof -
    have w: "status w c = status v c"
      using that stv by (cases "c \<in> C") auto
    have "settled w c = Cancelled \<or> settled w c = StatusError \<and> rd_error_logged (data v c)
      \<or> settled w c = StatusWarning \<and> rd_warning_logged (data v c)" "status v c \<noteq> settled w c"
      using that by (auto simp: settled_def w logs split: if_splits)
    from set_status_sub [OF wfv cv this] obtain v'
      where "set_status v c (settled w c) = Some v'" "sets_only v r c (settled w c) v'" by blast
    then show ?thesis using visited_step [OF vis c] by blast
  qed
  show ?thesis
  proof (cases "status v c = Pending")
    case True
    then have "c \<notin> C" using stv by auto
    then have w: "settled w c = Cancelled" using stv True by (simp add: settled_def)
    with set True obtain v' where "set_status v c Cancelled = Some v'" "visited r (insert c C) w v'"
      by auto
    moreover have "flags_of w (insert c C) hw he" using flags w by (simp add: flags_of_def)
    ultimately show ?thesis using True by (simp add: finish_visit_def)
  next
    case not_pending: False
    show ?thesis
    proof (cases "status v c = Running")
      case True
      then have w: "settled w c = (if rd_error_logged (data w c) then StatusError
          else if rd_warning_logged (data w c) then StatusWarning else Running)"
        using stv by (auto simp: settled_def split: if_splits execution_status.splits)
      show ?thesis
      proof (cases "settled w c = Running")
        case True
        then have "\<not> rd_error_logged (data v c)" "\<not> rd_warning_logged (data v c)"
          using w logs by (auto split: if_splits)
        moreover have "visited r (insert c C) w v" using vis c by (rule visited_keep) (simp add: True \<open>status v c = Running\<close>)
        moreover have "flags_of w (insert c C) hw he" using flags True by (simp add: flags_of_def)
        ultimately show ?thesis using \<open>status v c = Running\<close> by (simp add: finish_visit_def)
      next
        case False
        with set True obtain v' where v': "set_status v c (settled w c) = Some v'"
          "visited r (insert c C) w v'" by auto
        show ?thesis
        proof (cases "rd_error_logged (data w c)")
          case True
          then have "flags_of w (insert c C) hw True" using flags w by (simp add: flags_of_def)
          then show ?thesis using \<open>status v c = Running\<close> v' w True logs by (auto simp: finish_visit_def)
        next
          case no: False
          then have yes: "rd_warning_logged (data w c)" using False w by (simp split: if_splits)
          then have "flags_of w (insert c C) True he" using flags w no by (simp add: flags_of_def)
          then show ?thesis using \<open>status v c = Running\<close> v' w no yes logs by (auto simp: finish_visit_def)
        qed
      qed
    next
      case False
      then have w: "settled w c = status v c"
        using stv not_pending by (auto simp: settled_def split: if_splits execution_status.splits)
      have vis': "visited r (insert c C) w v" using vis c by (rule visited_keep) (simp add: w)
      show ?thesis
        using vis' flags w False not_pending
        by (cases "status v c") (auto simp: finish_visit_def flags_of_def)
    qed
  qed
qed

lemma finish_visit_fold:
  assumes "wf_tree w" and "visited r C w v" and "flags_of w C hw he"
    and "set cs \<subseteq> set (sub_reports w r)"
  shows "\<exists>v' hw' he'. fold finish_visit cs (Some (v, hw, he)) = Some (v', hw', he')
    \<and> visited r (C \<union> set cs) w v' \<and> flags_of w (C \<union> set cs) hw' he'"
  using assms(2-)
proof (induction cs arbitrary: C v hw he)
  case Nil
  then show ?case by simp
next
  case (Cons c cs)
  from finish_visit_step [OF assms(1) Cons.prems(1,2), of c] Cons.prems(3) obtain v1 hw1 he1
    where "finish_visit c (Some (v, hw, he)) = Some (v1, hw1, he1)"
      "visited r (insert c C) w v1" "flags_of w (insert c C) hw1 he1" by auto
  with Cons.IH [of "insert c C" v1 hw1 he1] Cons.prems(3) show ?case by simp
qed

lemma guard_finish_spec:
  assumes wf: "wf_tree w" and r: "r < next_report w"
  shows "\<exists>w'. guard_finish w r now uncaught = Some w' \<and> same_tree w w'
    \<and> status w' r = verdict w r uncaught
    \<and> (\<forall>c \<in> set (sub_reports w r). status w' c = settled w c)"
proof -
  define w0 where "w0 = set_end_time w r now"
  have t0: "same_tree w w0" by (simp add: w0_def same_tree_plain)
  have wf0: "wf_tree w0" using t0 wf by (rule same_tree_wf)
  have st0: "status w0 x = status w x" "rd_error_logged (data w0 x) = rd_error_logged (data w x)"
    "rd_warning_logged (data w0 x) = rd_warning_logged (data w x)" for x
    by (simp_all add: w0_def set_end_time_def status_def data_upd)
  have subs0: "sub_reports w0 r = sub_reports w r" using t0 by (rule same_tree_subs)
  have set0: "settled w0 c = settled w c" for c by (simp add: settled_def st0)
  have "visited r {} w0 w0" "flags_of w0 {} False False" by (simp_all add: visited_def flags_of_def)
  from finish_visit_fold [OF wf0 this, of "sub_reports w0 r"] obtain w1 hw he
    where fold: "fold finish_visit (sub_reports w0 r) (Some (w0, False, False)) = Some (w1, hw, he)"
      and vis: "visited r (set (sub_reports w0 r)) w0 w1"
      and fl: "flags_of w0 (set (sub_reports w0 r)) hw he" by auto
  have t1: "same_tree w w1" using t0 vis by (auto simp: visited_def intro: same_tree_trans)
  have wf1: "wf_tree w1" and r1: "r < next_report w1"
    using t1 wf r by (auto intro: same_tree_wf simp: same_tree_next)
  have st1: "status w1 r = status w r" "rd_error_logged (data w1 r) = rd_error_logged (data w r)"
    "rd_warning_logged (data w1 r) = rd_warning_logged (data w r)"
    using vis by (simp_all add: visited_def st0)
  have sub1: "\<forall>c \<in> set (sub_reports w r). status w1 c = settled w c"
    using vis by (simp add: visited_def subs0 set0)
  have run: "guard_finish w r now uncaught =
      (if status w r = Running \<or> status w r = CancelRequest
       then set_status w1 r (verdict w r uncaught) else Some w1)"
    using fold fl
    by (simp add: guard_finish_def Let_def sv_visit_list w0_def [symmetric] sub_reports_def [symmetric]
        st1 flags_of_def subs0 set0 verdict_def)
  show ?thesis
  proof (cases "status w r = Running \<or> status w r = CancelRequest")
    case False
    then have "guard_finish w r now uncaught = Some w1 \<and> verdict w r uncaught = status w r"
      by (auto simp: run verdict_def)
    with t1 st1 sub1 show ?thesis by simp
  next
    case True
    then have "verdict w r uncaught \<noteq> Cancelled" by (auto simp: verdict_def)
    from set_status_plain [OF wf1 r1 this] obtain w' where
      w': "set_status w1 r (verdict w r uncaught) = Some w'" "same_tree w1 w'"
        "\<forall>x. status w' x = (if x = r then verdict w r uncaught else status w1 x)" by blast
    have "r \<notin> set (sub_reports w r)" using wf_child_less [OF wf] by blast
    then have "\<forall>c \<in> set (sub_reports w r). status w' c = settled w c" using w'(3) sub1 by auto
    moreover have "same_tree w w'" using t1 w'(2) by (rule same_tree_trans)
    ultimately show ?thesis using True w' run by simp
  qed
qed

end
