(* ===== verification/Report_Props.thy ===== *)
theory Report_Props
  imports Status_Guard
begin

text \<open>
  What the reporting library guarantees to its users: the properties of the report arena, of the
  writer's calls and of the status guard, and concrete instances of each.
\<close>

section \<open>Nothing logged or attached is ever lost\<close>

definition extends :: "report_world \<Rightarrow> report_world \<Rightarrow> bool" where
  "extends w w' \<longleftrightarrow> next_report w \<le> next_report w'
     \<and> (\<forall>r. (\<exists>xs. subitems w' r = subitems w r @ xs)
          \<and> (\<exists>ms. sv_list (rd_messages (data w' r)) = sv_list (rd_messages (data w r)) @ ms)
          \<and> (\<exists>cs. sub_reports w' r = sub_reports w r @ cs))"

lemma extends_refl: "extends w w"
  by (simp add: extends_def)

lemma extends_trans: "extends u v \<Longrightarrow> extends v w \<Longrightarrow> extends u w"
  unfolding extends_def by (metis append.assoc le_trans)

lemma extends_tree: "same_tree w w' \<Longrightarrow> extends w w'"
  by (simp add: extends_def subitems_def same_tree_next same_tree_vectors same_tree_subs)

lemma extends_notified: "extends w (v\<lparr>notified := ns\<rparr>) = extends w v"
  by (simp add: extends_def subitems_def sub_reports_def)

lemma extends_attach: "wf_tree w \<Longrightarrow> c \<noteq> r \<Longrightarrow> extends w (attach w r c)"
  by (simp add: extends_def attach_fields)

lemma extends_grown: "unused_fresh w \<Longrightarrow> extends w (grown w)"
  using grown_tree [of w, unfolded tree_part_fields]
  by (simp add: extends_def subitems_def sub_reports_def) (simp add: grown_def)

lemma extends_new: "report_inv w \<Longrightarrow> extends w (snd (new_report w args))"
  using extends_trans [OF extends_grown extends_tree [OF new_report_spec(3)]]
  by (simp add: report_inv_def)

lemma extends_logged: "wf_tree w \<Longrightarrow> extends w (logged w r m)"
  using vectors_inv [of w]
  by (simp add: extends_def logged_fields logged_counts sub_reports_def blocks.elems_append)

lemma extends_step: "api_step w w' \<Longrightarrow> report_inv w \<Longrightarrow> extends w w'"
proof (induction rule: api_step.induct)
  case (new_root w args r w')
  then show ?case using extends_new [of w args] by simp
next
  case (new_sub r w args c w')
  let ?v = "snd (new_report w args)"
  obtain ns where w': "w' = (attach ?v r (next_report w))\<lparr>notified := ns\<rparr>"
    using create_sub_report_spec [of w r args] new_sub by auto
  have "wf_tree ?v" using new_report_spec(2) [OF new_sub(3)] by (simp add: report_inv_def)
  then have "extends ?v (attach ?v r (next_report w))"
    using new_sub(1) by (intro extends_attach) simp_all
  then show ?case
    using extends_trans [OF extends_new [OF new_sub(3)]] by (simp add: w' extends_notified)
next
  case (adopt r c w w')
  then have "extends w (attach w r c)" by (intro extends_attach) (auto simp: report_inv_def)
  moreover obtain ns where "w' = (attach w r c)\<lparr>notified := ns\<rparr>"
    using add_sub_report_spec [of w r c] adopt by (auto simp: is_root_def)
  ultimately show ?case by (simp add: extends_notified)
next
  case (message r w m w')
  then obtain ns where "w' = (logged w r m)\<lparr>notified := ns\<rparr>" using log_entry_spec [of w r m] by auto
  then show ?case using message by (simp add: extends_notified extends_logged report_inv_def)
next
  case (status_set r w st w')
  then show ?case using set_status_returns [of w r st] by (auto simp: report_inv_def extends_tree)
next
  case (progress_set r w v w')
  then show ?case using set_progress_spec [of w r "progress_of_int v"]
    by (auto simp: report_inv_def extends_tree progress_only_tree)
next
  case (progress_of r w a b w')
  then show ?case
    using set_progress_spec [of w r "progress_of_int (sint (ucast (a * 100 div b) :: 32 word))"]
    by (auto simp: set_progress_of_def report_inv_def extends_tree progress_only_tree extends_refl
        split: if_splits)
qed (auto intro: extends_tree same_tree_plain apply_arg_tree)

lemma extends_steps: "api_step\<^sup>*\<^sup>* w w' \<Longrightarrow> report_inv w \<Longrightarrow> extends w w'"
proof (induction rule: rtranclp_induct)
  case base
  then show ?case by (simp add: extends_refl)
next
  case (step u v)
  then show ?case using report_system.inv_steps [of w u] extends_step [of u v] by (blast intro: extends_trans)
qed

lemma extends_message:
  assumes "wf_tree w" and "wf_tree w'" and "extends w w'" and "i < log_message_count w r"
  shows "log_message_at w' r i = log_message_at w r i"
proof -
  obtain ms where ms: "sv_list (rd_messages (data w' r)) = sv_list (rd_messages (data w r)) @ ms"
    using assms(3) unfolding extends_def by blast
  note v = vectors_inv(2) [OF assms(1), of r] and v' = vectors_inv(2) [OF assms(2), of r]
  have i: "i < sv_size (rd_messages (data w r))" using assms(4) by (simp add: log_message_count_def)
  then have i': "i < sv_size (rd_messages (data w' r))"
    by (simp add: blocks.count_elems [OF v] blocks.count_elems [OF v'] ms)
  show ?thesis
    using i by (simp add: log_message_at_def blocks.at_elems [OF v i] blocks.at_elems [OF v' i'] ms
        nth_append blocks.count_elems [OF v])
qed

lemma extends_subitem:
  assumes "wf_tree w" and "wf_tree w'" and "extends w w'" and "i < subitem_count w r"
  shows "subitem_at w' r i = subitem_at w r i"
proof -
  obtain ms where ms: "sv_list (rd_subitems (data w' r)) = sv_list (rd_subitems (data w r)) @ ms"
    using assms(3) unfolding extends_def subitems_def by blast
  note v = vectors_inv(1) [OF assms(1), of r] and v' = vectors_inv(1) [OF assms(2), of r]
  have i: "i < sv_size (rd_subitems (data w r))" using assms(4) by (simp add: subitem_count_def)
  then have i': "i < sv_size (rd_subitems (data w' r))"
    by (simp add: blocks.count_elems [OF v] blocks.count_elems [OF v'] ms)
  show ?thesis
    using i by (simp add: subitem_at_def blocks.at_elems [OF v i] blocks.at_elems [OF v' i'] ms
        nth_append blocks.count_elems [OF v])
qed

section \<open>A report that is its own parent\<close>

lemma notify_parents_cycle:
  "rd_parent (data w r) = Some r \<Longrightarrow> notify_parents n w (Some r) s e = None"
  by (induction n arbitrary: w) simp_all

section \<open>A concrete arena\<close>

text \<open>A root report 0 with two sub reports 1 and 2, and a sub report 3 below 1.\<close>

definition demo_world :: report_world where
  "demo_world =
     (case create_sub_report (snd (new_report empty_world [])) 0 [] of
        Some (_, w1) \<Rightarrow> (case create_sub_report w1 0 [WeightArg 3] of
          Some (_, w2) \<Rightarrow> (case create_sub_report w2 1 [ObserverArg] of
            Some (_, w3) \<Rightarrow> w3
          | None \<Rightarrow> empty_world)
        | None \<Rightarrow> empty_world)
      | None \<Rightarrow> empty_world)"

definition logs :: "report_world \<Rightarrow> nat \<Rightarrow> bool \<times> bool" where
  "logs w x = (rd_error_logged (data w x), rd_warning_logged (data w x))"

lemma apply_args_status: "status (foldl (\<lambda>v a. apply_arg v r a) w args) x = status w x
    \<and> logs (foldl (\<lambda>v a. apply_arg v r a) w args) x = logs w x"
proof (induction args arbitrary: w)
  case Nil
  then show ?case by simp
next
  case (Cons a args)
  have "status (apply_arg w r a) x = status w x \<and> logs (apply_arg w r a) x = logs w x"
    by (cases a) (simp_all add: plain_update_defs add_observer_def Let_def status_def logs_def data_upd)
  with Cons show ?case by simp
qed

lemma create_sub_step:
  assumes "api_step\<^sup>*\<^sup>* empty_world w" and "r < next_report w"
  shows "\<exists>w'. create_sub_report w r args = Some (next_report w, w') \<and> api_step\<^sup>*\<^sup>* empty_world w'
    \<and> next_report w' = Suc (next_report w)
    \<and> (\<forall>x. sub_reports w' x =
         (if x = r then sub_reports w r @ [next_report w] else sub_reports w x))
    \<and> (\<forall>x. status w' x = (if x = next_report w then Pending else status w x))
    \<and> (\<forall>x. logs w' x = (if x = next_report w then (False, False) else logs w x))"
proof -
  let ?v = "snd (new_report w args)"
  have inv: "report_inv w" using report_system.inv_reachable [OF _ assms(1)] by (simp add: empty_arena_def)
  note new = new_report_spec [OF inv, of args]
  obtain ns where c: "create_sub_report w r args = Some (next_report w,
      (attach ?v r (next_report w))\<lparr>notified := ns\<rparr>)" (is "_ = Some (_, ?w')")
    using create_sub_report_spec [OF inv assms(2), of args] by blast
  have u: "unused_fresh w" using inv by (simp add: report_inv_def)
  have n: "next_report ?v = Suc (next_report w)"
    using same_tree_next [OF new(3)] by (simp add: grown_def)
  have s: "sub_reports ?v x = sub_reports w x" for x
    using same_tree_subs [OF new(3)] grown_tree [OF u, unfolded tree_part_fields]
    by (simp add: sub_reports_def)
  have st: "status ?v x = (if x = next_report w then Pending else status w x)"
    "logs ?v x = (if x = next_report w then (False, False) else logs w x)" for x
    by (simp_all add: new_report_def Let_def apply_args_status)
      (simp_all add: status_def logs_def fresh_data_def)
  have wf: "wf_tree ?v" and ne: "next_report w \<noteq> r"
    using new(2) assms(2) by (auto simp: report_inv_def)
  note f = attach_fields [OF wf ne]
  have "sub_reports ?w' x = sub_reports (attach ?v r (next_report w)) x"
    "status ?w' x = status (attach ?v r (next_report w)) x" "logs ?w' x = logs ?v x" for x
    by (simp_all add: sub_reports_def status_def logs_def attach_def data_upd)
  moreover have "api_step\<^sup>*\<^sup>* empty_world ?w'"
    using assms c by (auto intro: rtranclp.rtrancl_into_rtrancl api_step.new_sub)
  ultimately show ?thesis using c by (intro exI [of _ ?w']) (simp add: f s st n)
qed

text \<open>The states on the way to the arena of the examples.\<close>

lemma demo_facts:
  "api_step\<^sup>*\<^sup>* empty_world demo_world \<and> next_report demo_world = 4
   \<and> sub_reports demo_world 0 = [1, 2] \<and> sub_reports demo_world 1 = [3]
   \<and> sub_reports demo_world 2 = [] \<and> sub_reports demo_world 3 = []
   \<and> (\<forall>x. status demo_world x = Pending \<and> logs demo_world x = (False, False))"
proof -
  let ?w0 = "snd (new_report empty_world [])"
  have r0: "api_step\<^sup>*\<^sup>* empty_world ?w0"
    by (rule r_into_rtranclp, rule api_step.new_root, rule prod.collapse [symmetric])
  have w0: "next_report ?w0 = 1" "sub_reports ?w0 x = []" "status ?w0 x = Pending"
    "logs ?w0 x = (False, False)" for x
    by (simp_all add: new_report_def Let_def empty_world_def sub_reports_def status_def fresh_data_def
        sv_list_empty logs_def)
  from create_sub_step [OF r0, of 0 "[]"] obtain w1
    where w1: "create_sub_report ?w0 0 [] = Some (1, w1)"
      "api_step\<^sup>*\<^sup>* empty_world w1" "next_report w1 = 2"
      "\<forall>x. sub_reports w1 x = (if x = 0 then [1] else [])" "\<forall>x. status w1 x = Pending \<and> logs w1 x = (False, False)"
    by (auto simp: w0)
  from create_sub_step [OF w1(2), of 0 "[WeightArg 3]"] w1(3-) obtain w2
    where w2: "create_sub_report w1 0 [WeightArg 3] = Some (2, w2)"
      "api_step\<^sup>*\<^sup>* empty_world w2" "next_report w2 = 3"
      "\<forall>x. sub_reports w2 x = (if x = 0 then [1, 2] else [])" "\<forall>x. status w2 x = Pending \<and> logs w2 x = (False, False)"
    by auto
  from create_sub_step [OF w2(2), of 1 "[ObserverArg]"] w2(3-) obtain w3
    where w3: "create_sub_report w2 1 [ObserverArg] = Some (3, w3)"
      "api_step\<^sup>*\<^sup>* empty_world w3" "next_report w3 = 4"
      "\<forall>x. sub_reports w3 x = (if x = 0 then [1, 2] else if x = 1 then [3] else [])"
      "\<forall>x. status w3 x = Pending \<and> logs w3 x = (False, False)"
    by auto
  have "demo_world = w3" using w1(1) w2(1) w3(1) by (simp add: demo_world_def)
  with w3 show ?thesis by simp
qed

lemma demo_reachable: "api_step\<^sup>*\<^sup>* empty_world demo_world"
  and demo_next: "next_report demo_world = 4"
  and demo_subs: "sub_reports demo_world 0 = [1, 2]" "sub_reports demo_world 1 = [3]"
    "sub_reports demo_world 2 = []" "sub_reports demo_world 3 = []"
  and demo_status: "status demo_world x = Pending" "logs demo_world x = (False, False)"
  using demo_facts by simp_all

lemma reachable_inv: "api_step\<^sup>*\<^sup>* empty_world w \<Longrightarrow> report_inv w"
  by (rule report_system.inv_reachable) (simp add: empty_arena_def)

lemma reachable_wf: "api_step\<^sup>*\<^sup>* empty_world w \<Longrightarrow> wf_tree w"
  using reachable_inv by (simp add: report_inv_def)

lemma demo_inv: "report_inv demo_world"
  using demo_reachable by (rule reachable_inv)

lemma demo_wf: "wf_tree demo_world"
  using demo_reachable by (rule reachable_wf)

section \<open>Properties\<close>





text \<open>C9: Cancelling a report that is not cancelled sets to Cancelled exactly that report and
  the sub reports reached from it through reports that are not final; every other status, every
  progress and every link stays as it was.\<close>

theorem cancel_reaches_open_sub_reports:
  assumes "api_step\<^sup>*\<^sup>* empty_world w" and "r < next_report w" and "status w r \<noteq> Cancelled"
  shows "\<exists>w'. set_status w r Cancelled = Some w' \<and> same_tree w w'
    \<and> (\<forall>x. status w' x = (if x = r \<or> open_below w r x then Cancelled else status w x))
    \<and> (\<forall>x. progress w' x = progress w x)"
  using set_status_cancel [OF reachable_wf [OF assms(1)] assms(2,3)] by blast

theorem cancel_reaches_open_sub_reports_witness:
  "\<exists>w'. set_status demo_world 0 Cancelled = Some w' \<and> same_tree demo_world w'
    \<and> status w' 3 = Cancelled \<and> status w' 0 = Cancelled"
proof -
  have "open_below demo_world 0 3"
    by (rule open_below.deeper [of _ _ 1], rule open_below.child)
      (use demo_subs(1,2) in \<open>simp_all add: demo_status\<close>)
  moreover obtain w' where "set_status demo_world 0 Cancelled = Some w'" "same_tree demo_world w'"
    "\<forall>x. status w' x = (if x = 0 \<or> open_below demo_world 0 x then Cancelled else status demo_world x)"
    using cancel_reaches_open_sub_reports [OF demo_reachable, of 0] demo_next demo_status by auto
  ultimately show ?thesis by auto
qed



text \<open>C30: A notification calls the observers of the report first, then those of each ancestor
  from the parent to the root, each with the notifying report and the same event, and nothing
  else happens.\<close>

theorem notify_order:
  assumes "api_step\<^sup>*\<^sup>* empty_world w"
  shows "notify w r ty i = Some (w\<lparr>notified := notified w @
      concat (map (calls_of w r \<lparr>ev_type = ty, ev_index = i\<rparr>) (lineage w r))\<rparr>)
    \<and> lineage w r = r # (case parent w r of None \<Rightarrow> [] | Some p \<Rightarrow> lineage w p)"
  using notify_spec [OF reachable_wf [OF assms]] lineage_unfold [OF reachable_wf [OF assms], of r]
  by (simp add: parent_def)

theorem notify_order_witness:
  "notify demo_world 3 StatusChanged None = Some (demo_world\<lparr>notified := notified demo_world @
      concat (map (calls_of demo_world 3 \<lparr>ev_type = StatusChanged, ev_index = None\<rparr>)
        (lineage demo_world 3))\<rparr>)"
  using notify_order [OF demo_reachable, of 3 StatusChanged None] by simp

text \<open>C19: A report is busy exactly if it or a report somewhere below it is not final.\<close>

theorem busy_iff_open_report_below:
  assumes "api_step\<^sup>*\<^sup>* empty_world w" and "r < next_report w"
  shows "is_busy w r = Some (\<exists>x. below w r x \<and> \<not> is_final (status w x))"
  using is_busy_spec [OF reachable_wf [OF assms(1)] assms(2)] .

theorem busy_iff_open_report_below_witness: "is_busy demo_world 0 = Some True"
proof -
  have "below demo_world 0 0" by (rule below.here)
  then show ?thesis
    using busy_iff_open_report_below [OF demo_reachable, of 0] demo_next demo_status by auto
qed



text \<open>A guard can report a parent as finished while it is still busy: a running sub report
  that logged neither an error nor a warning stays running.\<close>

theorem guard_leaves_running_sub_report:
  assumes "api_step\<^sup>*\<^sup>* empty_world w" and "c \<in> set (sub_reports w r)" and "status w c = Running"
    and "\<not> rd_error_logged (data w c)" and "\<not> rd_warning_logged (data w c)"
  shows "\<exists>w'. guard_finish w r now uncaught = Some w' \<and> status w' r = verdict w r uncaught
    \<and> status w' c = Running \<and> is_busy w' r = Some True"
proof -
  have wf: "wf_tree w" using assms(1) by (rule reachable_wf)
  have r: "r < next_report w" using wf_child_less [OF wf assms(2)] by simp
  from guard_finish_spec [OF wf r] obtain w' where w': "guard_finish w r now uncaught = Some w'"
    "same_tree w w'" "status w' r = verdict w r uncaught"
    "\<forall>c \<in> set (sub_reports w r). status w' c = settled w c" by blast
  have c: "status w' c = Running" using w'(4) assms(2-) by (simp add: settled_def)
  have "below w' r c" using assms(2) same_tree_subs [OF w'(2)] by (auto intro: below.intros)
  moreover have "\<not> is_final (status w' c)" by (simp add: c)
  ultimately have "is_busy w' r = Some True"
    using is_busy_spec [OF same_tree_wf [OF w'(2) wf], of r] r same_tree_next [OF w'(2)] by auto
  with w' c show ?thesis by blast
qed

theorem guard_leaves_running_sub_report_witness:
  "\<exists>w w'. set_status demo_world 1 Running = Some w \<and> guard_finish w 0 9 False = Some w'
    \<and> status w' 1 = Running \<and> is_busy w' 0 = Some True"
proof -
  have one: "1 < next_report demo_world" by (simp add: demo_next)
  from set_status_plain [OF demo_wf one, of Running] obtain w where
    w: "set_status demo_world 1 Running = Some w" "same_tree demo_world w"
      "\<forall>x. status w x = (if x = 1 then Running else status demo_world x)"
      "\<forall>x. rd_error_logged (data w x) = rd_error_logged (data demo_world x)"
      "\<forall>x. rd_warning_logged (data w x) = rd_warning_logged (data demo_world x)"
    by (simp del: One_nat_def split del: if_split) blast
  have "api_step\<^sup>*\<^sup>* empty_world w"
    using demo_reachable one w(1) by (auto intro: rtranclp.rtrancl_into_rtrancl api_step.status_set)
  moreover have "1 \<in> set (sub_reports w 0)" using w(2) by (simp add: same_tree_subs demo_subs)
  moreover have "\<not> rd_error_logged (data w 1)" "\<not> rd_warning_logged (data w 1)"
    using w demo_status(2) [of 1] by (simp_all add: logs_def)
  ultimately show ?thesis
    using guard_leaves_running_sub_report [of w 1 0 9 False] w(1,3) by auto
qed

text \<open>C32: A logged message can be read at the index it was logged at, with the same contents, at
  any later time, whatever is done to the reports; and the items recorded so far never change.\<close>

theorem logged_message_stays_readable:
  assumes "api_step\<^sup>*\<^sup>* empty_world w" and "r < next_report w" and "log_entry w r m = Some w'"
    and "api_step\<^sup>*\<^sup>* w' w''"
  shows "log_message_at w'' r (log_message_count w r) = Inr m
    \<and> subitem_at w'' r (subitem_count w r) = Inr (MessageItem r (log_message_count w r))
    \<and> to_message w'' (MessageItem r (log_message_count w r)) = Inr m"
proof -
  have inv: "report_inv w" and wf: "wf_tree w"
    using assms(1) by (simp_all add: reachable_inv reachable_wf)
  have reach': "api_step\<^sup>*\<^sup>* empty_world w'" and reach'': "api_step\<^sup>*\<^sup>* empty_world w''"
    using assms by (auto intro: rtranclp.rtrancl_into_rtrancl api_step.message rtranclp_trans)
  obtain ns where w': "w' = (logged w r m)\<lparr>notified := ns\<rparr>" using log_entry_spec [OF inv assms(2), of m] assms(3) by auto
  note vec = vectors_inv [OF wf, of r]
  have now: "log_message_at w' r (log_message_count w r) = Inr m"
    "log_message_count w r < log_message_count w' r"
    "subitem_at w' r (subitem_count w r) = Inr (MessageItem r (log_message_count w r))"
    "subitem_count w r < subitem_count w' r"
    using blocks.at_append_new [OF vec(2)] blocks.at_append_new [OF vec(1)] vec
    by (simp_all add: w' log_message_at_def log_message_count_def logged_fields subitem_at_def
        subitem_count_def blocks.count_append)
  have ext: "extends w' w''" using assms(4) reachable_inv [OF reach'] by (rule extends_steps)
  note stay = extends_message [OF reachable_wf [OF reach'] reachable_wf [OF reach''] ext now(2)]
    extends_subitem [OF reachable_wf [OF reach'] reachable_wf [OF reach''] ext now(4)]
  then show ?thesis using now by (simp add: to_message_def log_message_at_def)
qed

theorem logged_message_stays_readable_witness:
  "\<exists>w'. log_entry demo_world 3 (log_message_new LogError ''disk'' ''full'') = Some w'
    \<and> log_message_at w' 3 (log_message_count demo_world 3) =
        Inr (log_message_new LogError ''disk'' ''full'')"
proof -
  have three: "3 < next_report demo_world" by (simp add: demo_next)
  from log_entry_spec [OF demo_inv this] obtain w' where
    "log_entry demo_world 3 (log_message_new LogError ''disk'' ''full'') = Some w'" by blast
  with logged_message_stays_readable [OF demo_reachable three this rtranclp.rtrancl_refl]
  show ?thesis by blast
qed

text \<open>Adding a report to itself as a sub report never returns: the walk up the parent chain
  does not end, however many iterations it is given.\<close>

theorem self_adoption_diverges:
  "(\<forall>n s e. notify_parents n (upd w r (rd_parent_update (\<lambda>_. Some r))) (Some r) s e = None)
   \<and> (0 < next_report w \<longrightarrow> add_sub_report w r r = None)"
proof -
  have "rd_parent (data w' r) = Some r \<Longrightarrow> notify w' r ty i = None" for w' ty i
    by (simp add: notify_def Let_def notify_parents_cycle)
  then show ?thesis by (simp add: notify_parents_cycle data_upd add_sub_report_def Let_def)
qed

theorem self_adoption_diverges_witness: "add_sub_report demo_world 0 0 = None"
  using self_adoption_diverges [of demo_world 0] demo_next by simp

end
