(* ===== verification/Core_Flags.thy ===== *)
theory Core_Flags
  imports Prelude
begin

text \<open>
  libs/core/headers/ez/Flags.hpp: a set of flags of an enum, kept in the enum's underlying integer
  (a word). An enumerator is its value (as_int). The theory shows that the operations are those of
  sets of bit positions, for enumerators with any number of bits.
\<close>

unbundle bit_operations_syntax

type_synonym 'w flags = "'w word"

definition flags_of :: "'w::len word \<Rightarrow> 'w flags" where
  "flags_of v = v"

definition flags_none :: "'w::len flags" where
  "flags_none = 0"

definition flags_or :: "'w::len flags \<Rightarrow> 'w flags \<Rightarrow> 'w flags" where
  "flags_or a b = a OR b"

definition flags_xor :: "'w::len flags \<Rightarrow> 'w flags \<Rightarrow> 'w flags" where
  "flags_xor a b = a XOR b"

definition flags_or_assign :: "'w::len flags \<Rightarrow> 'w flags \<Rightarrow> 'w flags" where
  "flags_or_assign a b = a OR b"

definition flags_xor_assign :: "'w::len flags \<Rightarrow> 'w flags \<Rightarrow> 'w flags" where
  "flags_xor_assign a b = a XOR b"

definition flags_eq :: "'w::len flags \<Rightarrow> 'w flags \<Rightarrow> bool" where
  "flags_eq a b \<longleftrightarrow> a = b"

definition flags_neq :: "'w::len flags \<Rightarrow> 'w flags \<Rightarrow> bool" where
  "flags_neq a b \<longleftrightarrow> \<not> flags_eq a b"

definition flags_test :: "'w::len flags \<Rightarrow> 'w word \<Rightarrow> bool" where
  "flags_test f e \<longleftrightarrow> f AND e = e"

definition flags_all :: "'w::len flags \<Rightarrow> 'w word list \<Rightarrow> bool" where
  "flags_all f es \<longleftrightarrow> foldr (\<lambda>e r. flags_test f e \<and> r) es True"

definition flags_any :: "'w::len flags \<Rightarrow> 'w word list \<Rightarrow> bool" where
  "flags_any f es \<longleftrightarrow> foldr (\<lambda>e r. flags_test f e \<or> r) es False"

definition flags_bool :: "'w::len flags \<Rightarrow> bool" where
  "flags_bool f \<longleftrightarrow> f \<noteq> 0"

definition flags_set :: "'w::len flags \<Rightarrow> 'w word \<Rightarrow> bool \<Rightarrow> 'w flags" where
  "flags_set f e on = (if on then f OR e else f AND NOT e)"

definition flags_clear :: "'w::len flags \<Rightarrow> 'w flags" where
  "flags_clear f = 0"

definition flags_clear_flag :: "'w::len flags \<Rightarrow> 'w word \<Rightarrow> 'w flags" where
  "flags_clear_flag f e = f AND NOT e"

fun make_flags :: "'w::len word list \<Rightarrow> 'w flags" where
  "make_flags [] = flags_none"
| "make_flags [e] = flags_of e"
| "make_flags (e # es) = flags_or (flags_of e) (make_flags es)"

section \<open>Flags are sets of bits\<close>

definition flag_bits :: "'w::len word \<Rightarrow> nat set" where
  "flag_bits f = {n. bit f n}"

lemma flag_bits_eq: "flag_bits f = flag_bits g \<longleftrightarrow> f = g"
  by (auto simp: flag_bits_def set_eq_iff intro: bit_eqI)

lemma flag_bits_subset: "flag_bits e \<subseteq> flag_bits f \<longleftrightarrow> f AND e = e"
proof
  assume "flag_bits e \<subseteq> flag_bits f"
  then have "bit (f AND e) n = bit e n" for n by (auto simp: flag_bits_def bit_and_iff)
  then show "f AND e = e" by (intro bit_eqI)
next
  assume "f AND e = e"
  then have "bit e n = (bit f n \<and> bit e n)" for n using bit_and_iff [of f e n] by simp
  then show "flag_bits e \<subseteq> flag_bits f" unfolding flag_bits_def by blast
qed

lemma flag_bits_word_ops:
  "flag_bits (f OR g) = flag_bits f \<union> flag_bits g"
  "flag_bits (f XOR g) = (flag_bits f - flag_bits g) \<union> (flag_bits g - flag_bits f)"
  "flag_bits (f AND NOT g) = flag_bits f - flag_bits g"
  "flag_bits (0 :: 'w::len word) = {}"
  by (auto simp: flag_bits_def bit_or_iff bit_xor_iff bit_and_iff bit_not_iff dest: bit_imp_possible_bit)

lemma flags_all_list: "flags_all f es \<longleftrightarrow> (\<forall>e \<in> set es. flags_test f e)"
  unfolding flags_all_def by (induction es) auto

lemma flags_any_list: "flags_any f es \<longleftrightarrow> (\<exists>e \<in> set es. flags_test f e)"
  unfolding flags_any_def by (induction es) auto

lemma make_flags_bits: "flag_bits (make_flags es) = (\<Union>e \<in> set es. flag_bits e)"
  by (induction es rule: make_flags.induct)
    (auto simp: flag_bits_def flags_none_def flags_of_def flags_or_def bit_or_iff)

text \<open>Flags behave as sets of bits, for enumerators that are single bits or combinations: or is
  union, xor the symmetric difference, test asks for a subset, all and any for all or one of the
  enumerators, set adds or removes the bits of its enumerator, clear removes them, make_flags is
  the union, and two flags are equal iff their sets are. In particular an enumerator with value 0
  tests true on every flags.\<close>

theorem flags_are_sets_of_bits:
  "flag_bits (flags_or f g) = flag_bits f \<union> flag_bits g
   \<and> flag_bits (flags_xor f g) = (flag_bits f - flag_bits g) \<union> (flag_bits g - flag_bits f)
   \<and> (flags_test f e \<longleftrightarrow> flag_bits e \<subseteq> flag_bits f)
   \<and> (flags_all f es \<longleftrightarrow> flag_bits (make_flags es) \<subseteq> flag_bits f)
   \<and> (flags_any f es \<longleftrightarrow> (\<exists>x \<in> set es. flag_bits x \<subseteq> flag_bits f))
   \<and> flag_bits (flags_set f e True) = flag_bits f \<union> flag_bits e
   \<and> flag_bits (flags_set f e False) = flag_bits f - flag_bits e
   \<and> flags_clear_flag f e = flags_set f e False
   \<and> flag_bits (flags_clear f) = {}
   \<and> (flags_bool f \<longleftrightarrow> flag_bits f \<noteq> {})
   \<and> (f = g \<longleftrightarrow> flag_bits f = flag_bits g)"
proof -
  have "f = 0 \<longleftrightarrow> flag_bits f = {}"
    using flag_bits_eq [of f 0] flag_bits_word_ops(4) by metis
  moreover have "flags_all f es \<longleftrightarrow> flag_bits (make_flags es) \<subseteq> flag_bits f"
    unfolding flags_all_list make_flags_bits flags_test_def flag_bits_subset [symmetric] by blast
  ultimately show ?thesis
    unfolding flags_any_list flags_test_def flag_bits_subset [symmetric] flags_or_def flags_xor_def
      flags_set_def flags_clear_flag_def flags_clear_def flags_bool_def flag_bits_eq
    by (simp add: flag_bits_word_ops)
qed

end
