(* ===== verification/Report_Logging.thy ===== *)
theory Report_Logging
  imports Report_Api Core_Flags
begin

text \<open>
  The parts of ExecutionReport around its data: the handles (null, comparison, accessors), the
  flags, and the message builders of info, warning, error, success and debug. A handle is an option:
  None is a null report, whose accessors dereference a null pointer.
\<close>

section \<open>Handles\<close>

type_synonym report_handle = "nat option"

definition null_report :: report_handle where
  "null_report = None"

definition report_from_data :: "nat \<Rightarrow> report_handle" where
  "report_from_data d = Some d"

definition report_bool :: "report_handle \<Rightarrow> bool" where
  "report_bool r \<longleftrightarrow> r \<noteq> None"

definition report_eq :: "report_handle \<Rightarrow> report_handle \<Rightarrow> bool" where
  "report_eq a b \<longleftrightarrow> a = b"

definition report_neq :: "report_handle \<Rightarrow> report_handle \<Rightarrow> bool" where
  "report_neq a b \<longleftrightarrow> a \<noteq> b"

definition get_field :: "report_world \<Rightarrow> (report_data \<Rightarrow> 'a) \<Rightarrow> report_handle \<Rightarrow> abort + 'a" where
  "get_field w f r = (case r of None \<Rightarrow> Inl UndefinedBehaviour | Some d \<Rightarrow> Inr (f (data w d)))"

definition get_name :: "report_world \<Rightarrow> report_handle \<Rightarrow> abort + string" where
  "get_name w r = get_field w rd_name r"

definition get_description :: "report_world \<Rightarrow> report_handle \<Rightarrow> abort + string" where
  "get_description w r = get_field w rd_description r"

definition get_id :: "report_world \<Rightarrow> report_handle \<Rightarrow> abort + nat" where
  "get_id w r = get_field w rd_id r"

definition get_flags :: "report_world \<Rightarrow> report_handle \<Rightarrow> abort + 32 flags" where
  "get_flags w r = get_field w rd_flags r"

fun report_flag_value :: "report_flag \<Rightarrow> 32 word" where
  "report_flag_value Empty = 0"
| "report_flag_value IsTerminal = 1"

definition test_flag :: "report_world \<Rightarrow> report_flag \<Rightarrow> report_handle \<Rightarrow> abort + bool" where
  "test_flag w x r = get_field w (\<lambda>d. flags_test (rd_flags d) (report_flag_value x)) r"

definition message_item :: "nat \<Rightarrow> nat \<Rightarrow> report_item" where
  "message_item owner i = MessageItem owner i"

definition visit_sub_reports :: "report_world \<Rightarrow> nat \<Rightarrow> (nat \<Rightarrow> 's \<Rightarrow> 's) \<Rightarrow> 's \<Rightarrow> 's" where
  "visit_sub_reports w r f s = sv_visit f (rd_sub_reports (data w r)) s"

section \<open>Logging through builders\<close>

definition report_info :: "nat \<Rightarrow> string \<Rightarrow> message_builder" where
  "report_info r header = builder_new r Info header"

definition report_warning :: "nat \<Rightarrow> string \<Rightarrow> message_builder" where
  "report_warning r header = builder_new r LogWarning header"

definition report_error :: "nat \<Rightarrow> string \<Rightarrow> message_builder" where
  "report_error r header = builder_new r LogError header"

definition report_success :: "nat \<Rightarrow> string \<Rightarrow> message_builder" where
  "report_success r header = builder_new r Success header"

definition report_debug :: "nat \<Rightarrow> string \<Rightarrow> message_builder" where
  "report_debug r header = builder_new r Debug header"

definition report_log :: "report_world \<Rightarrow> nat \<Rightarrow> log_message \<Rightarrow> report_world option" where
  "report_log w r msg = log_entry w r msg"

text \<open>A builder in use: text is streamed into it, or it is moved into another object and the object
  it was moved out of is destroyed. At the end it is destroyed.\<close>

datatype builder_use = Stream string | MoveOut

fun use_builder :: "report_world \<Rightarrow> message_builder \<Rightarrow> builder_use list \<Rightarrow> report_world option" where
  "use_builder w b [] = builder_destroy w b"
| "use_builder w b (Stream t # us) = use_builder w (builder_shl b t) us"
| "use_builder w b (MoveOut # us) =
     (case builder_move b of (b', left) \<Rightarrow>
        case builder_destroy w left of None \<Rightarrow> None | Some w' \<Rightarrow> use_builder w' b' us)"

fun streamed :: "builder_use list \<Rightarrow> string" where
  "streamed [] = []"
| "streamed (Stream t # us) = t @ streamed us"
| "streamed (MoveOut # us) = streamed us"

lemma use_builder_logs:
  "mb_report b = Some r \<Longrightarrow>
     use_builder w b us = log_entry w r ((mb_message b)\<lparr>msg_body := msg_body (mb_message b) @ streamed us\<rparr>)"
proof (induction w b us rule: use_builder.induct)
  case (1 w b)
  then show ?case by (simp add: builder_destroy_def)
next
  case (2 w b t us)
  then show ?case by (simp add: builder_shl_def log_message_shl_def)
next
  case (3 w b us)
  then show ?case by (simp add: builder_move_def builder_destroy_def)
qed


definition logging_world :: report_world where
  "logging_world = snd (new_report empty_world [])"


text \<open>Move assignment takes over the right-hand side's report and message; the message the left-hand
  side held is not logged.\<close>

definition builder_assign :: "message_builder \<Rightarrow> message_builder \<Rightarrow> message_builder \<times> message_builder" where
  "builder_assign lhs rhs =
     (lhs\<lparr>mb_report := mb_report rhs, mb_message := mb_message rhs\<rparr>, rhs\<lparr>mb_report := None\<rparr>)"

lemma assigned_builder_drops_its_message:
  "(case builder_assign (report_info r h1) (report_info r h2) of
      (lhs, rhs) \<Rightarrow> Option.bind (builder_destroy w rhs) (\<lambda>w'. builder_destroy w' lhs)) =
   log_entry w r (log_message_new Info h2 [])"
  by (simp add: builder_assign_def builder_destroy_def report_info_def builder_new_def)

end
