(* ===== verification/Flow_Ast.thy ===== *)
theory Flow_Ast
  imports Interfaces
begin

text \<open>
  libs/flow/headers/ez/flow/ast.hpp and program.hpp: the syntax tree of a flow program. Source
  positions are kept on the nodes whose text the program reads back (paths, expressions,
  signatures); on the others they only serve diagnostics. A double is its 64-bit pattern.
\<close>

record located =
  start_position :: nat
  end_position :: nat

type_synonym ident = string

datatype identifier_path = IdentifierPath (path_loc: located) (path_names: "ident list")

datatype duration_unit = Ms | Sec | Min | Day | Week

type_synonym int64 = "64 word"
type_synonym uint64 = "64 word"
type_synonym real64 = "64 word"

datatype literal =
    LBoolean bool
  | LInteger int64
  | LReal real64
  | LString string
  | LDuration uint64 duration_unit

datatype signature =
  Signature (signature_loc: located) (inputs: "(ident \<times> ident) list")
    (return_type: "ident option")

datatype unary_operator = UnaryPlus | UnaryMinus | UnaryNot
datatype multiplicative_operator = Mult | Div
datatype additive_operator = Plus | Minus
datatype relational_operator = Less | LessEq | Greater | GreaterEq
datatype equality_operator = Eq | NotEq | In | Is
datatype logical_operator = And | Or

text \<open>BinaryExpression: a first term and a list of (operator, term) operations.\<close>

datatype ('t, 'op) binary_expression = Binary (first: 't) (terms: "('op \<times> 't) list")

datatype primary_expression =
    PPath identifier_path
  | PLiteral literal
  | PCall function_call
  | PArray "expression list"
  | PDictionary "(ident \<times> expression) list"
  | PExpression expression
  | PAwait expression expression
  | PTry expression
and function_call =
    FunctionCall (call_path: identifier_path) (call_arguments: "(ident option \<times> expression) list")
and unary_expression =
    Unary "unary_operator option" primary_expression
and expression =
    Expression (expression_loc: located)
      "(((((unary_expression, multiplicative_operator) binary_expression,
          additive_operator) binary_expression,
         relational_operator) binary_expression,
        equality_operator) binary_expression,
       logical_operator) binary_expression"

type_synonym multiplicative_expression = "(unary_expression, multiplicative_operator) binary_expression"
type_synonym additive_expression = "(multiplicative_expression, additive_operator) binary_expression"
type_synonym relational_expression = "(additive_expression, relational_operator) binary_expression"
type_synonym equality_expression = "(relational_expression, equality_operator) binary_expression"
type_synonym logical_expression = "(equality_expression, logical_operator) binary_expression"

datatype workflow_statement =
    ImportStatement identifier_path
  | VariableDeclaration ident ident "expression option"
  | AssignmentStatement identifier_path expression
  | DelayStatement expression
  | ReturnStatement expression
  | RaiseStatement expression
  | BreakStatement
  | ExpressionStatement expression
  | IfBlock condition_block "condition_block list" "workflow_statement list"
  | RepeatBlock "workflow_statement list"
  | WorkflowStatement workflow_definition
and condition_block =
    ConditionBlock (condition: expression) (block_statements: "workflow_statement list")
and workflow_definition =
    WorkflowDef (workflow_name: ident) (workflow_signature: "signature option")
      (workflow_statements: "workflow_statement list")

record program =
  code :: string
  file_path :: string
  ast :: "workflow_statement list"
  error_message :: string
  valid :: bool

text \<open>
  string_view::substr, for the positions the parser hands out: start_position is at most
  end_position and both are inside the text (beyond its end substr throws).
\<close>

definition get_code :: "program \<Rightarrow> located \<Rightarrow> string" where
  "get_code p location =
     take (end_position location - start_position location) (drop (start_position location) (code p))"

definition get_code_option :: "program \<Rightarrow> located option \<Rightarrow> string" where
  "get_code_option p statement =
     (case statement of Some location \<Rightarrow> get_code p location | None \<Rightarrow> ''unset'')"

section \<open>Small trees\<close>

text \<open>An expression that is a single primary expression, as the grammar builds it.\<close>

definition primary :: "primary_expression \<Rightarrow> expression" where
  "primary p = Expression \<lparr>start_position = 0, end_position = 0\<rparr>
     (Binary (Binary (Binary (Binary (Binary (Unary None p) []) []) []) []) [])"

definition path_of :: "ident list \<Rightarrow> identifier_path" where
  "path_of ids = IdentifierPath \<lparr>start_position = 0, end_position = 0\<rparr> ids"

definition multiplicative :: "primary_expression \<Rightarrow> multiplicative_operator \<Rightarrow> primary_expression \<Rightarrow> expression" where
  "multiplicative p op q = Expression \<lparr>start_position = 0, end_position = 0\<rparr>
     (Binary (Binary (Binary (Binary (Binary (Unary None p) [(op, Unary None q)]) []) []) []) [])"

end
