(* ===== verification/Core_Shared.thy ===== *)
theory Core_Shared
  imports Interfaces
begin

text \<open>
  core/headers/ez/Shared.hpp: Shared<T> is a std::shared_ptr that compares, assigns and detaches
  by value. A store is the list of the cells allocated so far and a handle is an index into it, so
  copying a handle aliases the cell. A moved-from handle is None. Reading through one is the
  dereference of a null pointer.
\<close>

type_synonym 'v store = "'v list"

definition shared_make :: "'v store \<Rightarrow> 'v \<Rightarrow> nat \<times> 'v store" where
  "shared_make h v = (length h, h @ [v])"

definition shared_get :: "'v store \<Rightarrow> nat \<Rightarrow> 'v option" where
  "shared_get h a = (if a < length h then Some (h ! a) else None)"

definition shared_set :: "'v store \<Rightarrow> nat \<Rightarrow> 'v \<Rightarrow> 'v store" where
  "shared_set h a v = h[a := v]"

interpretation cells: cell_store shared_make shared_get shared_set
  by unfold_locales (auto simp: shared_make_def shared_get_def shared_set_def nth_append)

section \<open>The operations of Shared\<close>

type_synonym shared = "nat option"

definition shared_value :: "'v store \<Rightarrow> shared \<Rightarrow> abort + 'v" where
  "shared_value h p = (case p of
     None \<Rightarrow> Inl UndefinedBehaviour
   | Some a \<Rightarrow> (case shared_get h a of Some v \<Rightarrow> Inr v | None \<Rightarrow> Inl UndefinedBehaviour))"

definition shared_new :: "'v store \<Rightarrow> 'v \<Rightarrow> shared \<times> 'v store" where
  "shared_new h v = (case shared_make h v of (a, h') \<Rightarrow> (Some a, h'))"

definition shared_copy :: "shared \<Rightarrow> shared" where
  "shared_copy p = p"

definition shared_move :: "shared \<Rightarrow> shared \<times> shared" where
  "shared_move p = (p, None)"

definition shared_assign_value :: "'v store \<Rightarrow> shared \<Rightarrow> 'v \<Rightarrow> abort + 'v store" where
  "shared_assign_value h p v = (case p of
     None \<Rightarrow> Inl UndefinedBehaviour
   | Some a \<Rightarrow> Inr (shared_set h a v))"

definition shared_eq_value :: "'v store \<Rightarrow> shared \<Rightarrow> 'v \<Rightarrow> abort + bool" where
  "shared_eq_value h p v = map_sum id (\<lambda>x. x = v) (shared_value h p)"

definition shared_eq :: "'v store \<Rightarrow> shared \<Rightarrow> shared \<Rightarrow> abort + bool" where
  "shared_eq h p q = (case shared_value h q of
     Inl e \<Rightarrow> Inl e
   | Inr v \<Rightarrow> shared_eq_value h p v)"

definition shared_detach :: "'v store \<Rightarrow> shared \<Rightarrow> abort + shared \<times> 'v store" where
  "shared_detach h p = map_sum id (shared_new h) (shared_value h p)"

text \<open>
  use_count counts the handles on the cell: those in the list of live handles. detach_if_shared
  tests it against zero, not against one.
\<close>

definition use_count :: "shared list \<Rightarrow> shared \<Rightarrow> nat" where
  "use_count live p = (case p of None \<Rightarrow> 0 | Some a \<Rightarrow> length (filter (\<lambda>q. q = Some a) live))"

definition is_unique :: "shared list \<Rightarrow> shared \<Rightarrow> bool" where
  "is_unique live p \<longleftrightarrow> use_count live p = 1"

definition shared_detach_if_shared ::
  "'v store \<Rightarrow> shared list \<Rightarrow> shared \<Rightarrow> abort + shared \<times> 'v store" where
  "shared_detach_if_shared h live p =
     (if use_count live p \<noteq> 0 then shared_detach h p else Inr (p, h))"

section \<open>Facts\<close>

lemma shared_value_new: "shared_new h v = (p, h') \<Longrightarrow> shared_value h' p = Inr v"
  by (auto simp: shared_new_def shared_make_def shared_value_def shared_get_def)

lemma shared_get_make:
  "shared_get (snd (shared_make h v)) a = (if a = fst (shared_make h v) then Some v else shared_get h a)"
  by (rule cells.read_alloc)

lemma use_count_pos: "p \<in> set live \<Longrightarrow> p \<noteq> None \<Longrightarrow> 0 < use_count live p"
  by (auto simp: use_count_def filter_empty_conv)

section \<open>Properties\<close>

text \<open>Detaching gives a handle to a fresh cell with the same value: a later assignment
  through either handle is not seen through the other.\<close>

theorem detach_separates:
  assumes "shared_value h (Some a) = Inr v" and "shared_detach h (Some a) = Inr (Some b, h')"
  shows "shared_value h' (Some b) = Inr v \<and> shared_value h' (Some a) = Inr v
    \<and> shared_value (shared_set h' b w) (Some a) = Inr v
    \<and> shared_value (shared_set h' a w) (Some b) = Inr v"
proof -
  have h: "shared_get h a = Some v"
    using assms(1) by (simp add: shared_value_def split: option.splits)
  have b: "b = fst (shared_make h v)" and h': "h' = snd (shared_make h v)"
    using assms by (simp_all add: shared_detach_def shared_new_def split_beta)
  have ne: "a \<noteq> b" using h cells.alloc_fresh [of h v] b by auto
  have "shared_get h' b = Some v" "shared_get h' a = Some v"
    using h ne by (simp_all add: b h' cells.read_alloc)
  then show ?thesis
    using ne by (simp add: shared_value_def cells.read_set_other [OF ne] cells.read_set_other [OF ne [symmetric]])
qed

theorem detach_separates_witness:
  "shared_value (shared_set [5, 5] 1 (9 :: int)) (Some 0) = Inr 5"
  using detach_separates [of "[5 :: int]" 0 5 1 "[5, 5]" 9]
  by (simp add: shared_value_def shared_get_def shared_detach_def shared_new_def shared_make_def
      shared_set_def)

text \<open>detach_if_shared reallocates even the only handle of a cell: its test accepts any
  live handle, so for a live handle it is the same as detach.\<close>

theorem detach_if_shared_always_detaches:
  assumes "p \<in> set live" and "p \<noteq> None"
  shows "shared_detach_if_shared h live p = shared_detach h p"
  using use_count_pos [OF assms] by (simp add: shared_detach_if_shared_def)

theorem detach_if_shared_always_detaches_witness:
  "is_unique [Some 0] (Some 0)
   \<and> shared_detach_if_shared [True] [Some 0] (Some 0) = Inr (Some 1, [True, True])"
  using detach_if_shared_always_detaches [of "Some 0" "[Some 0]" "[True]"]
  by (simp add: is_unique_def use_count_def shared_detach_def shared_value_def shared_get_def
      shared_new_def shared_make_def)

end
