(* ===== verification/Flow_Value.thy ===== *)
theory Flow_Value
  imports Flow_Ast Core_Shared
begin

text \<open>
  The values of a flow program: libs/flow/src/engine/types. An Entity is a variant over the value
  types; a value type that derives from Value<Storage> is a Shared<Storage>, so copying an Entity
  copies a handle. Here an entity is its alternative and, where it has storage, the address of the
  cell in a store; several entities can share a cell.
\<close>

section \<open>Value types\<close>

text \<open>The types that DictionaryType is instantiated with.\<close>

datatype dictionary_kind =
    Dictionary | Action | ActionReply | Campaign | CampaignReply
  | HttpRequest | HttpReply | DeviceInfoRequest | DeviceInfoReply

datatype entity_type =
    TError | TVoid | TBoolean | TInteger | TReal | TString | TDuration | TTimePoint | TArray
  | TDictionary dictionary_kind | TMemberFunction | TFreeFunction | TWorkflowDefinition
  | TWorkflowInvocation

datatype entity_category =
    CategoryError | CategoryObject | CategoryFreeFunction | CategoryMemberFunction
  | CategoryWorkflowDefinition | CategoryWorkflowInvocation

datatype free_function = Println | Panic | StrFormat

text \<open>The statement a workflow invocation comes from: a call, or the expression of an await.\<close>

datatype instanciation = CallStatement function_call | ExpressionInstance expression

datatype entity =
    EError string
  | EVoid
  | EBoolean nat
  | EInteger nat
  | EReal nat
  | EString nat
  | EDuration nat
  | ETimePoint int
  | EArray nat
  | EDictionary dictionary_kind nat
  | EMemberFunction dictionary_kind string
  | EFreeFunction free_function
  | EWorkflowDefinition workflow_definition
  | EWorkflowInvocation workflow_definition instanciation "(string option \<times> entity) list"

record duration_storage =
  dur_count :: uint64
  dur_unit :: duration_unit

text \<open>The storage of a value: what its Shared points to. A map is the list of its entries in key order.\<close>

datatype cell =
    CBoolean bool
  | CInteger int64
  | CReal real64
  | CString string
  | CDuration duration_storage
  | CArray "entity list"
  | CDictionary "(string \<times> entity) list"

type_synonym heap = "cell store"

type_synonym call_arguments = "(string option \<times> entity) list"

fun entity_type_of :: "entity \<Rightarrow> entity_type" where
  "entity_type_of (EError _) = TError"
| "entity_type_of EVoid = TVoid"
| "entity_type_of (EBoolean _) = TBoolean"
| "entity_type_of (EInteger _) = TInteger"
| "entity_type_of (EReal _) = TReal"
| "entity_type_of (EString _) = TString"
| "entity_type_of (EDuration _) = TDuration"
| "entity_type_of (ETimePoint _) = TTimePoint"
| "entity_type_of (EArray _) = TArray"
| "entity_type_of (EDictionary k _) = TDictionary k"
| "entity_type_of (EMemberFunction _ _) = TMemberFunction"
| "entity_type_of (EFreeFunction _) = TFreeFunction"
| "entity_type_of (EWorkflowDefinition _) = TWorkflowDefinition"
| "entity_type_of (EWorkflowInvocation _ _ _) = TWorkflowInvocation"

fun type_category :: "entity_type \<Rightarrow> entity_category" where
  "type_category TError = CategoryError"
| "type_category TFreeFunction = CategoryFreeFunction"
| "type_category TMemberFunction = CategoryMemberFunction"
| "type_category TWorkflowDefinition = CategoryWorkflowDefinition"
| "type_category TWorkflowInvocation = CategoryWorkflowInvocation"
| "type_category _ = CategoryObject"

definition category :: "entity \<Rightarrow> entity_category" where
  "category e = type_category (entity_type_of e)"

section \<open>Type names\<close>

fun dictionary_kind_name :: "dictionary_kind \<Rightarrow> string" where
  "dictionary_kind_name Dictionary = ''dictionary''"
| "dictionary_kind_name Action = ''action''"
| "dictionary_kind_name ActionReply = ''action_reply''"
| "dictionary_kind_name Campaign = ''campaign''"
| "dictionary_kind_name CampaignReply = ''campaign_reply''"
| "dictionary_kind_name HttpRequest = ''http_request''"
| "dictionary_kind_name HttpReply = ''http_reply''"
| "dictionary_kind_name DeviceInfoRequest = ''device_info_request''"
| "dictionary_kind_name DeviceInfoReply = ''device_info_reply''"

fun type_name :: "entity_type \<Rightarrow> string" where
  "type_name TError = ''error''"
| "type_name TVoid = ''void''"
| "type_name TBoolean = ''boolean''"
| "type_name TInteger = ''integer''"
| "type_name TReal = ''real''"
| "type_name TString = ''string''"
| "type_name TDuration = ''duration''"
| "type_name TTimePoint = ''time_point''"
| "type_name TArray = ''array''"
| "type_name (TDictionary k) = dictionary_kind_name k"
| "type_name TMemberFunction = ''member function''"
| "type_name TFreeFunction = ''free function''"
| "type_name TWorkflowDefinition = ''workflow''"
| "type_name TWorkflowInvocation = ''workflow invocation''"

text \<open>Types that do not set an id keep the default one.\<close>

fun type_id :: "entity_type \<Rightarrow> string" where
  "type_id TMemberFunction = ''undefined''"
| "type_id TFreeFunction = ''undefined''"
| "type_id TWorkflowDefinition = ''undefined''"
| "type_id TWorkflowInvocation = ''undefined''"
| "type_id t = type_name t"

definition same_type :: "entity_type \<Rightarrow> entity_type \<Rightarrow> bool" where
  "same_type lhs rhs \<longleftrightarrow> type_id lhs = type_id rhs"

text \<open>EntityTypeList, the order in which the types are added to the global scope.\<close>

definition entity_type_list :: "entity_type list" where
  "entity_type_list =
     [TError, TVoid, TBoolean, TInteger, TReal, TString, TDuration, TTimePoint, TArray,
      TDictionary Dictionary, TMemberFunction, TFreeFunction, TWorkflowDefinition,
      TWorkflowInvocation, TDictionary Action, TDictionary ActionReply, TDictionary Campaign,
      TDictionary CampaignReply, TDictionary HttpRequest, TDictionary HttpReply,
      TDictionary DeviceInfoRequest, TDictionary DeviceInfoReply]"

section \<open>Durations\<close>

fun unit_milliseconds :: "duration_unit \<Rightarrow> int" where
  "unit_milliseconds Ms = 1"
| "unit_milliseconds Sec = 1000"
| "unit_milliseconds Min = 60000"
| "unit_milliseconds Day = 86400000"
| "unit_milliseconds Week = 604800000"

text \<open>The count is read as the signed representation of the chrono duration; in milliseconds.\<close>

definition to_std_duration :: "duration_storage \<Rightarrow> int" where
  "to_std_duration d = sint (dur_count d) * unit_milliseconds (dur_unit d)"

fun to_milliseconds :: "duration_storage \<Rightarrow> uint64" where
  "to_milliseconds d = (case dur_unit d of
     Ms \<Rightarrow> dur_count d
   | Sec \<Rightarrow> dur_count d * 1000
   | Min \<Rightarrow> dur_count d * 1000 * 60
   | Day \<Rightarrow> dur_count d * 1000 * 60 * 24
   | Week \<Rightarrow> dur_count d * 1000 * 60 * 24 * 7)"

fun unit_suffix :: "duration_unit \<Rightarrow> string" where
  "unit_suffix Ms = ''ms''"
| "unit_suffix Sec = ''sec''"
| "unit_suffix Min = ''min''"
| "unit_suffix Day = ''day''"
| "unit_suffix Week = ''week''"

section \<open>Call arguments\<close>

definition push_argument :: "call_arguments \<Rightarrow> string option \<Rightarrow> entity \<Rightarrow> call_arguments" where
  "push_argument args name value = args @ [(name, value)]"

fun find_argument :: "call_arguments \<Rightarrow> string \<Rightarrow> entity option" where
  "find_argument [] name = None"
| "find_argument ((n, v) # args) name = (if n = Some name then Some v else find_argument args name)"

definition variable_at :: "call_arguments \<Rightarrow> nat \<Rightarrow> abort + entity" where
  "variable_at args i = (if i < length args then Inr (snd (args ! i)) else Inl OutOfRange)"

definition args_is_array :: "call_arguments \<Rightarrow> bool" where
  "args_is_array args \<longleftrightarrow> list_all (\<lambda>(n, _). n = None) args"

definition args_is_dictionary :: "call_arguments \<Rightarrow> bool" where
  "args_is_dictionary args \<longleftrightarrow> list_all (\<lambda>(n, _). n \<noteq> None) args"

text \<open>std::map::insert keeps an existing entry; the entries stay in key order.\<close>

fun map_insert :: "string \<Rightarrow> 'v \<Rightarrow> (string \<times> 'v) list \<Rightarrow> (string \<times> 'v) list" where
  "map_insert k v [] = [(k, v)]"
| "map_insert k v ((k', v') # m) =
     (if k < k' then (k, v) # (k', v') # m
      else if k = k' then (k', v') # m
      else (k', v') # map_insert k v m)"

definition args_to_dictionary :: "call_arguments \<Rightarrow> (string \<times> entity) list" where
  "args_to_dictionary args =
     foldl (\<lambda>m (n, v). case n of Some k \<Rightarrow> map_insert k v m | None \<Rightarrow> m) [] args"

definition map_lookup :: "(string \<times> 'v) list \<Rightarrow> string \<Rightarrow> 'v option" where
  "map_lookup m k = map_of m k"

section \<open>Facts\<close>

lemma map_insert_set: "set (map_insert k v m) \<subseteq> insert (k, v) (set m)"
  by (induction m) (auto split: if_splits)

lemma map_insert_keys: "fst ` set (map_insert k v m) = insert k (fst ` set m)"
  by (induction m) force+

lemma map_insert_sorted:
  assumes "sorted_wrt (<) (map fst m)"
  shows "sorted_wrt (<) (map fst (map_insert k v m))"
  using assms
proof (induction m)
  case Nil
  then show ?case by simp
next
  case (Cons e m)
  obtain k' v' where e: "e = (k', v')" by fastforce
  consider "k < k'" | "k = k'" | "k' < k" by force
  then show ?case
  proof cases
    case 1
    with Cons.prems e show ?thesis by (auto intro: less_trans)
  next
    case 2
    with Cons.prems e show ?thesis by simp
  next
    case 3
    then have "\<forall>x \<in> set (map_insert k v m). k' < fst x"
      using Cons.prems e map_insert_set [of k v m] by auto
    then show ?thesis using 3 Cons e by auto
  qed
qed

lemma map_insert_lookup:
  "sorted_wrt (<) (map fst m) \<Longrightarrow>
   map_lookup (map_insert k v m) k' =
     (if k = k' then (case map_lookup m k of None \<Rightarrow> Some v | Some w \<Rightarrow> Some w) else map_lookup m k')"
proof (induction m)
  case Nil
  then show ?case by (simp add: map_lookup_def)
next
  case (Cons e m)
  obtain k1 v1 where e: "e = (k1, v1)" by fastforce
  have "k < k1 \<Longrightarrow> map_of m k = None"
    using Cons.prems by (auto simp: e map_of_eq_None_iff dest: less_trans)
  with Cons e show ?case by (auto simp: map_lookup_def)
qed

lemma same_type_refl: "same_type t t"
  by (simp add: same_type_def)

lemma type_id_dictionary:
  "type_id (TDictionary k) = type_id (TDictionary l) \<longleftrightarrow> k = l"
  "type_id (TDictionary k) \<noteq> ''undefined''"
  by (cases k; cases l; simp) (cases k; simp)

lemma type_id_not_dictionary:
  "(\<forall>l. u \<noteq> TDictionary l) \<Longrightarrow> type_id (TDictionary k) \<noteq> type_id u"
  by (cases k; cases u) simp_all

lemma type_id_plain:
  "(\<forall>l. t \<noteq> TDictionary l) \<Longrightarrow> (\<forall>l. u \<noteq> TDictionary l) \<Longrightarrow>
    same_type t u \<longleftrightarrow> t = u \<or> type_id t = ''undefined'' \<and> type_id u = ''undefined''"
  by (cases t; cases u) (simp_all add: same_type_def)

text \<open>Two types are the same for the interpreter when they are equal or both have no id.\<close>

lemma same_type_cases:
  "same_type t u \<longleftrightarrow> t = u \<or> type_id t = ''undefined'' \<and> type_id u = ''undefined''"
proof (cases "\<exists>k. t = TDictionary k")
  case True
  then obtain k where t: "t = TDictionary k" by blast
  show ?thesis
  proof (cases "\<exists>l. u = TDictionary l")
    case True
    then show ?thesis using type_id_dictionary by (auto simp: t same_type_def)
  next
    case False
    then show ?thesis
      using type_id_not_dictionary [of u k] type_id_dictionary(2) [of k] by (auto simp: t same_type_def)
  qed
next
  case not: False
  show ?thesis
  proof (cases "\<exists>l. u = TDictionary l")
    case True
    then obtain l where u: "u = TDictionary l" by blast
    then show ?thesis
      using not type_id_not_dictionary [of t l] type_id_dictionary(2) [of l]
      by (auto simp: same_type_def simp del: type_id.simps)
  next
    case False
    with not show ?thesis by (intro type_id_plain) auto
  qed
qed

end
