(* ===== verification/Flow_Types.thy ===== *)
theory Flow_Types
  imports Flow_Value
begin

text \<open>
  The operations of the value types: libs/flow/src/engine/types/core, builtin, execution and
  entity_utils.hpp. A Type is a static object of functions per value type; here each of its
  operations is one function by cases on the type. What the engine calls outside its own sources
  is in the environment: the floating-point unit, boost::format and boost::replace_all, the
  printing of addresses, and the text a moved-from std::string is left with. Integer arithmetic
  wraps at 64 bits, where C++ leaves overflow undefined.
\<close>

section \<open>The environment\<close>

record fpu =
  fp_of_int :: "int64 \<Rightarrow> real64"
  fp_to_int :: "real64 \<Rightarrow> int64"
  fp_add :: "real64 \<Rightarrow> real64 \<Rightarrow> real64"
  fp_sub :: "real64 \<Rightarrow> real64 \<Rightarrow> real64"
  fp_mul :: "real64 \<Rightarrow> real64 \<Rightarrow> real64"
  fp_eq :: "real64 \<Rightarrow> real64 \<Rightarrow> bool"
  fp_lt :: "real64 \<Rightarrow> real64 \<Rightarrow> bool"
  fp_le :: "real64 \<Rightarrow> real64 \<Rightarrow> bool"
  fp_to_string :: "real64 \<Rightarrow> string"

record runtime =
  rt_fpu :: fpu
  rt_moved_from :: "string \<Rightarrow> string"
  rt_address :: "entity \<Rightarrow> string"
  rt_replace_all :: "string \<Rightarrow> string \<Rightarrow> string \<Rightarrow> string"
  rt_boost_format :: "string \<Rightarrow> string list \<Rightarrow> string option"
  rt_file_path :: string
  rt_start_time :: int

section \<open>Errors\<close>

type_synonym eval_result = "string + entity"

definition quoted :: "string \<Rightarrow> string" where
  "quoted s = CHR 0x27 # s @ [CHR 0x27]"

definition op_not_found2 :: "string \<Rightarrow> string \<Rightarrow> string \<Rightarrow> eval_result" where
  "op_not_found2 op lhs_type rhs_type =
     Inl (''No matching for operator '' @ quoted op @ '' for types '' @ quoted lhs_type
          @ '' and '' @ quoted rhs_type @ '' '')"

definition op_not_found1 :: "string \<Rightarrow> string \<Rightarrow> eval_result" where
  "op_not_found1 op type =
     Inl (''No matching for operator '' @ quoted op @ '' for type '' @ quoted type)"

definition type_not_convertible :: "string \<Rightarrow> string \<Rightarrow> eval_result" where
  "type_not_convertible source destination =
     Inl (''Type '' @ quoted source @ '' not convertible to '' @ quoted destination)"

definition property_not_found :: "string \<Rightarrow> eval_result" where
  "property_not_found name = Inl (''Property '' @ quoted name @ '' not found'')"

definition member_function_not_found :: "string \<Rightarrow> eval_result" where
  "member_function_not_found name = Inl (''Member function '' @ quoted name @ '' not found'')"

definition invalid_assignment :: "string \<Rightarrow> string \<Rightarrow> eval_result" where
  "invalid_assignment expected actual =
     Inl (''Invalid assignent. Expected '' @ quoted expected @ '' while provided a '' @ quoted actual)"

definition invalid_constructor :: "string \<Rightarrow> string \<Rightarrow> eval_result" where
  "invalid_constructor expected actual =
     Inl (''Invalid construction. Expected '' @ quoted expected @ '' while provided a '' @ quoted actual)"

definition invalid_function_call :: "string \<Rightarrow> string \<Rightarrow> string \<Rightarrow> eval_result" where
  "invalid_function_call type fn_name reason =
     Inl (''Invalid call of '' @ quoted (type @ ''.'' @ fn_name) @ '': '' @ reason)"

section \<open>Cells\<close>

text \<open>The address of an entity always holds a cell of its alternative; the last case is unused.\<close>

definition boolean_at :: "heap \<Rightarrow> nat \<Rightarrow> bool" where
  "boolean_at h a = (case shared_get h a of Some (CBoolean b) \<Rightarrow> b | _ \<Rightarrow> False)"

definition integer_at :: "heap \<Rightarrow> nat \<Rightarrow> int64" where
  "integer_at h a = (case shared_get h a of Some (CInteger i) \<Rightarrow> i | _ \<Rightarrow> 0)"

definition real_at :: "heap \<Rightarrow> nat \<Rightarrow> real64" where
  "real_at h a = (case shared_get h a of Some (CReal d) \<Rightarrow> d | _ \<Rightarrow> 0)"

definition string_at :: "heap \<Rightarrow> nat \<Rightarrow> string" where
  "string_at h a = (case shared_get h a of Some (CString s) \<Rightarrow> s | _ \<Rightarrow> [])"

definition duration_at :: "heap \<Rightarrow> nat \<Rightarrow> duration_storage" where
  "duration_at h a = (case shared_get h a of
     Some (CDuration d) \<Rightarrow> d | _ \<Rightarrow> \<lparr>dur_count = 0, dur_unit = Ms\<rparr>)"

definition array_at :: "heap \<Rightarrow> nat \<Rightarrow> entity list" where
  "array_at h a = (case shared_get h a of Some (CArray xs) \<Rightarrow> xs | _ \<Rightarrow> [])"

definition dictionary_at :: "heap \<Rightarrow> nat \<Rightarrow> (string \<times> entity) list" where
  "dictionary_at h a = (case shared_get h a of Some (CDictionary m) \<Rightarrow> m | _ \<Rightarrow> [])"

fun entity_address :: "entity \<Rightarrow> nat option" where
  "entity_address (EBoolean a) = Some a"
| "entity_address (EInteger a) = Some a"
| "entity_address (EReal a) = Some a"
| "entity_address (EString a) = Some a"
| "entity_address (EDuration a) = Some a"
| "entity_address (EArray a) = Some a"
| "entity_address (EDictionary _ a) = Some a"
| "entity_address _ = None"

fun at_address :: "entity \<Rightarrow> nat \<Rightarrow> entity" where
  "at_address (EBoolean _) a = EBoolean a"
| "at_address (EInteger _) a = EInteger a"
| "at_address (EReal _) a = EReal a"
| "at_address (EString _) a = EString a"
| "at_address (EDuration _) a = EDuration a"
| "at_address (EArray _) a = EArray a"
| "at_address (EDictionary k _) a = EDictionary k a"
| "at_address e _ = e"

text \<open>Entity::copy: the handle is detached. (A temporary that is the only handle keeps its cell, which nothing can tell apart.)\<close>

definition copy_entity :: "entity \<Rightarrow> heap \<Rightarrow> entity \<times> heap" where
  "copy_entity e h = (case entity_address e of
     None \<Rightarrow> (e, h)
   | Some a \<Rightarrow> (case shared_get h a of
       None \<Rightarrow> (e, h)
     | Some c \<Rightarrow> (case shared_make h c of (b, h') \<Rightarrow> (at_address e b, h'))))"

definition new_boolean :: "bool \<Rightarrow> heap \<Rightarrow> entity \<times> heap" where
  "new_boolean b h = map_prod EBoolean id (shared_make h (CBoolean b))"

definition new_integer :: "int64 \<Rightarrow> heap \<Rightarrow> entity \<times> heap" where
  "new_integer i h = map_prod EInteger id (shared_make h (CInteger i))"

definition new_string :: "string \<Rightarrow> heap \<Rightarrow> entity \<times> heap" where
  "new_string s h = map_prod EString id (shared_make h (CString s))"

definition new_array :: "entity list \<Rightarrow> heap \<Rightarrow> entity \<times> heap" where
  "new_array xs h = map_prod EArray id (shared_make h (CArray xs))"

definition new_dictionary :: "dictionary_kind \<Rightarrow> (string \<times> entity) list \<Rightarrow> heap \<Rightarrow> entity \<times> heap" where
  "new_dictionary k m h = map_prod (EDictionary k) id (shared_make h (CDictionary m))"

fun new_cell :: "cell \<Rightarrow> heap \<Rightarrow> entity \<times> heap" where
  "new_cell (CBoolean b) h = new_boolean b h"
| "new_cell (CInteger i) h = new_integer i h"
| "new_cell (CReal d) h = map_prod EReal id (shared_make h (CReal d))"
| "new_cell (CString s) h = new_string s h"
| "new_cell (CDuration d) h = map_prod EDuration id (shared_make h (CDuration d))"
| "new_cell (CArray xs) h = new_array xs h"
| "new_cell (CDictionary m) h = new_dictionary Dictionary m h"

section \<open>Representation\<close>

fun show_digits :: "nat \<Rightarrow> string" where
  "show_digits n = (if n < 10 then [char_of (48 + n)] else show_digits (n div 10) @ [char_of (48 + n mod 10)])"

declare show_digits.simps [simp del]

definition show_int64 :: "int64 \<Rightarrow> string" where
  "show_int64 i = (if sint i < 0 then CHR ''-'' # show_digits (nat (- sint i)) else show_digits (nat (sint i)))"

definition show_uint64 :: "uint64 \<Rightarrow> string" where
  "show_uint64 u = show_digits (unat u)"

fun join_all :: "('a \<Rightarrow> string option) \<Rightarrow> 'a list \<Rightarrow> string option" where
  "join_all f [] = Some []"
| "join_all f [x] = f x"
| "join_all f (x # y # ys) =
     (case f x of
        None \<Rightarrow> None
      | Some s \<Rightarrow> (case join_all f (y # ys) of None \<Rightarrow> None | Some t \<Rightarrow> Some (s @ '', '' @ t)))"

text \<open>None: the recursion into arrays and dictionaries goes deeper than the bound (it never ends on a container that contains itself).\<close>

primrec representation :: "nat \<Rightarrow> runtime \<Rightarrow> heap \<Rightarrow> entity \<Rightarrow> string option" where
  "representation 0 rt h e = None"
| "representation (Suc n) rt h e = (case e of
     EError what \<Rightarrow> Some what
   | EVoid \<Rightarrow> Some ''void''
   | EBoolean a \<Rightarrow> Some (if boolean_at h a then ''true'' else ''false'')
   | EInteger a \<Rightarrow> Some (show_int64 (integer_at h a))
   | EReal a \<Rightarrow> Some (fp_to_string (rt_fpu rt) (real_at h a))
   | EString a \<Rightarrow> Some (quoted (string_at h a))
   | EDuration a \<Rightarrow>
       Some (show_uint64 (dur_count (duration_at h a)) @ unit_suffix (dur_unit (duration_at h a)))
   | EArray a \<Rightarrow>
       map_option (\<lambda>s. ''['' @ s @ '']'') (join_all (representation n rt h) (array_at h a))
   | EDictionary _ a \<Rightarrow>
       map_option (\<lambda>s. ''('' @ s @ '')'')
         (join_all (\<lambda>(k, v). map_option (\<lambda>s. k @ ''='' @ s) (representation n rt h v))
           (dictionary_at h a))
   | EWorkflowDefinition w \<Rightarrow>
       Some (''Workflow '' @ quoted (workflow_name w) @ '' defined in '' @ rt_file_path rt)
   | EWorkflowInvocation _ _ _ \<Rightarrow> Some ''Workflow invokation''
   | _ \<Rightarrow> Some (type_name (entity_type_of e) @ ''('' @ rt_address rt e @ '')''))"

section \<open>Construction\<close>

text \<open>
  make_constructor captures one default value per type; every declaration without an initial value
  gets a handle to that same cell. The cells are at fixed addresses of the initial heap.
\<close>

definition initial_heap :: heap where
  "initial_heap =
     [CBoolean False, CInteger 0, CReal 0, CString [],
      CDuration \<lparr>dur_count = 0, dur_unit = Sec\<rparr>, CArray []]"

fun default_value :: "runtime \<Rightarrow> entity_type \<Rightarrow> entity" where
  "default_value rt TBoolean = EBoolean 0"
| "default_value rt TInteger = EInteger 1"
| "default_value rt TReal = EReal 2"
| "default_value rt TString = EString 3"
| "default_value rt TDuration = EDuration 4"
| "default_value rt TArray = EArray 5"
| "default_value rt TTimePoint = ETimePoint (rt_start_time rt)"
| "default_value rt _ = EVoid"

definition make_constructor :: "entity_type \<Rightarrow> entity \<Rightarrow> entity \<Rightarrow> eval_result" where
  "make_constructor t default_val args =
     (if entity_type_of args = TVoid then Inr default_val
      else if entity_type_of args = t then Inr args
      else invalid_constructor (type_name t) (type_name (entity_type_of args)))"

definition dictionary_construct :: "dictionary_kind \<Rightarrow> entity \<Rightarrow> heap \<Rightarrow> eval_result \<times> heap" where
  "dictionary_construct k arg h =
     (if entity_type_of arg = TVoid then apfst Inr (new_dictionary k [] h)
      else if entity_type_of arg = TDictionary k then (Inr arg, h)
      else if entity_type_of arg = TError then (Inr arg, h)
      else (case arg of
          EDictionary Dictionary a \<Rightarrow> apfst Inr (new_dictionary k (dictionary_at h a) h)
        | _ \<Rightarrow> (invalid_constructor (dictionary_kind_name k) (type_name (entity_type_of arg)), h)))"

text \<open>None: the type has no constructor, and calling the empty std::function throws std::bad_function_call.\<close>

fun construct :: "runtime \<Rightarrow> entity_type \<Rightarrow> entity \<Rightarrow> heap \<Rightarrow> (eval_result \<times> heap) option" where
  "construct rt (TDictionary k) arg h = Some (dictionary_construct k arg h)"
| "construct rt TError arg h = None"
| "construct rt TMemberFunction arg h = None"
| "construct rt TFreeFunction arg h = None"
| "construct rt TWorkflowDefinition arg h = None"
| "construct rt TWorkflowInvocation arg h = None"
| "construct rt t arg h = Some (make_constructor t (default_value rt t) arg, h)"

section \<open>Assignment and conversion\<close>

text \<open>
  assign takes the left entity by reference; the result pairs what it returns with the entity the
  reference is left with. The default assignment only rebinds the reference; integers and arrays
  write into the shared cell.
\<close>

definition default_assign :: "entity \<Rightarrow> entity \<Rightarrow> eval_result \<times> entity" where
  "default_assign lhs rhs =
     (if \<not> same_type (entity_type_of lhs) (entity_type_of rhs) \<and> \<not> same_type (entity_type_of rhs) TError
      then (invalid_assignment (type_name (entity_type_of lhs)) (type_name (entity_type_of rhs)), lhs)
      else (Inr rhs, rhs))"

definition array_assign :: "nat \<Rightarrow> entity \<Rightarrow> heap \<Rightarrow> eval_result \<times> heap" where
  "array_assign a rhs h =
     (if \<not> same_type TArray (entity_type_of rhs)
      then (invalid_assignment (type_name TArray) (type_name (entity_type_of rhs)), h)
      else (case rhs of
          EArray b \<Rightarrow> (Inr (EArray a), shared_set h a (CArray (array_at h b)))
        | _ \<Rightarrow> (Inr (EArray a), h)))"

definition integer_assign :: "runtime \<Rightarrow> nat \<Rightarrow> entity \<Rightarrow> heap \<Rightarrow> eval_result \<times> heap" where
  "integer_assign rt a rhs h = (case rhs of
     EInteger b \<Rightarrow> (Inr (EInteger a), shared_set h a (CInteger (integer_at h b)))
   | EReal b \<Rightarrow> (Inr (EInteger a), shared_set h a (CInteger (fp_to_int (rt_fpu rt) (real_at h b))))
   | _ \<Rightarrow> (invalid_assignment (type_name TInteger) (type_name (entity_type_of rhs)), h))"

definition assign :: "runtime \<Rightarrow> entity \<Rightarrow> entity \<Rightarrow> heap \<Rightarrow> eval_result \<times> entity \<times> heap" where
  "assign rt lhs rhs h = (case lhs of
     EInteger a \<Rightarrow> (case integer_assign rt a rhs h of (r, h') \<Rightarrow> (r, lhs, h'))
   | EArray a \<Rightarrow> (case array_assign a rhs h of (r, h') \<Rightarrow> (r, lhs, h'))
   | _ \<Rightarrow> (case default_assign lhs rhs of (r, lhs') \<Rightarrow> (r, lhs', h)))"

definition convert :: "entity \<Rightarrow> entity_type \<Rightarrow> eval_result" where
  "convert arg t =
     (if \<not> same_type (entity_type_of arg) t
      then type_not_convertible (type_name (entity_type_of arg)) (type_name t)
      else Inr arg)"

section \<open>Operators\<close>

datatype binary_op =
    OpMult | OpDiv | OpPlus | OpMinus | OpLess | OpLessEq | OpGreater | OpGreaterEq | OpEq
  | OpNotEq | OpContains | OpAnd | OpOr

fun op_symbol :: "binary_op \<Rightarrow> string" where
  "op_symbol OpMult = ''*''"
| "op_symbol OpDiv = ''/''"
| "op_symbol OpPlus = ''+''"
| "op_symbol OpMinus = ''-''"
| "op_symbol OpLess = ''<''"
| "op_symbol OpLessEq = ''<=''"
| "op_symbol OpGreater = ''>''"
| "op_symbol OpGreaterEq = ''>=''"
| "op_symbol OpEq = ''==''"
| "op_symbol OpNotEq = ''!=''"
| "op_symbol OpContains = ''in''"
| "op_symbol OpAnd = ''and''"
| "op_symbol OpOr = ''or''"

fun unary_symbol :: "unary_operator \<Rightarrow> string" where
  "unary_symbol UnaryPlus = ''+''"
| "unary_symbol UnaryMinus = ''-''"
| "unary_symbol UnaryNot = ''!''"

text \<open>The table of integer.cpp, both right-hand types; None: not an operator of integers.\<close>

fun integer_integer_op :: "binary_op \<Rightarrow> int64 \<Rightarrow> int64 \<Rightarrow> cell option" where
  "integer_integer_op OpMult l r = Some (CBoolean (l = r))"
| "integer_integer_op OpDiv l r = Some (CInteger (l * r))"
| "integer_integer_op OpPlus l r = Some (CInteger (l + r))"
| "integer_integer_op OpMinus l r = Some (CInteger (l - r))"
| "integer_integer_op OpLess l r = Some (CBoolean (sint l < sint r))"
| "integer_integer_op OpLessEq l r = Some (CBoolean (sint l \<le> sint r))"
| "integer_integer_op OpGreater l r = Some (CBoolean (sint r < sint l))"
| "integer_integer_op OpGreaterEq l r = Some (CBoolean (sint r \<le> sint l))"
| "integer_integer_op OpEq l r = Some (CBoolean (l = r))"
| "integer_integer_op OpNotEq l r = Some (CBoolean (l \<noteq> r))"
| "integer_integer_op _ l r = None"

fun integer_real_op :: "fpu \<Rightarrow> binary_op \<Rightarrow> int64 \<Rightarrow> real64 \<Rightarrow> cell option" where
  "integer_real_op fp OpMult l r = Some (CBoolean (fp_eq fp (fp_of_int fp l) r))"
| "integer_real_op fp OpDiv l r = Some (CReal (fp_mul fp (fp_of_int fp l) r))"
| "integer_real_op fp OpPlus l r = Some (CReal (fp_add fp (fp_of_int fp l) r))"
| "integer_real_op fp OpMinus l r = Some (CReal (fp_sub fp (fp_of_int fp l) r))"
| "integer_real_op fp OpLess l r = Some (CBoolean (fp_lt fp (fp_of_int fp l) r))"
| "integer_real_op fp OpLessEq l r = Some (CBoolean (fp_le fp (fp_of_int fp l) r))"
| "integer_real_op fp OpGreater l r = Some (CBoolean (fp_lt fp r (fp_of_int fp l)))"
| "integer_real_op fp OpGreaterEq l r = Some (CBoolean (fp_le fp r (fp_of_int fp l)))"
| "integer_real_op fp OpEq l r = Some (CBoolean (fp_eq fp (fp_of_int fp l) r))"
| "integer_real_op fp OpNotEq l r = Some (CBoolean (\<not> fp_eq fp (fp_of_int fp l) r))"
| "integer_real_op fp _ l r = None"

definition integer_op :: "fpu \<Rightarrow> binary_op \<Rightarrow> nat \<Rightarrow> entity \<Rightarrow> heap \<Rightarrow> cell option" where
  "integer_op fp op a rhs h = (case rhs of
     EInteger b \<Rightarrow> integer_integer_op op (integer_at h a) (integer_at h b)
   | EReal b \<Rightarrow> integer_real_op fp op (integer_at h a) (real_at h b)
   | _ \<Rightarrow> None)"

definition dictionary_contains :: "nat \<Rightarrow> entity \<Rightarrow> heap \<Rightarrow> eval_result \<times> heap" where
  "dictionary_contains a element h = (case element of
     EString s \<Rightarrow> apfst Inr (new_boolean (map_lookup (dictionary_at h a) (string_at h s) \<noteq> None) h)
   | _ \<Rightarrow> (Inl (''Expected a string, got a '' @ type_name (entity_type_of element)), h))"

definition unsupported :: "binary_op \<Rightarrow> entity \<Rightarrow> entity \<Rightarrow> eval_result" where
  "unsupported op lhs rhs =
     op_not_found2 (op_symbol op) (type_name (entity_type_of lhs)) (type_name (entity_type_of rhs))"

definition binary_operation :: "runtime \<Rightarrow> binary_op \<Rightarrow> entity \<Rightarrow> entity \<Rightarrow> heap \<Rightarrow> eval_result \<times> heap" where
  "binary_operation rt op lhs rhs h = (case lhs of
     EInteger a \<Rightarrow> (case integer_op (rt_fpu rt) op a rhs h of
         Some c \<Rightarrow> apfst Inr (new_cell c h)
       | None \<Rightarrow> (unsupported op lhs rhs, h))
   | EDictionary _ a \<Rightarrow>
       (if op = OpContains then dictionary_contains a rhs h else (unsupported op lhs rhs, h))
   | _ \<Rightarrow> (unsupported op lhs rhs, h))"

definition unary_operation :: "unary_operator \<Rightarrow> entity \<Rightarrow> heap \<Rightarrow> eval_result \<times> heap" where
  "unary_operation op arg h = (case (op, arg) of
     (UnaryPlus, EInteger a) \<Rightarrow> (Inr arg, h)
   | (UnaryMinus, EInteger a) \<Rightarrow> apfst Inr (new_integer (- integer_at h a) h)
   | _ \<Rightarrow> (op_not_found1 (unary_symbol op) (type_name (entity_type_of arg)), h))"

section \<open>Properties and member functions\<close>

definition get_property :: "entity \<Rightarrow> string \<Rightarrow> heap \<Rightarrow> eval_result \<times> heap" where
  "get_property self name h = (case self of
     EArray a \<Rightarrow>
       (if name = ''size'' then apfst Inr (new_integer (of_nat (length (array_at h a))) h)
        else (property_not_found name, h))
   | EDictionary k a \<Rightarrow>
       (if name = ''size'' then apfst Inr (new_integer (of_nat (length (dictionary_at h a))) h)
        else if name = ''insert'' then (Inr (EMemberFunction k name), h)
        else (case map_lookup (dictionary_at h a) name of
            Some v \<Rightarrow> (Inr v, h)
          | None \<Rightarrow> (property_not_found name, h)))
   | _ \<Rightarrow> (property_not_found name, h))"

text \<open>
  DictionaryType::insert. The test for uniform arguments is written twice with is_array, so the
  branch that looks up named arguments is only reached by its own condition failing. The key is
  moved out of its cell, which a variable may share.
\<close>

definition dictionary_insert ::
  "runtime \<Rightarrow> dictionary_kind \<Rightarrow> nat \<Rightarrow> call_arguments \<Rightarrow> heap \<Rightarrow> eval_result \<times> heap" where
  "dictionary_insert rt kind a args h =
     (let fail = (\<lambda>reason. (invalid_function_call (dictionary_kind_name kind) ''insert'' reason, h)) in
      if length args \<noteq> 2 then fail ''expecting 2 arguments''
      else if \<not> args_is_array args \<and> \<not> args_is_array args
      then fail ''arguments should all be named or unnamed''
      else (let key = (if args_is_array args then Some (snd (args ! 0)) else find_argument args ''key'');
                val = (if args_is_array args then Some (snd (args ! 1)) else find_argument args ''value'')
            in case key of
                 None \<Rightarrow> fail ''no key provided''
               | Some k \<Rightarrow> (case val of
                   None \<Rightarrow> fail ''no value provided''
                 | Some v \<Rightarrow>
                     (case k of
                        EString s \<Rightarrow>
                          (let text = string_at h s;
                               h1 = shared_set h s (CString (rt_moved_from rt text));
                               h2 = shared_set h1 a (CDictionary (map_insert text v (dictionary_at h1 a)))
                           in (Inr EVoid, h2))
                      | _ \<Rightarrow> fail ''expected a string key''))))"

definition call_mem_function ::
  "runtime \<Rightarrow> entity \<Rightarrow> string \<Rightarrow> call_arguments \<Rightarrow> heap \<Rightarrow> eval_result \<times> heap" where
  "call_mem_function rt self name args h = (case self of
     EDictionary k a \<Rightarrow>
       (if name = ''insert'' then dictionary_insert rt k a args h
        else (member_function_not_found name, h))
   | _ \<Rightarrow> (member_function_not_found name, h))"

section \<open>Free functions\<close>

definition usage :: string where
  "usage = ''Invalid arguments !! Usage: ('' @ quoted ''base string'' @ '', args ...) ''"

text \<open>The loop that turns the placeholders {i} into %i%, from the last argument to the first.\<close>

primrec placeholders :: "runtime \<Rightarrow> nat \<Rightarrow> string \<Rightarrow> string" where
  "placeholders rt 0 base = base"
| "placeholders rt (Suc i) base =
     placeholders rt i
       (rt_replace_all rt base (''{'' @ show_digits (Suc i) @ ''}'') (''%'' @ show_digits (Suc i) @ ''%''))"

fun represent_all :: "('a \<Rightarrow> string option) \<Rightarrow> 'a list \<Rightarrow> string list option" where
  "represent_all f [] = Some []"
| "represent_all f (x # xs) =
     (case f x of
        None \<Rightarrow> None
      | Some s \<Rightarrow> (case represent_all f xs of None \<Rightarrow> None | Some ss \<Rightarrow> Some (s # ss)))"

definition format_args :: "nat \<Rightarrow> runtime \<Rightarrow> heap \<Rightarrow> call_arguments \<Rightarrow> (string + string) option" where
  "format_args n rt h args = (case args of
     (_, EString s) # rest \<Rightarrow>
       (if rest = [] then Some (Inr (string_at h s))
        else (case represent_all (representation n rt h) (map snd rest) of
            None \<Rightarrow> None
          | Some reprs \<Rightarrow>
              (case rt_boost_format rt (placeholders rt (length rest) (string_at h s)) reprs of
                 Some text \<Rightarrow> Some (Inr text)
               | None \<Rightarrow> Some (Inl usage))))
   | _ \<Rightarrow> Some (Inl usage))"

end
