(* ===== verification/Flow_Scope.thy ===== *)
theory Flow_Scope
  imports Flow_Types
begin

text \<open>
  libs/flow/src/engine/eval/evaluation_context.hpp and evaluation_context.cpp: the stack of scopes
  of an evaluation. The stack is a list with the current scope first. The return value of a scope
  is a Shared<Option<Entity>>: local and loop scopes share the cell of the scope they are pushed
  on, a function scope has a cell of its own.
\<close>

section \<open>Scopes\<close>

datatype scope_type = FunctionScope | LoopScope | LocalScope

datatype flow_control_policy = Stay | Return | Break

record variable_entry =
  ve_name :: string
  ve_value :: entity

record scope =
  sc_return :: nat
  sc_type :: scope_type
  sc_policy :: flow_control_policy
  sc_entries :: "variable_entry list"
  sc_types :: "entity_type list"

text \<open>The stack and the cells its return values live in.\<close>

record evaluation_scope =
  es_scopes :: "scope list"
  es_returns :: "entity option store"

definition new_scope :: "nat \<Rightarrow> scope_type \<Rightarrow> scope" where
  "new_scope rv t =
     \<lparr>sc_return = rv, sc_type = t, sc_policy = Stay, sc_entries = [], sc_types = []\<rparr>"

definition scope_add_type :: "scope \<Rightarrow> entity_type \<Rightarrow> scope" where
  "scope_add_type s t = s\<lparr>sc_types := sc_types s @ [t]\<rparr>"

definition scope_add :: "scope \<Rightarrow> string \<Rightarrow> entity \<Rightarrow> scope" where
  "scope_add s name value =
     s\<lparr>sc_entries := sc_entries s @ [\<lparr>ve_name = name, ve_value = value\<rparr>]\<rparr>"

fun free_function_name :: "free_function \<Rightarrow> string" where
  "free_function_name Println = ''println''"
| "free_function_name Panic = ''panic''"
| "free_function_name StrFormat = ''str_format''"

definition scope_add_function :: "scope \<Rightarrow> free_function \<Rightarrow> scope" where
  "scope_add_function s f = scope_add s (free_function_name f) (EFreeFunction f)"

definition scope_find_entity :: "scope \<Rightarrow> string \<Rightarrow> entity option" where
  "scope_find_entity s name =
     map_option ve_value (find (\<lambda>e. ve_name e = name) (rev (sc_entries s)))"

definition scope_find_type :: "scope \<Rightarrow> string \<Rightarrow> entity_type option" where
  "scope_find_type s name = find (\<lambda>t. type_name t = name) (rev (sc_types s))"

section \<open>The stack\<close>

definition current :: "evaluation_scope \<Rightarrow> scope" where
  "current es = hd (es_scopes es)"

definition update_current :: "(scope \<Rightarrow> scope) \<Rightarrow> evaluation_scope \<Rightarrow> evaluation_scope" where
  "update_current f es = (case es_scopes es of
     [] \<Rightarrow> es
   | s # ss \<Rightarrow> es\<lparr>es_scopes := f s # ss\<rparr>)"

definition scope_count :: "evaluation_scope \<Rightarrow> nat" where
  "scope_count es = length (es_scopes es)"

fun push :: "scope_type \<Rightarrow> evaluation_scope \<Rightarrow> evaluation_scope" where
  "push LocalScope es = es\<lparr>es_scopes := new_scope (sc_return (current es)) LocalScope # es_scopes es\<rparr>"
| "push LoopScope es = es\<lparr>es_scopes := new_scope (sc_return (current es)) LoopScope # es_scopes es\<rparr>"
| "push FunctionScope es =
     (case shared_make (es_returns es) None of
        (c, returns) \<Rightarrow>
          es\<lparr>es_scopes := new_scope c FunctionScope # es_scopes es, es_returns := returns\<rparr>)"

definition pop_scope :: "evaluation_scope \<Rightarrow> evaluation_scope" where
  "pop_scope es =
     (let t = sc_type (current es); policy = sc_policy (current es);
          es' = es\<lparr>es_scopes := tl (es_scopes es)\<rparr>;
          set_policy = (\<lambda>p. update_current (\<lambda>s. s\<lparr>sc_policy := p\<rparr>) es')
      in if policy = Stay then es'
         else if policy = Return \<and> t = LoopScope then set_policy Return
         else if policy = Return \<and> t = LocalScope then set_policy Return
         else if policy = Break \<and> t = LoopScope then set_policy Break
         else if policy = Break \<and> t = LocalScope then set_policy Break
         else es')"

definition return_value :: "entity \<Rightarrow> evaluation_scope \<Rightarrow> evaluation_scope" where
  "return_value v es =
     update_current (\<lambda>s. s\<lparr>sc_policy := Return\<rparr>)
       (es\<lparr>es_returns := shared_set (es_returns es) (sc_return (current es)) (Some v)\<rparr>)"

definition break_loop :: "evaluation_scope \<Rightarrow> evaluation_scope" where
  "break_loop es = update_current (\<lambda>s. s\<lparr>sc_policy := Break\<rparr>) es"

fun find_in :: "(scope \<Rightarrow> 'v option) \<Rightarrow> scope list \<Rightarrow> 'v option" where
  "find_in f [] = None"
| "find_in f (s # ss) = (case f s of Some v \<Rightarrow> Some v | None \<Rightarrow> find_in f ss)"

definition find_entity :: "evaluation_scope \<Rightarrow> string \<Rightarrow> entity option" where
  "find_entity es name = find_in (\<lambda>s. scope_find_entity s name) (es_scopes es)"

definition find_type :: "evaluation_scope \<Rightarrow> string \<Rightarrow> entity_type option" where
  "find_type es name = find_in (\<lambda>s. scope_find_type s name) (es_scopes es)"

definition add_entity :: "evaluation_scope \<Rightarrow> string \<Rightarrow> entity \<Rightarrow> evaluation_scope" where
  "add_entity es name value = update_current (\<lambda>s. scope_add s name value) es"

text \<open>The constructor: the global function scope with every type and the free functions.\<close>

definition initial_evaluation_scope :: evaluation_scope where
  "initial_evaluation_scope =
     (let es = push FunctionScope \<lparr>es_scopes = [], es_returns = []\<rparr> in
      update_current (\<lambda>s. foldl scope_add_function (foldl scope_add_type s entity_type_list)
          [Println, Panic, StrFormat]) es)"

section \<open>Facts\<close>

interpretation scope_table: last_wins scope_add scope_find_entity
  by unfold_locales (simp add: scope_add_def scope_find_entity_def)

lemma update_current_count [simp]: "scope_count (update_current f es) = scope_count es"
  by (simp add: update_current_def scope_count_def split: list.split)

lemma scope_count_push [simp]: "scope_count (push t es) = Suc (scope_count es)"
  by (cases t) (simp_all add: scope_count_def split: prod.split)

lemma scope_count_pop: "scope_count (pop_scope es) = scope_count es - 1"
proof -
  have "scope_count (es\<lparr>es_scopes := tl (es_scopes es)\<rparr>) = scope_count es - 1"
    by (simp add: scope_count_def)
  then show ?thesis by (simp add: pop_scope_def Let_def)
qed

lemma scope_count_return [simp]: "scope_count (return_value v es) = scope_count es"
  by (simp add: return_value_def scope_count_def)
    (simp add: update_current_def split: list.split)

lemma scope_count_break [simp]: "scope_count (break_loop es) = scope_count es"
  by (simp add: break_loop_def)

lemma scope_count_add [simp]: "scope_count (add_entity es n v) = scope_count es"
  by (simp add: add_entity_def)

lemma find_entity_add:
  "es_scopes es \<noteq> [] \<Longrightarrow> find_entity (add_entity es n v) m = (if n = m then Some v else find_entity es m)"
  by (cases "es_scopes es")
    (auto simp: find_entity_def add_entity_def update_current_def scope_table.look_add)

lemma find_entity_push [simp]: "find_entity (push t es) n = find_entity es n"
  by (cases t)
    (simp_all add: find_entity_def new_scope_def scope_find_entity_def split: prod.split)

lemma find_type_push [simp]: "find_type (push t es) n = find_type es n"
  by (cases t)
    (simp_all add: find_type_def new_scope_def scope_find_type_def split: prod.split)

text \<open>What leaving a scope does to the policy of the one below.\<close>

lemma pop_policy:
  assumes "es_scopes es = s # t # ss"
  shows "es_scopes (pop_scope es) =
    (if sc_policy s = Stay \<or> sc_type s = FunctionScope then t # ss
     else t\<lparr>sc_policy := sc_policy s\<rparr> # ss)"
  using assms
  by (cases "sc_policy s"; cases "sc_type s")
    (simp_all add: pop_scope_def current_def update_current_def)

lemma pop_returns [simp]: "es_returns (pop_scope es) = es_returns es"
  by (simp add: pop_scope_def Let_def update_current_def split: list.split)

end
