(* ===== verification/Flow_Json.thy ===== *)
theory Flow_Json
  imports Flow_Types
begin

text \<open>
  libs/flow/src/engine/conversion/json.hpp: dictionaries and arrays to boost::json values and
  back. A boost::json object keeps its entries in insertion order; operator[] replaces or appends.
  Values of types that have no JSON form are skipped, nulls are skipped on the way back.
\<close>

datatype json =
    JNull
  | JBool bool
  | JInt64 int64
  | JUint64 uint64
  | JDouble real64
  | JString string
  | JArray "json list"
  | JObject "(string \<times> json) list"

fun object_set :: "(string \<times> json) list \<Rightarrow> string \<Rightarrow> json \<Rightarrow> (string \<times> json) list" where
  "object_set [] k v = [(k, v)]"
| "object_set ((k', v') # m) k v =
     (if k = k' then (k, v) # m else (k', v') # object_set m k v)"

section \<open>To JSON\<close>

text \<open>Some None is "skipped"; None is "does not return" (a container that contains itself).\<close>

fun array_to_json :: "(entity \<Rightarrow> json option option) \<Rightarrow> entity list \<Rightarrow> json list \<Rightarrow> json list option" where
  "array_to_json f [] result = Some result"
| "array_to_json f (x # xs) result = (case f x of
     None \<Rightarrow> None
   | Some None \<Rightarrow> array_to_json f xs result
   | Some (Some j) \<Rightarrow> array_to_json f xs (result @ [j]))"

fun dictionary_to_json ::
  "(entity \<Rightarrow> json option option) \<Rightarrow> (string \<times> entity) list \<Rightarrow> (string \<times> json) list
    \<Rightarrow> (string \<times> json) list option" where
  "dictionary_to_json f [] result = Some result"
| "dictionary_to_json f ((k, x) # xs) result = (case f x of
     None \<Rightarrow> None
   | Some None \<Rightarrow> dictionary_to_json f xs result
   | Some (Some j) \<Rightarrow> dictionary_to_json f xs (object_set result k j))"

primrec entity_to_json :: "nat \<Rightarrow> heap \<Rightarrow> entity \<Rightarrow> json option option" where
  "entity_to_json 0 h e = None"
| "entity_to_json (Suc n) h e = (case e of
     EBoolean a \<Rightarrow> Some (Some (JBool (boolean_at h a)))
   | EInteger a \<Rightarrow> Some (Some (JInt64 (integer_at h a)))
   | EReal a \<Rightarrow> Some (Some (JDouble (real_at h a)))
   | EString a \<Rightarrow> Some (Some (JString (string_at h a)))
   | EArray a \<Rightarrow> map_option (Some \<circ> JArray) (array_to_json (entity_to_json n h) (array_at h a) [])
   | EDictionary Dictionary a \<Rightarrow>
       map_option (Some \<circ> JObject) (dictionary_to_json (entity_to_json n h) (dictionary_at h a) [])
   | _ \<Rightarrow> Some None)"

definition to_json :: "nat \<Rightarrow> heap \<Rightarrow> nat \<Rightarrow> json option" where
  "to_json n h a = map_option JObject (dictionary_to_json (entity_to_json n h) (dictionary_at h a) [])"

section \<open>From JSON\<close>

fun json_to_entity :: "json \<Rightarrow> heap \<Rightarrow> entity option \<times> heap"
  and from_json_array :: "json list \<Rightarrow> heap \<Rightarrow> entity list \<times> heap"
  and from_json_object :: "(string \<times> json) list \<Rightarrow> heap \<Rightarrow> (string \<times> entity) list \<Rightarrow> (string \<times> entity) list \<times> heap"
where
  "json_to_entity JNull h = (None, h)"
| "json_to_entity (JBool b) h = apfst Some (new_boolean b h)"
| "json_to_entity (JInt64 i) h = apfst Some (new_integer i h)"
| "json_to_entity (JUint64 u) h = apfst Some (new_integer u h)"
| "json_to_entity (JDouble d) h = apfst Some (new_cell (CReal d) h)"
| "json_to_entity (JString s) h = apfst Some (new_string s h)"
| "json_to_entity (JArray js) h =
     (case from_json_array js h of (xs, h1) \<Rightarrow> apfst Some (new_array xs h1))"
| "json_to_entity (JObject m) h =
     (case from_json_object m h [] of (xs, h1) \<Rightarrow> apfst Some (new_dictionary Dictionary xs h1))"
| "from_json_array [] h = ([], h)"
| "from_json_array (j # js) h =
     (case json_to_entity j h of
        (None, h1) \<Rightarrow> from_json_array js h1
      | (Some e, h1) \<Rightarrow> apfst (Cons e) (from_json_array js h1))"
| "from_json_object [] h result = (result, h)"
| "from_json_object ((k, j) # m) h result =
     (case json_to_entity j h of
        (None, h1) \<Rightarrow> from_json_object m h1 result
      | (Some e, h1) \<Rightarrow> from_json_object m h1 (map_insert k e result))"

definition from_json :: "json \<Rightarrow> dictionary_kind \<Rightarrow> heap \<Rightarrow> entity \<times> heap" where
  "from_json j k h = (case j of
     JObject m \<Rightarrow> (case from_json_object m h [] of (xs, h1) \<Rightarrow> new_dictionary k xs h1)
   | _ \<Rightarrow> new_dictionary k [] h)"

section \<open>Round trip\<close>

text \<open>JSON values that survive the conversion: no nulls, no unsigned numbers, objects in key order.\<close>

fun clean_json :: "json \<Rightarrow> bool" where
  "clean_json JNull = False"
| "clean_json (JUint64 u) = False"
| "clean_json (JArray js) = (\<forall>j \<in> set js. clean_json j)"
| "clean_json (JObject m) =
     (sorted_wrt (<) (map fst m) \<and> (\<forall>e \<in> set m. clean_json (snd e)))"
| "clean_json _ = True"

fun json_depth :: "json \<Rightarrow> nat" where
  "json_depth (JArray js) = Suc (foldr (\<lambda>j d. max (json_depth j) d) js 0)"
| "json_depth (JObject m) = Suc (foldr (\<lambda>e d. max (json_depth (snd e)) d) m 0)"
| "json_depth _ = 1"

definition reads_as :: "heap \<Rightarrow> nat \<Rightarrow> entity \<Rightarrow> json \<Rightarrow> bool" where
  "reads_as h d e j \<longleftrightarrow> (\<forall>cs n. d \<le> n \<longrightarrow> entity_to_json n (h @ cs) e = Some (Some j))"

lemma reads_as_extend: "reads_as h d e j \<Longrightarrow> d \<le> d' \<Longrightarrow> reads_as (h @ cs) d' e j"
  by (auto simp: reads_as_def)

lemma shared_get_fresh: "shared_get (h @ c # cs) (length h) = Some c"
  by (simp add: shared_get_def)

lemmas fresh_cell_defs =
  new_boolean_def new_integer_def new_string_def new_array_def new_dictionary_def shared_make_def

lemmas cell_reads =
  boolean_at_def integer_at_def real_at_def string_at_def array_at_def dictionary_at_def
  shared_get_fresh

lemma object_set_new: "k \<notin> fst ` set m \<Longrightarrow> object_set m k v = m @ [(k, v)]"
  by (induction m) auto

lemma map_insert_last: "\<forall>k' \<in> fst ` set m. k' < k \<Longrightarrow> map_insert k v m = m @ [(k, v)]"
  by (induction m) auto

lemma array_to_json_reads:
  "list_all2 (\<lambda>e j. f e = Some (Some j)) es js \<Longrightarrow> array_to_json f es acc = Some (acc @ js)"
  by (induction es arbitrary: js acc) (auto simp: list_all2_Cons1)

lemma dictionary_to_json_reads:
  "list_all2 (\<lambda>e j. fst e = fst j \<and> f (snd e) = Some (Some (snd j))) es js \<Longrightarrow>
   sorted_wrt (<) (map fst (acc @ js)) \<Longrightarrow> dictionary_to_json f es acc = Some (acc @ js)"
proof (induction es arbitrary: js acc)
  case Nil
  then show ?case by simp
next
  case (Cons e es)
  then obtain j js' where js: "js = j # js'" "fst e = fst j" "f (snd e) = Some (Some (snd j))"
    by (auto simp: list_all2_Cons1)
  have "fst j \<notin> fst ` set acc" using Cons.prems(2) js by (auto simp: sorted_wrt_append)
  then have "object_set acc (fst j) (snd j) = acc @ [j]" by (simp add: object_set_new)
  moreover have "dictionary_to_json f es (acc @ [j]) = Some ((acc @ [j]) @ js')"
    using Cons js by (intro Cons.IH) auto
  ultimately show ?case using js by (cases e) simp
qed

lemma reads_leaf:
  "reads_as (h @ [CBoolean b]) (Suc 0) (EBoolean (length h)) (JBool b)"
  "reads_as (h @ [CInteger i]) (Suc 0) (EInteger (length h)) (JInt64 i)"
  "reads_as (h @ [CReal d]) (Suc 0) (EReal (length h)) (JDouble d)"
  "reads_as (h @ [CString s]) (Suc 0) (EString (length h)) (JString s)"
  by (auto simp: reads_as_def cell_reads Suc_le_eq gr0_conv_Suc)

lemma reads_as_all_weaken:
  "list_all2 (reads_as h d) es js \<Longrightarrow> d \<le> d' \<Longrightarrow> list_all2 (reads_as (h @ cs) d') es js"
  by (erule list_all2_mono) (rule reads_as_extend)

lemma json_to_entity_reads:
  "clean_json j \<Longrightarrow> \<exists>e cs. json_to_entity j h = (Some e, h @ cs) \<and> reads_as (h @ cs) (json_depth j) e j"
  and from_json_array_reads:
  "\<forall>j \<in> set js. clean_json j \<Longrightarrow> \<exists>es cs. from_json_array js h = (es, h @ cs)
     \<and> list_all2 (reads_as (h @ cs) (foldr (\<lambda>j d. max (json_depth j) d) js 0)) es js"
  and from_json_object_reads:
  "\<forall>e \<in> set m. clean_json (snd e) \<Longrightarrow> sorted_wrt (<) (map fst acc @ map fst m) \<Longrightarrow>
     \<exists>es cs. from_json_object m h acc = (acc @ es, h @ cs)
     \<and> list_all2 (\<lambda>e j. fst e = fst j \<and>
          reads_as (h @ cs) (foldr (\<lambda>e d. max (json_depth (snd e)) d) m 0) (snd e) (snd j)) es m"
proof (induction j h and js h and m h acc rule: json_to_entity_from_json_array_from_json_object.induct)
  case (7 js h)
  then obtain es cs where es: "from_json_array js h = (es, h @ cs)"
    "list_all2 (reads_as (h @ cs) (foldr (\<lambda>j d. max (json_depth j) d) js 0)) es js" by auto
  let ?d = "foldr (\<lambda>j d. max (json_depth j) d) js 0"
  have "reads_as (h @ cs @ [CArray es]) (Suc ?d) (EArray (length (h @ cs))) (JArray js)"
    unfolding reads_as_def
  proof (intro allI impI)
    fix cs' n assume "Suc ?d \<le> n"
    then obtain m where n: "n = Suc m" "?d \<le> m" by (cases n) auto
    let ?h = "(h @ cs @ [CArray es]) @ cs'"
    have "list_all2 (\<lambda>e j. entity_to_json m ?h e = Some (Some j)) es js"
      using es(2) by (rule list_all2_mono) (use n(2) in \<open>simp add: reads_as_def\<close>)
    then have "array_to_json (entity_to_json m ?h) es [] = Some js"
      using array_to_json_reads by fastforce
    moreover have "array_at ?h (length (h @ cs)) = es"
      using shared_get_fresh [of "h @ cs" "CArray es" cs'] by (simp add: array_at_def)
    ultimately show "entity_to_json n ?h (EArray (length (h @ cs))) = Some (Some (JArray js))"
      by (simp add: n(1))
  qed
  with es(1) show ?case by (simp add: fresh_cell_defs)
next
  case (8 m h)
  then obtain es cs where es: "from_json_object m h [] = (es, h @ cs)"
    "list_all2 (\<lambda>e j. fst e = fst j \<and>
       reads_as (h @ cs) (foldr (\<lambda>e d. max (json_depth (snd e)) d) m 0) (snd e) (snd j)) es m" by auto
  let ?d = "foldr (\<lambda>e d. max (json_depth (snd e)) d) m 0"
  have "reads_as (h @ cs @ [CDictionary es]) (Suc ?d) (EDictionary Dictionary (length (h @ cs))) (JObject m)"
    unfolding reads_as_def
  proof (intro allI impI)
    fix cs' n assume "Suc ?d \<le> n"
    then obtain k where n: "n = Suc k" "?d \<le> k" by (cases n) auto
    let ?h = "(h @ cs @ [CDictionary es]) @ cs'"
    have "list_all2 (\<lambda>e j. fst e = fst j \<and> entity_to_json k ?h (snd e) = Some (Some (snd j))) es m"
      using es(2) by (rule list_all2_mono) (use n(2) in \<open>simp add: reads_as_def\<close>)
    then have "dictionary_to_json (entity_to_json k ?h) es [] = Some ([] @ m)"
      by (rule dictionary_to_json_reads) (use 8 in simp)
    moreover have "dictionary_at ?h (length (h @ cs)) = es"
      using shared_get_fresh [of "h @ cs" "CDictionary es" cs'] by (simp add: dictionary_at_def)
    ultimately show "entity_to_json n ?h (EDictionary Dictionary (length (h @ cs))) = Some (Some (JObject m))"
      by (simp add: n(1))
  qed
  with es(1) show ?case by (simp add: fresh_cell_defs)
next
  case (10 j js h)
  from 10(1) 10(4) obtain e cs where e: "json_to_entity j h = (Some e, h @ cs)"
    "reads_as (h @ cs) (json_depth j) e j" by auto
  from 10(3) [OF e(1) [symmetric]] 10(4) obtain es cs' where es: "from_json_array js (h @ cs) = (es, h @ cs @ cs')"
    "list_all2 (reads_as (h @ cs @ cs') (foldr (\<lambda>j d. max (json_depth j) d) js 0)) es js" by auto
  have "reads_as (h @ cs @ cs') (foldr (\<lambda>j d. max (json_depth j) d) (j # js) 0) e j"
    using reads_as_extend [OF e(2), of _ cs'] by simp
  moreover have "list_all2 (reads_as (h @ cs @ cs') (foldr (\<lambda>j d. max (json_depth j) d) (j # js) 0)) es js"
    using reads_as_all_weaken [OF es(2), of _ "[]"] by simp
  ultimately show ?case using e(1) es(1) by auto
next
  case (12 k j m h result)
  from 12(1) 12(4) obtain e cs where e: "json_to_entity j h = (Some e, h @ cs)"
    "reads_as (h @ cs) (json_depth j) e j" by auto
  have ins: "map_insert k e result = result @ [(k, e)]"
    using 12(5) by (intro map_insert_last) (auto simp: sorted_wrt_append)
  from 12(3) [OF e(1) [symmetric]] 12(4,5) ins obtain es cs'
    where es: "from_json_object m (h @ cs) (map_insert k e result) = (map_insert k e result @ es, h @ cs @ cs')"
    "list_all2 (\<lambda>e j. fst e = fst j \<and> reads_as (h @ cs @ cs')
       (foldr (\<lambda>e d. max (json_depth (snd e)) d) m 0) (snd e) (snd j)) es m" by auto
  let ?d = "foldr (\<lambda>e d. max (json_depth (snd e)) d) ((k, j) # m) 0"
  have "reads_as (h @ cs @ cs') ?d e j" using reads_as_extend [OF e(2), of _ cs'] by simp
  moreover have "list_all2 (\<lambda>e j. fst e = fst j \<and> reads_as (h @ cs @ cs') ?d (snd e) (snd j)) es m"
    using es(2) by (rule list_all2_mono) (use reads_as_extend [of "h @ cs @ cs'" _ _ _ ?d "[]"] in auto)
  ultimately show ?case using e(1) es(1) ins by auto
qed (auto simp: fresh_cell_defs intro!: reads_leaf)

text \<open>A dictionary that contains itself has no JSON form, however deep the recursion may go.\<close>

lemma dictionary_to_json_stuck:
  "e \<in> set xs \<Longrightarrow> f (snd e) = None \<Longrightarrow> dictionary_to_json f xs acc = None"
  by (induction f xs acc rule: dictionary_to_json.induct) (auto split: option.splits)

lemma self_entity_to_json:
  assumes "(k, EDictionary Dictionary a) \<in> set (dictionary_at h a)"
  shows "entity_to_json n h (EDictionary Dictionary a) = None"
proof (induction n)
  case 0
  then show ?case by simp
next
  case (Suc n)
  then show ?case using dictionary_to_json_stuck [OF assms, of "entity_to_json n h"] by simp
qed

section \<open>Properties\<close>

lemma json_reads_back:
  assumes "clean_json (JObject m)"
  shows "\<exists>a cs. from_json (JObject m) k h = (EDictionary k a, h @ cs)
    \<and> (\<forall>n. json_depth (JObject m) \<le> n \<longrightarrow> to_json n (h @ cs) a = Some (JObject m))"
proof -
  from from_json_object_reads [of m "[]" h] assms obtain es cs
    where es: "from_json_object m h [] = (es, h @ cs)"
      "list_all2 (\<lambda>e j. fst e = fst j \<and>
        reads_as (h @ cs) (foldr (\<lambda>e d. max (json_depth (snd e)) d) m 0) (snd e) (snd j)) es m" by auto
  let ?h = "h @ cs @ [CDictionary es]" and ?a = "length (h @ cs)"
  have "to_json n ?h ?a = Some (JObject m)" if "json_depth (JObject m) \<le> n" for n
  proof -
    have "list_all2 (\<lambda>e j. fst e = fst j \<and> entity_to_json n ?h (snd e) = Some (Some (snd j))) es m"
      using es(2)
    proof (rule list_all2_mono)
      fix e j assume "fst e = fst j \<and>
        reads_as (h @ cs) (foldr (\<lambda>e d. max (json_depth (snd e)) d) m 0) (snd e) (snd j)"
      then show "fst e = fst j \<and> entity_to_json n ?h (snd e) = Some (Some (snd j))"
        using that by (simp add: reads_as_def flip: append_assoc)
    qed
    then have "dictionary_to_json (entity_to_json n ?h) es [] = Some ([] @ m)"
      by (rule dictionary_to_json_reads) (use assms in simp)
    moreover have "dictionary_at ?h ?a = es"
      using shared_get_fresh [of "h @ cs" "CDictionary es" "[]"] by (simp add: dictionary_at_def)
    ultimately show ?thesis by (simp add: to_json_def)
  qed
  moreover have "from_json (JObject m) k h = (EDictionary k ?a, ?h)"
    using es(1) by (simp add: from_json_def fresh_cell_defs)
  ultimately show ?thesis by blast
qed



text \<open>A dictionary that was inserted into itself can be neither printed nor sent: both
  recursions go on for ever.\<close>

theorem self_containing_dictionary_diverges:
  assumes "(k, EDictionary Dictionary a) \<in> set (dictionary_at h a)"
  shows "representation n rt h (EDictionary Dictionary a) = None \<and> to_json n h a = None"
proof
  show "to_json n h a = None"
    using dictionary_to_json_stuck [OF assms, of "entity_to_json n h"] self_entity_to_json [OF assms]
    by (simp add: to_json_def)
  show "representation n rt h (EDictionary Dictionary a) = None"
  proof (induction n)
    case 0
    then show ?case by simp
  next
    case (Suc n)
    have "join_all f xs = None" if "x \<in> set xs" "f x = None" for f :: "string \<times> entity \<Rightarrow> string option" and x xs
      using that
    proof (induction f xs rule: join_all.induct)
      case (3 f y z zs)
      then show ?case by (cases "f y") auto
    qed auto
    from this [OF assms, of "\<lambda>(k, v). map_option (\<lambda>s. k @ ''='' @ s) (representation n rt h v)"]
    show ?case using Suc by simp
  qed
qed

theorem self_containing_dictionary_diverges_witness:
  "\<forall>rt. to_json 50 (snd (dictionary_insert rt Dictionary 1
      [(None, EString 0), (None, EDictionary Dictionary 1)] [CString ''me'', CDictionary []])) 1 = None"
proof
  fix rt
  let ?h = "snd (dictionary_insert rt Dictionary 1
      [(None, EString 0), (None, EDictionary Dictionary 1)] [CString ''me'', CDictionary []])"
  have "(''me'', EDictionary Dictionary 1) \<in> set (dictionary_at ?h 1)"
    by (simp add: dictionary_insert_def args_is_array_def string_at_def dictionary_at_def
        shared_get_def shared_set_def Let_def)
  from self_containing_dictionary_diverges [OF this] show "to_json 50 ?h 1 = None" by blast
qed

end
