(* ===== verification/Flow_Interp.thy ===== *)
theory Flow_Interp
  imports Flow_Scope Flow_Json
begin

text \<open>
  The interpreter: libs/flow/src/engine/eval. An evaluation is a function from the interpreter's
  state to an outcome and a state. Nested evaluations go through a record of evaluators that
  interp ties with one fuel argument, so every rule of the interpreter is a plain definition.

  Time is a virtual clock in milliseconds: evaluation takes none, delays and the replies of the
  delegates do. async::when_any(work, delay(d)) runs the work with the deadline now + d; waiting
  beyond the deadline cuts the work short (Cut), which unwinds it the way the destruction of its
  coroutine frames does: the RAII scope guards run, code after a co_await does not. Work that ends
  at the very instant of the deadline counts as in time.
\<close>

section \<open>State and outcomes\<close>

datatype flow_exn =
    EvaluationError string
  | PanicError string
  | StdException string
  | Undefined

datatype 'a outcome = Done 'a | Throw flow_exn | Cut | OutOfFuel

datatype out_event =
    Stdout string
  | Trace string
  | Request dictionary_kind json

record interp =
  in_scope :: evaluation_scope
  in_heap :: heap
  in_clock :: int
  in_deadline :: "int option"
  in_output :: "out_event list"

type_synonym 'a comp = "interp \<Rightarrow> 'a outcome \<times> interp"

definition return_m :: "'a \<Rightarrow> 'a comp" where
  "return_m x s = (Done x, s)"

definition throw_m :: "flow_exn \<Rightarrow> 'a comp" where
  "throw_m e s = (Throw e, s)"

definition no_fuel :: "'a comp" where
  "no_fuel s = (OutOfFuel, s)"

definition bind_m :: "'a comp \<Rightarrow> ('a \<Rightarrow> 'b comp) \<Rightarrow> 'b comp" where
  "bind_m m f s = (case m s of
     (Done x, s') \<Rightarrow> f x s'
   | (Throw e, s') \<Rightarrow> (Throw e, s')
   | (Cut, s') \<Rightarrow> (Cut, s')
   | (OutOfFuel, s') \<Rightarrow> (OutOfFuel, s'))"

text \<open>EZ_ON_SCOPE_EXIT: the action runs however the block is left.\<close>

definition on_scope_exit :: "(interp \<Rightarrow> interp) \<Rightarrow> 'a comp \<Rightarrow> 'a comp" where
  "on_scope_exit act m s = (case m s of (r, s') \<Rightarrow> (r, act s'))"

definition get_m :: "(interp \<Rightarrow> 'a) \<Rightarrow> 'a comp" where
  "get_m f s = (Done (f s), s)"

definition modify_scope :: "(evaluation_scope \<Rightarrow> evaluation_scope) \<Rightarrow> unit comp" where
  "modify_scope f s = (Done (), s\<lparr>in_scope := f (in_scope s)\<rparr>)"

definition emit :: "out_event \<Rightarrow> unit comp" where
  "emit x s = (Done (), s\<lparr>in_output := in_output s @ [x]\<rparr>)"

definition heap_m :: "(heap \<Rightarrow> 'a \<times> heap) \<Rightarrow> 'a comp" where
  "heap_m f s = (case f (in_heap s) of (x, h) \<Rightarrow> (Done x, s\<lparr>in_heap := h\<rparr>))"

text \<open>entity::ensure_value: the error of a result is thrown.\<close>

definition ensure_value :: "eval_result \<Rightarrow> entity comp" where
  "ensure_value r = (case r of Inl msg \<Rightarrow> throw_m (EvaluationError msg) | Inr e \<Rightarrow> return_m e)"

definition ensured :: "(heap \<Rightarrow> eval_result \<times> heap) \<Rightarrow> entity comp" where
  "ensured f = bind_m (heap_m f) ensure_value"

text \<open>entity::construct, then ensure_value; a type without a constructor throws from the empty std::function.\<close>

definition construct_m :: "runtime \<Rightarrow> entity_type \<Rightarrow> entity \<Rightarrow> entity comp" where
  "construct_m rt t arg s = (case construct rt t arg (in_heap s) of
     None \<Rightarrow> (Throw (StdException ''bad_function_call''), s)
   | Some (r, h) \<Rightarrow> ensure_value r (s\<lparr>in_heap := h\<rparr>))"

definition of_option :: "'a option \<Rightarrow> 'a comp" where
  "of_option x = (case x of Some y \<Rightarrow> return_m y | None \<Rightarrow> no_fuel)"

section \<open>Waiting\<close>

definition wait_until :: "int \<Rightarrow> unit comp" where
  "wait_until t s = (case in_deadline s of
     Some d \<Rightarrow> (if d < t then (Cut, s\<lparr>in_clock := max (in_clock s) d\<rparr>)
                else (Done (), s\<lparr>in_clock := max (in_clock s) t\<rparr>))
   | None \<Rightarrow> (Done (), s\<lparr>in_clock := max (in_clock s) t\<rparr>))"

definition delay :: "int \<Rightarrow> unit comp" where
  "delay d s = wait_until (in_clock s + d) s"

text \<open>when_any of the work and a delay: None is the timeout.\<close>

definition with_timeout :: "int \<Rightarrow> 'a comp \<Rightarrow> 'a option comp" where
  "with_timeout d m s =
     (let outer = in_deadline s; own = in_clock s + d;
          dl = (case outer of None \<Rightarrow> own | Some t \<Rightarrow> min own t)
      in case m (s\<lparr>in_deadline := Some dl\<rparr>) of
           (r, s') \<Rightarrow>
             (let s2 = s'\<lparr>in_deadline := outer\<rparr> in
              case r of
                Done x \<Rightarrow> (Done (Some x), s2)
              | Throw e \<Rightarrow> (Throw e, s2)
              | OutOfFuel \<Rightarrow> (OutOfFuel, s2)
              | Cut \<Rightarrow> (if dl = own then (Done None, s2) else (Cut, s2))))"

section \<open>The environment of an evaluation\<close>

text \<open>A delegate answers a request after some time, fails after some time, or never answers.\<close>

datatype reply = Reply int json | ReplyFails int flow_exn | NoReply

record extensions =
  run_action_delegate :: "(json \<Rightarrow> reply) option"
  run_campaign_delegate :: "(json \<Rightarrow> reply) option"
  request_device_info_delegate :: "(json \<Rightarrow> reply) option"
  http_request_delegate :: "(json \<Rightarrow> reply) option"

record environment =
  ev_runtime :: runtime
  ev_extensions :: extensions
  ev_program :: program
  ev_max_loop_count :: nat

record evaluators =
  ev_expression :: "expression \<Rightarrow> entity comp"
  ev_statement :: "workflow_statement \<Rightarrow> unit comp"
  ev_depth :: nat

section \<open>Literals, paths and calls\<close>

fun to_value :: "literal \<Rightarrow> heap \<Rightarrow> entity \<times> heap" where
  "to_value (LString s) h = new_string s h"
| "to_value (LInteger i) h = new_integer i h"
| "to_value (LReal d) h = new_cell (CReal d) h"
| "to_value (LDuration n u) h = new_cell (CDuration \<lparr>dur_count = n, dur_unit = u\<rparr>) h"
| "to_value (LBoolean b) h = new_boolean b h"

definition eval_literal :: "literal \<Rightarrow> entity comp" where
  "eval_literal l = heap_m (to_value l)"

fun eval_properties :: "ident list \<Rightarrow> entity \<Rightarrow> entity comp" where
  "eval_properties [] result = return_m result"
| "eval_properties (i # is) result =
     bind_m (ensured (get_property result i)) (eval_properties is)"

definition eval_path :: "ident list \<Rightarrow> entity comp" where
  "eval_path path = (case path of
     [] \<Rightarrow> throw_m Undefined
   | i # is \<Rightarrow>
       bind_m (get_m (\<lambda>s. find_entity (in_scope s) i)) (\<lambda>entry.
         case entry of
           None \<Rightarrow> throw_m (EvaluationError (''Use of undeclared identifier '' @ quoted i))
         | Some e \<Rightarrow> eval_properties is e))"

fun eval_call_arguments ::
  "evaluators \<Rightarrow> (ident option \<times> expression) list \<Rightarrow> call_arguments \<Rightarrow> call_arguments comp" where
  "eval_call_arguments ev [] args = return_m args"
| "eval_call_arguments ev ((name, value) # rest) args =
     bind_m (ev_expression ev value) (\<lambda>v. eval_call_arguments ev rest (push_argument args name v))"

definition call_free_function ::
  "environment \<Rightarrow> evaluators \<Rightarrow> free_function \<Rightarrow> call_arguments \<Rightarrow> entity comp" where
  "call_free_function env ev f args = (case f of
     Println \<Rightarrow>
       bind_m (get_m in_heap) (\<lambda>h.
       bind_m (of_option (format_args (ev_depth ev) (ev_runtime env) h args)) (\<lambda>text.
       bind_m (emit (Stdout (''[FLOW] '' @ (case text of Inl e \<Rightarrow> e | Inr t \<Rightarrow> t)))) (\<lambda>_.
       return_m EVoid)))
   | Panic \<Rightarrow>
       bind_m (get_m in_heap) (\<lambda>h.
       bind_m (of_option (represent_all (representation (ev_depth ev) (ev_runtime env) h) (map snd args)))
         (\<lambda>reprs. throw_m (PanicError (concat (map (\<lambda>r. r @ '' '') reprs)))))
   | StrFormat \<Rightarrow>
       bind_m (get_m in_heap) (\<lambda>h.
       bind_m (of_option (format_args (ev_depth ev) (ev_runtime env) h args)) (\<lambda>text.
       case text of
         Inl e \<Rightarrow> throw_m (EvaluationError e)
       | Inr t \<Rightarrow> heap_m (new_string t))))"

definition eval_function_call :: "environment \<Rightarrow> evaluators \<Rightarrow> function_call \<Rightarrow> entity comp" where
  "eval_function_call env ev call =
     (let path = path_names (call_path call) in
      bind_m (eval_path path) (\<lambda>callable.
        case callable of
          EFreeFunction f \<Rightarrow>
            bind_m (eval_call_arguments ev (call_arguments call) []) (call_free_function env ev f)
        | EWorkflowDefinition w \<Rightarrow>
            bind_m (eval_call_arguments ev (call_arguments call) []) (\<lambda>args.
              return_m (EWorkflowInvocation w (CallStatement call) args))
        | EMemberFunction _ _ \<Rightarrow>
            bind_m (eval_path (butlast path)) (\<lambda>self.
            bind_m (eval_call_arguments ev (call_arguments call) []) (\<lambda>args.
              ensured (call_mem_function (ev_runtime env) self (last path) args)))
        | _ \<Rightarrow> throw_m (EvaluationError
                 (quoted (get_code (ev_program env) (path_loc (call_path call))) @ '' is not a callable''))))"

fun eval_elements :: "evaluators \<Rightarrow> expression list \<Rightarrow> entity list \<Rightarrow> entity list comp" where
  "eval_elements ev [] xs = return_m xs"
| "eval_elements ev (e # es) xs = bind_m (ev_expression ev e) (\<lambda>x. eval_elements ev es (xs @ [x]))"

definition eval_array :: "evaluators \<Rightarrow> expression list \<Rightarrow> entity comp" where
  "eval_array ev es = bind_m (eval_elements ev es []) (\<lambda>xs. heap_m (new_array xs))"

fun eval_entries ::
  "evaluators \<Rightarrow> (ident \<times> expression) list \<Rightarrow> (string \<times> entity) list \<Rightarrow> (string \<times> entity) list comp" where
  "eval_entries ev [] m = return_m m"
| "eval_entries ev ((k, e) # es) m =
     bind_m (ev_expression ev e) (\<lambda>x. eval_entries ev es (map_insert k x m))"

definition eval_dictionary :: "evaluators \<Rightarrow> (ident \<times> expression) list \<Rightarrow> entity comp" where
  "eval_dictionary ev es = bind_m (eval_entries ev es []) (\<lambda>m. heap_m (new_dictionary Dictionary m))"

section \<open>Scopes and blocks\<close>

fun eval_statements :: "evaluators \<Rightarrow> workflow_statement list \<Rightarrow> unit comp" where
  "eval_statements ev [] = return_m ()"
| "eval_statements ev (st # sts) =
     bind_m (ev_statement ev st) (\<lambda>_.
     bind_m (get_m (\<lambda>s. sc_policy (current (in_scope s)))) (\<lambda>policy.
       if policy \<noteq> Stay then return_m () else eval_statements ev sts))"

definition eval_scope :: "evaluators \<Rightarrow> scope_type \<Rightarrow> workflow_statement list \<Rightarrow> unit comp" where
  "eval_scope ev t sts =
     bind_m (modify_scope (push t)) (\<lambda>_.
       on_scope_exit (\<lambda>s. s\<lparr>in_scope := pop_scope (in_scope s)\<rparr>) (eval_statements ev sts))"

section \<open>Workflow invocations\<close>

text \<open>The loop over the declared inputs: find the argument by name or position, check its type, bind it.\<close>

fun bind_inputs ::
  "call_arguments \<Rightarrow> instanciation \<Rightarrow> ident \<Rightarrow> nat \<Rightarrow> (ident \<times> ident) list \<Rightarrow> unit comp" where
  "bind_inputs args inst first_type index [] = return_m ()"
| "bind_inputs args inst first_type index ((name, type) # rest) =
     (let arg = (case find_argument args name of Some e \<Rightarrow> e | None \<Rightarrow> snd (args ! index)) in
      bind_m (get_m (\<lambda>s. find_type (in_scope s) type)) (\<lambda>expected.
        case expected of
          None \<Rightarrow> (case inst of
              CallStatement _ \<Rightarrow> throw_m (EvaluationError (''Type '' @ first_type @ '' not found''))
            | ExpressionInstance _ \<Rightarrow> throw_m (StdException ''bad_variant_access''))
        | Some t \<Rightarrow>
            (if \<not> same_type t (entity_type_of arg)
             then (case inst of
                 CallStatement _ \<Rightarrow> throw_m (EvaluationError
                   (''Type mismatch for argument '' @ quoted name @ '': expected a '' @ quoted type
                     @ '' while got a '' @ quoted (type_name (entity_type_of arg))))
               | ExpressionInstance _ \<Rightarrow> throw_m (StdException ''bad_variant_access''))
             else bind_m (modify_scope (\<lambda>es. add_entity es name arg)) (\<lambda>_.
                    bind_inputs args inst first_type (Suc index) rest))))"

definition bind_arguments :: "call_arguments \<Rightarrow> instanciation \<Rightarrow> signature option \<Rightarrow> unit comp" where
  "bind_arguments args inst sig = (case sig of
     None \<Rightarrow> return_m ()
   | Some sg \<Rightarrow>
       (if length args \<noteq> length (inputs sg)
        then (case inst of
            CallStatement _ \<Rightarrow> throw_m (EvaluationError (''Invalid argument count: expected ''
              @ show_digits (length args) @ '' arguments''))
          | ExpressionInstance _ \<Rightarrow> throw_m (StdException ''bad_variant_access''))
        else bind_inputs args inst (case inputs sg of (_, t) # _ \<Rightarrow> t | [] \<Rightarrow> []) 0 (inputs sg)))"

definition return_type_of :: "signature option \<Rightarrow> ident option" where
  "return_type_of sig = (case sig of None \<Rightarrow> None | Some sg \<Rightarrow> return_type sg)"

text \<open>The checks after the body: the cell is the return value of the invocation's function scope.\<close>

definition invocation_value :: "instanciation \<Rightarrow> entity_type \<Rightarrow> nat \<Rightarrow> entity comp" where
  "invocation_value inst expected return_cell =
     bind_m (get_m (\<lambda>s. case shared_get (es_returns (in_scope s)) return_cell of
                          Some v \<Rightarrow> v | None \<Rightarrow> None)) (\<lambda>value.
       if value = None \<and> \<not> same_type expected TVoid
       then (case inst of
           CallStatement _ \<Rightarrow> throw_m (EvaluationError ''Workflow did not return any value'')
         | ExpressionInstance _ \<Rightarrow> throw_m (StdException ''bad_variant_access''))
       else (let result = (case value of Some e \<Rightarrow> e | None \<Rightarrow> EVoid) in
         if \<not> same_type (entity_type_of result) expected \<and> \<not> same_type (entity_type_of result) TError
         then throw_m (EvaluationError (''Invalid return type: expected a '' @ type_name expected
                @ '', got a '' @ type_name (entity_type_of result)))
         else return_m result))"

definition eval_invocation ::
  "evaluators \<Rightarrow> workflow_definition \<Rightarrow> instanciation \<Rightarrow> call_arguments \<Rightarrow> entity comp" where
  "eval_invocation ev w inst args =
     bind_m (case return_type_of (workflow_signature w) of
         None \<Rightarrow> return_m TVoid
       | Some name \<Rightarrow>
           bind_m (get_m (\<lambda>s. find_type (in_scope s) name)) (\<lambda>t.
             case t of
               None \<Rightarrow> throw_m (EvaluationError (''Unknown return type '' @ name @ '' not found''))
             | Some t \<Rightarrow> return_m t)) (\<lambda>expected.
     bind_m (modify_scope (push FunctionScope)) (\<lambda>_.
     bind_m
       (bind_m (get_m (\<lambda>s. sc_return (current (in_scope s)))) (\<lambda>return_cell.
        bind_m (bind_arguments args inst (workflow_signature w)) (\<lambda>_.
        bind_m (eval_scope ev LocalScope (workflow_statements w)) (\<lambda>_.
        invocation_value inst expected return_cell))))
       (\<lambda>result. bind_m (modify_scope pop_scope) (\<lambda>_. return_m result))))"

section \<open>Await and try\<close>

definition eval_timeout :: "evaluators \<Rightarrow> expression \<Rightarrow> duration_storage comp" where
  "eval_timeout ev duration =
     bind_m (ev_expression ev duration) (\<lambda>timeout.
       case timeout of
         EDuration a \<Rightarrow>
           bind_m (get_m (\<lambda>s. duration_at (in_heap s) a)) (\<lambda>d.
             return_m (if dur_count d = 0 then \<lparr>dur_count = 1, dur_unit = Ms\<rparr> else d))
       | _ \<Rightarrow> throw_m (EvaluationError (''Expected a '' @ quoted (type_name TDuration) @ '' got a ''
                @ quoted (type_name (entity_type_of timeout)) @ '' '')))"

definition timeout_error :: entity where
  "timeout_error = EError ''Operation timeout''"

definition eval_await_workflow ::
  "evaluators \<Rightarrow> expression \<Rightarrow> workflow_definition \<Rightarrow> instanciation \<Rightarrow> call_arguments \<Rightarrow> entity comp" where
  "eval_await_workflow ev duration w inst args =
     bind_m (eval_timeout ev duration) (\<lambda>timeout.
     bind_m (with_timeout (to_std_duration timeout) (eval_invocation ev w inst args)) (\<lambda>result.
       case result of
         Some e \<Rightarrow> return_m e
       | None \<Rightarrow> return_m timeout_error))"

fun reply_kind :: "dictionary_kind \<Rightarrow> dictionary_kind" where
  "reply_kind Action = ActionReply"
| "reply_kind Campaign = CampaignReply"
| "reply_kind DeviceInfoRequest = DeviceInfoReply"
| "reply_kind HttpRequest = HttpReply"
| "reply_kind k = k"

fun delegate_of :: "extensions \<Rightarrow> dictionary_kind \<Rightarrow> (json \<Rightarrow> reply) option" where
  "delegate_of ext Action = run_action_delegate ext"
| "delegate_of ext Campaign = run_campaign_delegate ext"
| "delegate_of ext DeviceInfoRequest = request_device_info_delegate ext"
| "delegate_of ext HttpRequest = http_request_delegate ext"
| "delegate_of ext _ = None"

text \<open>Waiting for a delegate's answer: a task that never completes is only ended by the deadline.\<close>

definition await_reply :: "reply \<Rightarrow> json comp" where
  "await_reply r = (case r of
     Reply t j \<Rightarrow> bind_m (delay t) (\<lambda>_. return_m j)
   | ReplyFails t e \<Rightarrow> bind_m (delay t) (\<lambda>_. throw_m e)
   | NoReply \<Rightarrow> (\<lambda>s. case in_deadline s of
         Some d \<Rightarrow> (Cut, s\<lparr>in_clock := max (in_clock s) d\<rparr>)
       | None \<Rightarrow> (OutOfFuel, s)))"

definition eval_await_request ::
  "environment \<Rightarrow> evaluators \<Rightarrow> expression \<Rightarrow> dictionary_kind \<Rightarrow> nat \<Rightarrow> entity comp" where
  "eval_await_request env ev duration kind a =
     bind_m (eval_timeout ev duration) (\<lambda>timeout.
     bind_m (get_m in_heap) (\<lambda>h.
     bind_m (of_option (to_json (ev_depth ev) h a)) (\<lambda>request.
       case delegate_of (ev_extensions env) kind of
         None \<Rightarrow> throw_m (StdException ''bad_function_call'')
       | Some delegate \<Rightarrow>
           bind_m (emit (Request kind request)) (\<lambda>_.
           bind_m (with_timeout (to_std_duration timeout) (await_reply (delegate request))) (\<lambda>result.
             case result of
               None \<Rightarrow> return_m timeout_error
             | Some j \<Rightarrow> heap_m (from_json j (reply_kind kind)))))))"

definition eval_await :: "environment \<Rightarrow> evaluators \<Rightarrow> expression \<Rightarrow> expression \<Rightarrow> entity comp" where
  "eval_await env ev expr duration =
     bind_m (ev_expression ev expr) (\<lambda>awaitable.
       case awaitable of
         EWorkflowInvocation w inst args \<Rightarrow> eval_await_workflow ev duration w inst args
       | EWorkflowDefinition w \<Rightarrow> eval_await_workflow ev duration w (ExpressionInstance expr) []
       | EDictionary Campaign a \<Rightarrow> eval_await_request env ev duration Campaign a
       | EDictionary Action a \<Rightarrow> eval_await_request env ev duration Action a
       | EDictionary DeviceInfoRequest a \<Rightarrow> eval_await_request env ev duration DeviceInfoRequest a
       | EDictionary HttpRequest a \<Rightarrow> eval_await_request env ev duration HttpRequest a
       | _ \<Rightarrow> throw_m (EvaluationError (''Expression of type ''
                @ quoted (type_name (entity_type_of awaitable)) @ '' in not an awaitable'')))"

definition eval_try :: "evaluators \<Rightarrow> expression \<Rightarrow> entity comp" where
  "eval_try ev expr =
     bind_m (ev_expression ev expr) (\<lambda>e.
       case e of
         EError _ \<Rightarrow> bind_m (modify_scope (return_value e)) (\<lambda>_. return_m e)
       | _ \<Rightarrow> return_m e)"

end
