(* ===== verification/Flow_Eval.thy ===== *)
theory Flow_Eval
  imports Flow_Interp
begin

text \<open>
  The rest of the interpreter (interpreter_expression.cpp, interpreter_workflow.cpp,
  interpreter_program.cpp): expressions, statements, programs, the knot that ties the nested
  evaluations, and Engine::eval (engine.cpp), which runs a program and reports what it throws.
\<close>

section \<open>Expressions\<close>

definition eval_primary :: "environment \<Rightarrow> evaluators \<Rightarrow> primary_expression \<Rightarrow> entity comp" where
  "eval_primary env ev p = (case p of
     PPath path \<Rightarrow> eval_path (path_names path)
   | PLiteral l \<Rightarrow> eval_literal l
   | PCall call \<Rightarrow> eval_function_call env ev call
   | PArray es \<Rightarrow> eval_array ev es
   | PDictionary es \<Rightarrow> eval_dictionary ev es
   | PExpression e \<Rightarrow> ev_expression ev e
   | PAwait e d \<Rightarrow> eval_await env ev e d
   | PTry e \<Rightarrow> eval_try ev e)"

fun eval_unary :: "environment \<Rightarrow> evaluators \<Rightarrow> unary_expression \<Rightarrow> entity comp" where
  "eval_unary env ev (Unary op p) =
     bind_m (eval_primary env ev p) (\<lambda>v.
       case op of
         None \<Rightarrow> return_m v
       | Some o' \<Rightarrow> ensured (unary_operation o' v))"

text \<open>The loop over the terms of a binary expression: step gets the operator, the term and the value so far.\<close>

fun eval_terms :: "('op \<Rightarrow> 't \<Rightarrow> entity \<Rightarrow> entity comp) \<Rightarrow> ('op \<times> 't) list \<Rightarrow> entity \<Rightarrow> entity comp" where
  "eval_terms step [] lhs = return_m lhs"
| "eval_terms step ((op, t) # ts) lhs = bind_m (step op t lhs) (eval_terms step ts)"

definition eval_binary ::
  "('t \<Rightarrow> entity comp) \<Rightarrow> ('op \<Rightarrow> 't \<Rightarrow> entity \<Rightarrow> entity comp) \<Rightarrow> ('t, 'op) binary_expression
    \<Rightarrow> entity comp" where
  "eval_binary eval_first step b = bind_m (eval_first (first b)) (eval_terms step (terms b))"

text \<open>The step of every level but the equality one: evaluate the term, apply the operator.\<close>

definition operator_step ::
  "environment \<Rightarrow> ('t \<Rightarrow> entity comp) \<Rightarrow> ('op \<Rightarrow> binary_op) \<Rightarrow> 'op \<Rightarrow> 't \<Rightarrow> entity \<Rightarrow> entity comp" where
  "operator_step env eval_term bop op t lhs =
     bind_m (eval_term t) (\<lambda>rhs. ensured (binary_operation (ev_runtime env) (bop op) lhs rhs))"

fun multiplicative_op :: "multiplicative_operator \<Rightarrow> binary_op" where
  "multiplicative_op Mult = OpMult"
| "multiplicative_op Div = OpDiv"

fun additive_op :: "additive_operator \<Rightarrow> binary_op" where
  "additive_op Plus = OpPlus"
| "additive_op Minus = OpMinus"

fun relational_op :: "relational_operator \<Rightarrow> binary_op" where
  "relational_op Less = OpLess"
| "relational_op LessEq = OpLessEq"
| "relational_op Greater = OpGreater"
| "relational_op GreaterEq = OpGreaterEq"

fun logical_op :: "logical_operator \<Rightarrow> binary_op" where
  "logical_op And = OpAnd"
| "logical_op Or = OpOr"

definition eval_multiplicative :: "environment \<Rightarrow> evaluators \<Rightarrow> multiplicative_expression \<Rightarrow> entity comp" where
  "eval_multiplicative env ev =
     eval_binary (eval_unary env ev) (operator_step env (eval_unary env ev) multiplicative_op)"

definition eval_additive :: "environment \<Rightarrow> evaluators \<Rightarrow> additive_expression \<Rightarrow> entity comp" where
  "eval_additive env ev =
     eval_binary (eval_multiplicative env ev)
       (operator_step env (eval_multiplicative env ev) additive_op)"

definition eval_relational :: "environment \<Rightarrow> evaluators \<Rightarrow> relational_expression \<Rightarrow> entity comp" where
  "eval_relational env ev =
     eval_binary (eval_additive env ev) (operator_step env (eval_additive env ev) relational_op)"

fun to_type_name :: "relational_expression \<Rightarrow> string" where
  "to_type_name r = (case first (first (first r)) of
     Unary _ (PPath path) \<Rightarrow> (case path_names path of i # _ \<Rightarrow> i | [] \<Rightarrow> [])
   | _ \<Rightarrow> ''<unknow type>'')"

definition equality_step ::
  "environment \<Rightarrow> evaluators \<Rightarrow> equality_operator \<Rightarrow> relational_expression \<Rightarrow> entity \<Rightarrow> entity comp" where
  "equality_step env ev op t lhs = (case op of
     Is \<Rightarrow>
       bind_m (get_m (\<lambda>s. find_type (in_scope s) (to_type_name t))) (\<lambda>type.
         case type of
           None \<Rightarrow> throw_m (EvaluationError (quoted (to_type_name t) @ '' is not a type''))
         | Some ty \<Rightarrow> heap_m (new_boolean (same_type (entity_type_of lhs) ty)))
   | Eq \<Rightarrow> operator_step env (eval_relational env ev) (\<lambda>_. OpEq) op t lhs
   | NotEq \<Rightarrow> operator_step env (eval_relational env ev) (\<lambda>_. OpNotEq) op t lhs
   | In \<Rightarrow> bind_m (eval_relational env ev t) (\<lambda>rhs.
            ensured (binary_operation (ev_runtime env) OpContains rhs lhs)))"

definition eval_equality :: "environment \<Rightarrow> evaluators \<Rightarrow> equality_expression \<Rightarrow> entity comp" where
  "eval_equality env ev = eval_binary (eval_relational env ev) (equality_step env ev)"

fun eval_expression :: "environment \<Rightarrow> evaluators \<Rightarrow> expression \<Rightarrow> entity comp" where
  "eval_expression env ev (Expression _ b) =
     eval_binary (eval_equality env ev) (operator_step env (eval_equality env ev) logical_op) b"

section \<open>Statements\<close>

definition already_declared :: "ident \<Rightarrow> string" where
  "already_declared name = quoted name @ '' already declaraed in the current scope ''"

definition eval_declaration ::
  "environment \<Rightarrow> evaluators \<Rightarrow> ident \<Rightarrow> ident \<Rightarrow> expression option \<Rightarrow> unit comp" where
  "eval_declaration env ev name type expr =
     bind_m (get_m (\<lambda>s. scope_find_entity (current (in_scope s)) name)) (\<lambda>exists.
       if exists \<noteq> None then throw_m (EvaluationError (already_declared name))
       else bind_m (get_m (\<lambda>s. find_type (in_scope s) type)) (\<lambda>t.
         case t of
           None \<Rightarrow> throw_m (EvaluationError (''Unknown type '' @ quoted type))
         | Some ty \<Rightarrow>
             bind_m (case expr of None \<Rightarrow> return_m EVoid | Some e \<Rightarrow> ev_expression ev e) (\<lambda>argument.
             bind_m (heap_m (copy_entity argument)) (\<lambda>copy.
             bind_m (construct_m (ev_runtime env) ty copy) (\<lambda>value.
             modify_scope (\<lambda>es. add_entity es name value))))))"

definition eval_workflow_definition :: "workflow_definition \<Rightarrow> unit comp" where
  "eval_workflow_definition w =
     bind_m (get_m (\<lambda>s. scope_find_entity (current (in_scope s)) (workflow_name w))) (\<lambda>exists.
       if exists \<noteq> None then throw_m (EvaluationError (already_declared (workflow_name w)))
       else modify_scope (\<lambda>es. add_entity es (workflow_name w) (EWorkflowDefinition w)))"

definition eval_assignment ::
  "environment \<Rightarrow> evaluators \<Rightarrow> identifier_path \<Rightarrow> expression \<Rightarrow> unit comp" where
  "eval_assignment env ev path expr =
     bind_m (eval_path (path_names path)) (\<lambda>lhs.
     bind_m (ev_expression ev expr) (\<lambda>value.
     heap_m (\<lambda>h. case assign (ev_runtime env) lhs value h of (r, lhs', h') \<Rightarrow> ((), h'))))"

definition eval_delay :: "evaluators \<Rightarrow> expression \<Rightarrow> unit comp" where
  "eval_delay ev expr =
     bind_m (ev_expression ev expr) (\<lambda>timeout.
       case timeout of
         EDuration a \<Rightarrow> bind_m (get_m (\<lambda>s. duration_at (in_heap s) a)) (\<lambda>d. delay (to_std_duration d))
       | _ \<Rightarrow> throw_m (EvaluationError (''Expected a '' @ quoted (type_name TDuration) @ '' got a ''
                @ quoted (type_name (entity_type_of timeout)) @ '' '')))"

definition eval_return :: "evaluators \<Rightarrow> expression \<Rightarrow> unit comp" where
  "eval_return ev expr = bind_m (ev_expression ev expr) (\<lambda>v. modify_scope (return_value v))"

definition eval_break :: "unit comp" where
  "eval_break = modify_scope break_loop"

definition eval_raise :: "evaluators \<Rightarrow> expression \<Rightarrow> unit comp" where
  "eval_raise ev expr =
     bind_m (ev_expression ev expr) (\<lambda>e.
       case e of
         EString a \<Rightarrow> bind_m (get_m (\<lambda>s. string_at (in_heap s) a)) (\<lambda>what.
           modify_scope (return_value (EError what)))
       | EError what \<Rightarrow> modify_scope (return_value (EError what))
       | _ \<Rightarrow> throw_m (EvaluationError ''Expecting a string or error expression''))"

definition eval_condition :: "evaluators \<Rightarrow> condition_block \<Rightarrow> bool comp" where
  "eval_condition ev block =
     bind_m (ev_expression ev (condition block)) (\<lambda>c.
     bind_m (if entity_type_of c \<noteq> TBoolean then ensure_value (convert c TBoolean) else return_m c) (\<lambda>c'.
     bind_m (case c' of
         EBoolean a \<Rightarrow> get_m (\<lambda>s. boolean_at (in_heap s) a)
       | _ \<Rightarrow> throw_m (StdException ''bad_variant_access'')) (\<lambda>holds.
       if \<not> holds then return_m False
       else bind_m (eval_scope ev LocalScope (block_statements block)) (\<lambda>_. return_m True))))"

definition policy_m :: "flow_control_policy comp" where
  "policy_m = get_m (\<lambda>s. sc_policy (current (in_scope s)))"

text \<open>The loop over the elif blocks: True is "the statement is done".\<close>

fun eval_elifs :: "evaluators \<Rightarrow> condition_block list \<Rightarrow> bool comp" where
  "eval_elifs ev [] = return_m False"
| "eval_elifs ev (b # bs) =
     bind_m (eval_condition ev b) (\<lambda>evaluated.
       if evaluated then return_m True
       else bind_m policy_m (\<lambda>p. if p \<noteq> Stay then return_m True else eval_elifs ev bs))"

definition eval_if ::
  "evaluators \<Rightarrow> condition_block \<Rightarrow> condition_block list \<Rightarrow> workflow_statement list \<Rightarrow> unit comp" where
  "eval_if ev if_block elif_blocks else_block =
     bind_m (eval_condition ev if_block) (\<lambda>evaluated.
     bind_m policy_m (\<lambda>p.
       if p \<noteq> Stay then return_m ()
       else bind_m (if \<not> evaluated then eval_elifs ev elif_blocks else return_m True) (\<lambda>finished.
         if finished \<or> else_block = [] then return_m ()
         else eval_scope ev LocalScope else_block)))"

primrec eval_repeat :: "evaluators \<Rightarrow> nat \<Rightarrow> workflow_statement list \<Rightarrow> unit comp" where
  "eval_repeat ev 0 sts = return_m ()"
| "eval_repeat ev (Suc count) sts =
     bind_m (eval_scope ev LoopScope sts) (\<lambda>_.
     bind_m policy_m (\<lambda>p. if p \<noteq> Stay then return_m () else eval_repeat ev count sts))"

definition eval_statement :: "environment \<Rightarrow> evaluators \<Rightarrow> workflow_statement \<Rightarrow> unit comp" where
  "eval_statement env ev st = (case st of
     ImportStatement _ \<Rightarrow> emit (Trace ''Imports are not supported yet'')
   | VariableDeclaration name type expr \<Rightarrow> eval_declaration env ev name type expr
   | AssignmentStatement path expr \<Rightarrow> eval_assignment env ev path expr
   | DelayStatement expr \<Rightarrow> eval_delay ev expr
   | ReturnStatement expr \<Rightarrow> eval_return ev expr
   | RaiseStatement expr \<Rightarrow> eval_raise ev expr
   | BreakStatement \<Rightarrow> eval_break
   | ExpressionStatement expr \<Rightarrow> bind_m (ev_expression ev expr) (\<lambda>_. return_m ())
   | IfBlock b bs els \<Rightarrow> eval_if ev b bs els
   | RepeatBlock sts \<Rightarrow> eval_repeat ev (ev_max_loop_count env) sts
   | WorkflowStatement w \<Rightarrow> eval_workflow_definition w)"

section \<open>The knot and programs\<close>

primrec interpreter :: "nat \<Rightarrow> environment \<Rightarrow> evaluators" where
  "interpreter 0 env =
     \<lparr>ev_expression = (\<lambda>_. no_fuel), ev_statement = (\<lambda>_. no_fuel), ev_depth = 0\<rparr>"
| "interpreter (Suc n) env =
     \<lparr>ev_expression = eval_expression env (interpreter n env),
      ev_statement = eval_statement env (interpreter n env), ev_depth = Suc n\<rparr>"

definition eval_program :: "nat \<Rightarrow> environment \<Rightarrow> program \<Rightarrow> unit comp" where
  "eval_program n env p = eval_statements (interpreter n env) (ast p)"

definition initial_interp :: interp where
  "initial_interp =
     \<lparr>in_scope = initial_evaluation_scope, in_heap = initial_heap, in_clock = 0,
      in_deadline = None, in_output = []\<rparr>"

definition set_instance_id :: "32 word \<Rightarrow> unit comp" where
  "set_instance_id i =
     bind_m (heap_m (new_integer (ucast i))) (\<lambda>e.
       modify_scope (\<lambda>es. add_entity es ''instance_id'' e))"

section \<open>The engine\<close>

text \<open>
  Engine::eval posts a task per program; what the task logs is the result of running it. The
  parser (boost spirit) is an argument; error positions in the log are left out.
\<close>

definition eval_file ::
  "nat \<Rightarrow> environment \<Rightarrow> (string \<Rightarrow> string \<Rightarrow> program) \<Rightarrow> string \<Rightarrow> string \<Rightarrow> 32 word
    \<Rightarrow> (string list \<times> out_event list) option" where
  "eval_file n env parse src file_name i =
     (let p = parse src file_name in
      if \<not> valid p
      then Some ([''Failed to parse program:'' @ [char_of (10 :: nat)] @ error_message p], [])
      else (let env' = env\<lparr>ev_program := p,
                    ev_runtime := (ev_runtime env)\<lparr>rt_file_path := file_path p\<rparr>\<rparr> in
        case bind_m (set_instance_id i) (\<lambda>_. eval_program n env' p) initial_interp of
          (Done _, s) \<Rightarrow> Some ([], in_output s)
        | (Throw (EvaluationError msg), s) \<Rightarrow> Some ([''Evaluation eror: '' @ msg], in_output s)
        | (Throw (PanicError msg), s) \<Rightarrow> Some ([''Panic: '' @ msg], in_output s)
        | (Throw (StdException msg), s) \<Rightarrow> Some ([''Internal error: '' @ msg], in_output s)
        | (Throw Undefined, s) \<Rightarrow> None
        | (Cut, s) \<Rightarrow> None
        | (OutOfFuel, s) \<Rightarrow> None))"

record engine =
  eng_tasks :: "(string \<times> string \<times> 32 word) list"
  eng_extensions :: extensions

definition engine_eval :: "engine \<Rightarrow> string \<Rightarrow> string \<Rightarrow> 32 word \<Rightarrow> engine" where
  "engine_eval e src file_name i = e\<lparr>eng_tasks := eng_tasks e @ [(src, file_name, i)]\<rparr>"

definition set_action_delegate :: "engine \<Rightarrow> (json \<Rightarrow> reply) \<Rightarrow> engine" where
  "set_action_delegate e d =
     e\<lparr>eng_extensions := (eng_extensions e)\<lparr>run_action_delegate := Some d\<rparr>\<rparr>"

definition set_campaign_delegate :: "engine \<Rightarrow> (json \<Rightarrow> reply) \<Rightarrow> engine" where
  "set_campaign_delegate e d =
     e\<lparr>eng_extensions := (eng_extensions e)\<lparr>run_campaign_delegate := Some d\<rparr>\<rparr>"

definition set_device_info_delegate :: "engine \<Rightarrow> (json \<Rightarrow> reply) \<Rightarrow> engine" where
  "set_device_info_delegate e d =
     e\<lparr>eng_extensions := (eng_extensions e)\<lparr>request_device_info_delegate := Some d\<rparr>\<rparr>"

definition set_http_request_delegate :: "engine \<Rightarrow> (json \<Rightarrow> reply) \<Rightarrow> engine" where
  "set_http_request_delegate e d =
     e\<lparr>eng_extensions := (eng_extensions e)\<lparr>http_request_delegate := Some d\<rparr>\<rparr>"

definition configure_interpreter :: "engine \<Rightarrow> environment \<Rightarrow> environment" where
  "configure_interpreter e env = env\<lparr>ev_extensions := eng_extensions e\<rparr>"

end
