(* ===== verification/Flow_Safety.thy ===== *)
theory Flow_Safety
  imports Flow_Eval
begin

text \<open>
  An invariant of the interpreter's state and its preservation by every evaluation, whatever its
  outcome: entities point to cells of their type, the scope stack below the current scope is left
  alone, the clock and the output only grow, deadlines are restored. The predicate good says this
  of one computation; it is closed under the interpreter's combinators.
\<close>

section \<open>Typed heaps\<close>

fun cell_type :: "cell \<Rightarrow> nat" where
  "cell_type (CBoolean _) = 0"
| "cell_type (CInteger _) = 1"
| "cell_type (CReal _) = 2"
| "cell_type (CString _) = 3"
| "cell_type (CDuration _) = 4"
| "cell_type (CArray _) = 5"
| "cell_type (CDictionary _) = 6"

definition has_cell :: "heap \<Rightarrow> nat \<Rightarrow> nat \<Rightarrow> bool" where
  "has_cell h k a \<longleftrightarrow> a < length h \<and> cell_type (h ! a) = k"

fun wt_entity :: "heap \<Rightarrow> entity \<Rightarrow> bool" where
  "wt_entity h (EBoolean a) = has_cell h 0 a"
| "wt_entity h (EInteger a) = has_cell h 1 a"
| "wt_entity h (EReal a) = has_cell h 2 a"
| "wt_entity h (EString a) = has_cell h 3 a"
| "wt_entity h (EDuration a) = has_cell h 4 a"
| "wt_entity h (EArray a) = has_cell h 5 a"
| "wt_entity h (EDictionary _ a) = has_cell h 6 a"
| "wt_entity h (EWorkflowInvocation _ _ args) = (\<forall>(n, e) \<in> set args. wt_entity h e)"
| "wt_entity h _ = True"

definition sorted_keys :: "(string \<times> 'v) list \<Rightarrow> bool" where
  "sorted_keys m \<longleftrightarrow> sorted_wrt (<) (map fst m)"

fun wt_cell :: "heap \<Rightarrow> cell \<Rightarrow> bool" where
  "wt_cell h (CArray xs) = list_all (wt_entity h) xs"
| "wt_cell h (CDictionary m) = (sorted_keys m \<and> list_all (wt_entity h \<circ> snd) m)"
| "wt_cell h _ = True"

definition wt_heap :: "heap \<Rightarrow> bool" where
  "wt_heap h \<longleftrightarrow> list_all (wt_cell h) h"

definition heap_le :: "heap \<Rightarrow> heap \<Rightarrow> bool" where
  "heap_le h h' \<longleftrightarrow> (\<forall>k a. has_cell h k a \<longrightarrow> has_cell h' k a)"

lemma heap_le_refl [simp, intro]: "heap_le h h"
  by (simp add: heap_le_def)

lemma heap_le_trans: "heap_le h h1 \<Longrightarrow> heap_le h1 h2 \<Longrightarrow> heap_le h h2"
  by (simp add: heap_le_def)

lemma heap_le_append [simp, intro]: "heap_le h (h @ cs)"
  by (auto simp: heap_le_def has_cell_def nth_append)

lemma heap_le_set: "has_cell h (cell_type c) a \<Longrightarrow> heap_le h (shared_set h a c)"
  by (auto simp: heap_le_def has_cell_def shared_set_def nth_list_update)

lemma has_cell_mono: "has_cell h k a \<Longrightarrow> heap_le h h' \<Longrightarrow> has_cell h' k a"
  by (simp add: heap_le_def)

lemma wt_entity_mono: "wt_entity h e \<Longrightarrow> heap_le h h' \<Longrightarrow> wt_entity h' e"
  by (induction h e rule: wt_entity.induct) (auto intro: has_cell_mono)

lemma wt_cell_mono: "wt_cell h c \<Longrightarrow> heap_le h h' \<Longrightarrow> wt_cell h' c"
  by (cases c) (auto simp: list_all_iff intro: wt_entity_mono)

lemma wt_heap_append:
  assumes "wt_heap h" and "wt_cell h c"
  shows "wt_heap (h @ [c])"
  using assms by (auto simp: wt_heap_def list_all_iff intro: wt_cell_mono)

lemma wt_heap_set:
  assumes "wt_heap h" and "wt_cell h c" and "has_cell h (cell_type c) a"
  shows "wt_heap (shared_set h a c)"
proof -
  have le: "heap_le h (shared_set h a c)" using assms(3) by (rule heap_le_set)
  have "set (shared_set h a c) \<subseteq> insert c (set h)" by (simp add: shared_set_def set_update_subset_insert)
  then show ?thesis using assms le by (auto simp: wt_heap_def list_all_iff intro: wt_cell_mono)
qed

lemma shared_get_has: "has_cell h k a \<Longrightarrow> \<exists>c. shared_get h a = Some c \<and> cell_type c = k \<and> c \<in> set h"
  by (auto simp: has_cell_def shared_get_def)

lemma has_cell_last: "has_cell (h @ [c]) (cell_type c) (length h)"
  by (simp add: has_cell_def)

lemma array_at_wt: "wt_heap h \<Longrightarrow> list_all (wt_entity h) (array_at h a)"
  by (auto simp: array_at_def shared_get_def wt_heap_def list_all_iff split: cell.split)
    (metis nth_mem wt_cell.simps(1) list_all_iff)

lemma dictionary_at_wt:
  "wt_heap h \<Longrightarrow> sorted_keys (dictionary_at h a) \<and> list_all (wt_entity h \<circ> snd) (dictionary_at h a)"
proof -
  assume wt: "wt_heap h"
  show ?thesis
  proof (cases "shared_get h a")
    case None
    then show ?thesis by (simp add: dictionary_at_def sorted_keys_def)
  next
    case (Some c)
    then have "c \<in> set h" by (auto simp: shared_get_def split: if_splits)
    then have "wt_cell h c" using wt by (simp add: wt_heap_def list_all_iff)
    with Some show ?thesis by (cases c) (simp_all add: dictionary_at_def sorted_keys_def)
  qed
qed

lemma map_insert_wt:
  "sorted_keys m \<and> list_all (wt_entity h \<circ> snd) m \<Longrightarrow> wt_entity h v \<Longrightarrow>
    sorted_keys (map_insert k v m) \<and> list_all (wt_entity h \<circ> snd) (map_insert k v m)"
  using map_insert_set [of k v m] map_insert_sorted [of m k v]
  by (auto simp: sorted_keys_def list_all_iff)

section \<open>Operations of the types\<close>

text \<open>An operation that returns an entity: it keeps the heap typed and returns a typed entity.\<close>

definition wt_result :: "heap \<Rightarrow> eval_result \<times> heap \<Rightarrow> bool" where
  "wt_result h p \<longleftrightarrow> heap_le h (snd p) \<and> wt_heap (snd p) \<and> (\<forall>e. fst p = Inr e \<longrightarrow> wt_entity (snd p) e)"

definition wt_made :: "heap \<Rightarrow> entity \<times> heap \<Rightarrow> bool" where
  "wt_made h p \<longleftrightarrow> heap_le h (snd p) \<and> wt_heap (snd p) \<and> wt_entity (snd p) (fst p)"

lemma wt_result_same: "wt_heap h \<Longrightarrow> (\<forall>e. r = Inr e \<longrightarrow> wt_entity h e) \<Longrightarrow> wt_result h (r, h)"
  by (simp add: wt_result_def)

lemma wt_result_made: "wt_made h p \<Longrightarrow> wt_result h (apfst Inr p)"
  by (cases p) (simp add: wt_result_def wt_made_def)

lemma wt_made_new:
  assumes "wt_heap h"
  shows "wt_made h (new_boolean b h)" "wt_made h (new_integer i h)" "wt_made h (new_string s h)"
    and "list_all (wt_entity h) xs \<Longrightarrow> wt_made h (new_array xs h)"
    and "sorted_keys m \<and> list_all (wt_entity h \<circ> snd) m \<Longrightarrow> wt_made h (new_dictionary k m h)"
    and "wt_cell h c \<Longrightarrow> wt_made h (new_cell c h)"
proof -
  show b: "wt_made h (new_boolean b h)" for b
    using assms has_cell_last [of h "CBoolean b"]
    by (simp add: wt_made_def new_boolean_def shared_make_def wt_heap_append)
  show i: "wt_made h (new_integer i h)" for i
    using assms has_cell_last [of h "CInteger i"]
    by (simp add: wt_made_def new_integer_def shared_make_def wt_heap_append)
  show s: "wt_made h (new_string s h)" for s
    using assms has_cell_last [of h "CString s"]
    by (simp add: wt_made_def new_string_def shared_make_def wt_heap_append)
  show a: "list_all (wt_entity h) xs \<Longrightarrow> wt_made h (new_array xs h)" for xs
    using assms has_cell_last [of h "CArray xs"]
    by (simp add: wt_made_def new_array_def shared_make_def wt_heap_append)
  show d: "sorted_keys m \<and> list_all (wt_entity h \<circ> snd) m \<Longrightarrow> wt_made h (new_dictionary k m h)" for m k
    using assms has_cell_last [of h "CDictionary m"]
    by (simp add: wt_made_def new_dictionary_def shared_make_def wt_heap_append)
  show "wt_cell h c \<Longrightarrow> wt_made h (new_cell c h)"
    using assms b i s a d has_cell_last [of h c]
    by (cases c) (simp_all add: wt_made_def shared_make_def wt_heap_append)
qed

lemma wt_address:
  "entity_address e = Some a \<Longrightarrow> wt_entity h e \<Longrightarrow>
    \<exists>k. has_cell h k a \<and> (\<forall>h' b. has_cell h' k b \<longrightarrow> wt_entity h' (at_address e b))"
  by (cases e) auto

lemma wt_copy_entity:
  assumes "wt_heap h" and "wt_entity h e"
  shows "wt_made h (copy_entity e h)"
proof (cases "entity_address e")
  case None
  with assms show ?thesis by (simp add: copy_entity_def wt_made_def)
next
  case (Some a)
  from wt_address [OF Some assms(2)] obtain k where k: "has_cell h k a"
    "\<forall>h' b. has_cell h' k b \<longrightarrow> wt_entity h' (at_address e b)" by blast
  from shared_get_has [OF k(1)] obtain c where c: "shared_get h a = Some c" "cell_type c = k" "c \<in> set h"
    by blast
  have "wt_cell h c" using assms(1) c by (simp add: wt_heap_def list_all_iff)
  then have "wt_heap (h @ [c])" using assms(1) by (intro wt_heap_append)
  moreover have "wt_entity (h @ [c]) (at_address e (length h))"
    using k(2) has_cell_last [of h c] c(2) by blast
  ultimately show ?thesis using Some c by (simp add: copy_entity_def shared_make_def wt_made_def)
qed

lemma initial_cells:
  "has_cell initial_heap 0 0" "has_cell initial_heap 1 1" "has_cell initial_heap 2 2"
  "has_cell initial_heap 3 3" "has_cell initial_heap 4 4" "has_cell initial_heap 5 5"
  by (simp_all add: has_cell_def initial_heap_def)

lemma wt_default_value: "heap_le initial_heap h \<Longrightarrow> wt_entity h (default_value rt t)"
  using initial_cells by (cases t) (auto intro: has_cell_mono)

lemma wt_construct:
  assumes "wt_heap h" and "heap_le initial_heap h" and "wt_entity h arg"
    and "construct rt t arg h = Some p"
  shows "wt_result h p"
proof (cases "\<exists>k. t = TDictionary k")
  case True
  then obtain k where t: "t = TDictionary k" by blast
  have "wt_made h (new_dictionary k [] h)"
    using assms(1) by (intro wt_made_new) (simp_all add: sorted_keys_def)
  moreover have "wt_made h (new_dictionary k (dictionary_at h a) h)" for a
    using assms(1) by (intro wt_made_new dictionary_at_wt)
  ultimately have "wt_result h (dictionary_construct k arg h)"
    using assms(1,3)
    by (auto simp: dictionary_construct_def invalid_constructor_def intro!: wt_result_made wt_result_same
        split: entity.split dictionary_kind.split)
  with assms(4) t show ?thesis by simp
next
  case False
  have "wt_result h (make_constructor t (default_value rt t) arg, h)"
    using assms wt_default_value [OF assms(2)]
    by (intro wt_result_same) (auto simp: make_constructor_def invalid_constructor_def split: if_splits)
  with False assms(4) show ?thesis by (cases t) simp_all
qed

lemma wt_assign:
  assumes "wt_heap h" and "wt_entity h lhs" and "assign rt lhs rhs h = (r, lhs', h')"
  shows "heap_le h h' \<and> wt_heap h'"
proof -
  have int: "has_cell h 1 a \<Longrightarrow> heap_le h (shared_set h a (CInteger i)) \<and> wt_heap (shared_set h a (CInteger i))"
    for a i using assms(1) by (simp add: heap_le_set wt_heap_set)
  have arr: "has_cell h 5 a \<Longrightarrow> heap_le h (shared_set h a (CArray (array_at h b)))
      \<and> wt_heap (shared_set h a (CArray (array_at h b)))" for a b
    using assms(1) array_at_wt [OF assms(1)] by (simp add: heap_le_set wt_heap_set)
  show ?thesis
    using assms int arr
    by (cases lhs; cases rhs)
      (auto simp: assign_def integer_assign_def array_assign_def default_assign_def split: if_splits)
qed

lemma wt_binary_operation:
  assumes "wt_heap h"
  shows "wt_result h (binary_operation rt op lhs rhs h)"
proof -
  have int: "integer_op fp op a rhs h = Some c \<Longrightarrow> wt_result h (apfst Inr (new_cell c h))" for fp a c
  proof -
    assume "integer_op fp op a rhs h = Some c"
    then have "wt_cell h c"
      by (cases op; cases rhs) (auto simp: integer_op_def)
    then show ?thesis using assms by (intro wt_result_made wt_made_new)
  qed
  have con: "wt_result h (dictionary_contains a rhs h)" for a
    using assms
    by (cases rhs) (auto simp: dictionary_contains_def intro!: wt_result_same wt_result_made wt_made_new)
  have bad: "wt_result h (unsupported op lhs rhs, h)"
    using assms by (intro wt_result_same) (simp_all add: unsupported_def op_not_found2_def)
  show ?thesis
    using int con bad by (auto simp: binary_operation_def split: entity.split option.split)
qed

lemma wt_unary_operation:
  assumes "wt_heap h" and "wt_entity h arg"
  shows "wt_result h (unary_operation op arg h)"
  using assms
  by (cases op; cases arg)
    (auto simp: unary_operation_def op_not_found1_def intro!: wt_result_same wt_result_made wt_made_new)

lemma wt_get_property:
  assumes "wt_heap h" and "wt_entity h self"
  shows "wt_result h (get_property self name h)"
proof -
  have "map_lookup (dictionary_at h a) name = Some v \<Longrightarrow> wt_entity h v" for a v
    using dictionary_at_wt [OF assms(1), of a] by (fastforce simp: map_lookup_def list_all_iff dest: map_of_SomeD)
  then show ?thesis
    using assms
    by (cases self)
      (auto simp: get_property_def property_not_found_def intro!: wt_result_same wt_result_made wt_made_new
        split: option.split)
qed

lemma wt_dictionary_insert:
  assumes "wt_heap h" and "has_cell h 6 a" and "\<forall>(n, e) \<in> set args. wt_entity h e"
  shows "wt_result h (dictionary_insert rt kind a args h)"
proof (cases "length args = 2 \<and> args_is_array args \<and> (\<exists>s. snd (args ! 0) = EString s)")
  case False
  then show ?thesis
    using assms(1)
    by (auto simp: dictionary_insert_def Let_def invalid_function_call_def intro!: wt_result_same
        split: entity.split)
next
  case True
  then obtain s where s: "snd (args ! 0) = EString s" by blast
  have in0: "args ! 0 \<in> set args" and in1: "args ! 1 \<in> set args" using True by simp_all
  have wts: "wt_entity h (snd (args ! 0))" "wt_entity h (snd (args ! 1))"
    using assms(3) in0 in1 by auto
  define h1 where "h1 = shared_set h s (CString (rt_moved_from rt (string_at h s)))"
  define h2 where "h2 = shared_set h1 a (CDictionary (map_insert (string_at h s) (snd (args ! 1)) (dictionary_at h1 a)))"
  have s3: "has_cell h 3 s" using wts(1) s by simp
  have h1: "heap_le h h1" "wt_heap h1" using assms(1) s3 by (simp_all add: h1_def heap_le_set wt_heap_set)
  have "wt_cell h1 (CDictionary (map_insert (string_at h s) (snd (args ! 1)) (dictionary_at h1 a)))"
    using map_insert_wt [OF dictionary_at_wt [OF h1(2)]] wt_entity_mono [OF wts(2) h1(1)] by simp
  moreover have "has_cell h1 6 a" using assms(2) h1(1) by (rule has_cell_mono)
  ultimately have "heap_le h1 h2" "wt_heap h2" using h1(2) by (simp_all add: h2_def heap_le_set wt_heap_set)
  then have "wt_result h (Inr EVoid, h2)" using h1 by (auto simp: wt_result_def intro: heap_le_trans)
  then show ?thesis using True s by (simp add: dictionary_insert_def Let_def h1_def h2_def)
qed

lemma wt_call_mem_function:
  assumes "wt_heap h" and "wt_entity h self" and "\<forall>(n, e) \<in> set args. wt_entity h e"
  shows "wt_result h (call_mem_function rt self name args h)"
  using assms
  by (cases self)
    (auto simp: call_mem_function_def member_function_not_found_def intro!: wt_result_same wt_dictionary_insert)

definition wt_entries :: "heap \<Rightarrow> (string \<times> entity) list \<Rightarrow> bool" where
  "wt_entries h m \<longleftrightarrow> sorted_keys m \<and> list_all (wt_entity h \<circ> snd) m"

lemma wt_entries_mono: "wt_entries h m \<Longrightarrow> heap_le h h' \<Longrightarrow> wt_entries h' m"
  by (auto simp: wt_entries_def list_all_iff intro: wt_entity_mono)

lemma wt_entries_insert: "wt_entries h m \<Longrightarrow> wt_entity h v \<Longrightarrow> wt_entries h (map_insert k v m)"
  unfolding wt_entries_def by (rule map_insert_wt)

lemma wt_made_some:
  "wt_made h p \<Longrightarrow> apfst Some p = (e, h') \<Longrightarrow>
    heap_le h h' \<and> wt_heap h' \<and> (\<forall>x. e = Some x \<longrightarrow> wt_entity h' x)"
  by (cases p) (auto simp: wt_made_def)

lemma wt_json_to_entity:
  "wt_heap h \<Longrightarrow> json_to_entity j h = (e, h') \<Longrightarrow>
     heap_le h h' \<and> wt_heap h' \<and> (\<forall>x. e = Some x \<longrightarrow> wt_entity h' x)"
  and wt_from_json_array:
  "wt_heap h \<Longrightarrow> from_json_array js h = (xs, h') \<Longrightarrow>
     heap_le h h' \<and> wt_heap h' \<and> list_all (wt_entity h') xs"
  and wt_from_json_object:
  "wt_heap h \<Longrightarrow> wt_entries h acc \<Longrightarrow> from_json_object m h acc = (xm, h') \<Longrightarrow>
     heap_le h h' \<and> wt_heap h' \<and> wt_entries h' xm"
proof (induction j h and js h and m h acc arbitrary: e h' and xs h' and xm h'
    rule: json_to_entity_from_json_array_from_json_object.induct)
  case (7 js h)
  obtain xs h1 where r: "from_json_array js h = (xs, h1)" by fastforce
  from 7(1) [OF 7(2) r] have "heap_le h h1" "wt_heap h1" "list_all (wt_entity h1) xs" by auto
  moreover from this have "wt_made h1 (new_array xs h1)" by (intro wt_made_new)
  ultimately show ?case using 7(3) r
    by (cases "new_array xs h1") (auto simp: wt_made_def intro: heap_le_trans)
next
  case (8 m h)
  obtain xs h1 where r: "from_json_object m h [] = (xs, h1)" by fastforce
  have "wt_entries h []" by (simp add: wt_entries_def sorted_keys_def)
  from 8(1) [OF 8(2) this r] have "heap_le h h1" "wt_heap h1" "wt_entries h1 xs" by auto
  moreover from this have "wt_made h1 (new_dictionary Dictionary xs h1)"
    by (intro wt_made_new) (simp_all add: wt_entries_def)
  ultimately show ?case using 8(3) r
    by (cases "new_dictionary Dictionary xs h1") (auto simp: wt_made_def intro: heap_le_trans)
next
  case (10 j js h)
  obtain e1 h1 where r: "json_to_entity j h = (e1, h1)" by fastforce
  from 10(1) [OF 10(4) r] have e1: "heap_le h h1" "wt_heap h1" "\<forall>x. e1 = Some x \<longrightarrow> wt_entity h1 x" by auto
  show ?case
  proof (cases e1)
    case None
    with 10(2) [OF r [symmetric] None e1(2), of xs h'] 10(5) r e1 show ?thesis
      by (auto intro: heap_le_trans)
  next
    case (Some x)
    obtain ys h2 where r2: "from_json_array js h1 = (ys, h2)" by fastforce
    from 10(3) [OF r [symmetric] Some e1(2) r2] have "heap_le h1 h2" "wt_heap h2" "list_all (wt_entity h2) ys" by auto
    with 10(5) r r2 Some e1 show ?thesis by (auto intro: heap_le_trans wt_entity_mono)
  qed
next
  case (12 k j m h result)
  obtain e1 h1 where r: "json_to_entity j h = (e1, h1)" by fastforce
  from 12(1) [OF 12(4) r] have e1: "heap_le h h1" "wt_heap h1" "\<forall>x. e1 = Some x \<longrightarrow> wt_entity h1 x" by auto
  have res: "wt_entries h1 result" using 12(5) e1(1) by (rule wt_entries_mono)
  show ?case
  proof (cases e1)
    case None
    with 12(2) [OF r [symmetric] None e1(2) res, of xm h'] 12(6) r e1 show ?thesis
      by (auto intro: heap_le_trans)
  next
    case (Some x)
    then have "wt_entries h1 (map_insert k x result)" using res e1(3) by (simp add: wt_entries_insert)
    from 12(3) [OF r [symmetric] Some e1(2) this, of xm h'] 12(6) r Some e1 show ?thesis
      by (auto intro: heap_le_trans)
  qed
next
  case (2 b h)
  then show ?case using wt_made_some [OF wt_made_new(1)] by simp
next
  case (3 i h)
  then show ?case using wt_made_some [OF wt_made_new(2)] by simp
next
  case (4 u h)
  then show ?case using wt_made_some [OF wt_made_new(2)] by simp
next
  case (5 d h)
  have "wt_made h (new_cell (CReal d) h)" using 5(1) by (rule wt_made_new) simp
  then show ?case using 5(2) wt_made_some [of h "new_cell (CReal d) h"] by simp
next
  case (6 s h)
  then show ?case using wt_made_some [OF wt_made_new(3)] by simp
qed auto

lemma wt_from_json:
  assumes "wt_heap h"
  shows "wt_made h (from_json j k h)"
proof -
  have nil: "wt_entries h []" by (simp add: wt_entries_def sorted_keys_def)
  have obj: "wt_made h (case from_json_object m h [] of (xs, h1) \<Rightarrow> new_dictionary k xs h1)" for m
  proof -
    obtain xs h1 where r: "from_json_object m h [] = (xs, h1)" by fastforce
    from wt_from_json_object [OF assms nil r] have "heap_le h h1" "wt_heap h1" "wt_entries h1 xs" by auto
    moreover from this have "wt_made h1 (new_dictionary k xs h1)"
      by (intro wt_made_new) (simp_all add: wt_entries_def)
    ultimately show ?thesis using r by (auto simp: wt_made_def intro: heap_le_trans)
  qed
  have "wt_made h (new_dictionary k [] h)"
    using assms nil by (intro wt_made_new) (simp_all add: wt_entries_def)
  with obj show ?thesis by (cases j) (simp_all add: from_json_def)
qed

end
