(* ===== verification/Flow_Invariant.thy ===== *)
theory Flow_Invariant
  imports Flow_Safety
begin

text \<open>
  The invariant of the interpreter's state, the relation between the states before and after an
  evaluation, and the rules by which both pass through the interpreter's combinators.
\<close>

section \<open>States\<close>

definition same_scope :: "scope \<Rightarrow> scope \<Rightarrow> bool" where
  "same_scope t t' \<longleftrightarrow> sc_return t' = sc_return t \<and> sc_type t' = sc_type t
     \<and> sc_types t' = sc_types t \<and> (\<exists>es. sc_entries t' = sc_entries t @ es)"

text \<open>
  The scopes below the current one are as before; the current one may have gained entries and a
  policy; scopes may have been left on top of it.
\<close>

definition stack_le :: "scope list \<Rightarrow> scope list \<Rightarrow> bool" where
  "stack_le xs ys \<longleftrightarrow>
     (\<exists>t ss pre t'. xs = t # ss \<and> ys = pre @ t' # ss \<and> same_scope t t')"

definition wt_scope :: "heap \<Rightarrow> nat \<Rightarrow> scope \<Rightarrow> bool" where
  "wt_scope h n sc \<longleftrightarrow> sc_return sc < n \<and> (\<forall>e \<in> set (sc_entries sc). wt_entity h (ve_value e))"

definition wt_interp :: "interp \<Rightarrow> bool" where
  "wt_interp s \<longleftrightarrow>
     (let es = in_scope s; h = in_heap s in
      es_scopes es \<noteq> [] \<and> heap_le initial_heap h \<and> wt_heap h
      \<and> (\<forall>sc \<in> set (es_scopes es). wt_scope h (length (es_returns es)) sc)
      \<and> (\<forall>v. Some v \<in> set (es_returns es) \<longrightarrow> wt_entity h v))"

definition evolves :: "interp \<Rightarrow> interp \<Rightarrow> bool" where
  "evolves s s' \<longleftrightarrow>
     heap_le (in_heap s) (in_heap s')
     \<and> stack_le (es_scopes (in_scope s)) (es_scopes (in_scope s'))
     \<and> length (es_returns (in_scope s)) \<le> length (es_returns (in_scope s'))
     \<and> in_clock s \<le> in_clock s'
     \<and> in_deadline s' = in_deadline s
     \<and> (\<forall>d. in_deadline s = Some d \<longrightarrow> in_clock s' \<le> max (in_clock s) d)
     \<and> (\<exists>out. in_output s' = in_output s @ out)"

lemma same_scope_refl [simp, intro]: "same_scope t t"
  by (simp add: same_scope_def)

lemma same_scope_trans: "same_scope t u \<Longrightarrow> same_scope u v \<Longrightarrow> same_scope t v"
  by (auto simp: same_scope_def)

lemma same_scope_policy [simp]: "same_scope t (t\<lparr>sc_policy := p\<rparr>)"
  by (simp add: same_scope_def)

lemma stack_le_refl: "xs \<noteq> [] \<Longrightarrow> stack_le xs xs"
  by (cases xs) (auto simp: stack_le_def)

lemma stack_le_trans:
  assumes "stack_le xs ys" and "stack_le ys zs"
  shows "stack_le xs zs"
proof -
  obtain t ss pre t' where 1: "xs = t # ss" "ys = pre @ t' # ss" "same_scope t t'"
    using assms(1) by (auto simp: stack_le_def)
  obtain u us pre2 u' where 2: "ys = u # us" "zs = pre2 @ u' # us" "same_scope u u'"
    using assms(2) by (auto simp: stack_le_def)
  show ?thesis
  proof (cases pre)
    case Nil
    with 1 2 show ?thesis by (auto simp: stack_le_def intro: same_scope_trans)
  next
    case (Cons p pre')
    with 1 2 have "zs = (pre2 @ u' # pre') @ t' # ss" by auto
    with 1 show ?thesis unfolding stack_le_def by blast
  qed
qed

lemma stack_le_current: "same_scope t t' \<Longrightarrow> stack_le (t # ss) (t' # ss)"
  unfolding stack_le_def by (metis append_Nil)

lemma stack_le_pushed: "stack_le (t # ss) (p # t # ss)"
  unfolding stack_le_def by (metis append_Cons append_Nil same_scope_refl)

lemma evolves_refl: "wt_interp s \<Longrightarrow> evolves s s"
  by (simp add: evolves_def wt_interp_def Let_def stack_le_refl)

lemma evolves_fields:
  assumes "evolves s s'"
  shows "heap_le (in_heap s) (in_heap s')"
    and "stack_le (es_scopes (in_scope s)) (es_scopes (in_scope s'))"
    and "length (es_returns (in_scope s)) \<le> length (es_returns (in_scope s'))"
    and "in_clock s \<le> in_clock s'"
    and "in_deadline s' = in_deadline s"
    and "in_deadline s = Some d \<Longrightarrow> in_clock s' \<le> max (in_clock s) d"
    and "\<exists>out. in_output s' = in_output s @ out"
  using assms by (simp_all add: evolves_def)

lemma evolves_trans:
  assumes st: "evolves s t" and tu: "evolves t u"
  shows "evolves s u"
  unfolding evolves_def
proof (intro conjI allI impI)
  show "heap_le (in_heap s) (in_heap u)"
    using evolves_fields(1) [OF st] evolves_fields(1) [OF tu] by (rule heap_le_trans)
  show "stack_le (es_scopes (in_scope s)) (es_scopes (in_scope u))"
    using evolves_fields(2) [OF st] evolves_fields(2) [OF tu] by (rule stack_le_trans)
  show "length (es_returns (in_scope s)) \<le> length (es_returns (in_scope u))"
    using evolves_fields(3) [OF st] evolves_fields(3) [OF tu] by (rule le_trans)
  show "in_clock s \<le> in_clock u"
    using evolves_fields(4) [OF st] evolves_fields(4) [OF tu] by (rule order_trans)
  show dl: "in_deadline u = in_deadline s"
    using evolves_fields(5) [OF st] evolves_fields(5) [OF tu] by (rule trans [rotated])
  show "in_clock u \<le> max (in_clock s) d" if d: "in_deadline s = Some d" for d
  proof -
    have "in_deadline t = Some d" using d evolves_fields(5) [OF st] by (rule trans [rotated])
    then have "in_clock u \<le> max (in_clock t) d" by (rule evolves_fields(6) [OF tu])
    moreover have "in_clock t \<le> max (in_clock s) d" using d by (rule evolves_fields(6) [OF st])
    ultimately show ?thesis by linarith
  qed
  obtain o1 where o1: "in_output t = in_output s @ o1" using evolves_fields(7) [OF st] by blast
  obtain o2 where o2: "in_output u = in_output t @ o2" using evolves_fields(7) [OF tu] by blast
  show "\<exists>out. in_output u = in_output s @ out" by (rule exI [of _ "o1 @ o2"]) (simp add: o1 o2)
qed

section \<open>Good computations\<close>

text \<open>
  Started in a typed state in which the entities of E are typed, the computation leaves a typed
  state that evolves from it, and the entities of its result are typed there.
\<close>

definition good :: "entity set \<Rightarrow> ('a \<Rightarrow> entity set) \<Rightarrow> 'a comp \<Rightarrow> bool" where
  "good E P m \<longleftrightarrow> (\<forall>s r s'. wt_interp s \<longrightarrow> (\<forall>e \<in> E. wt_entity (in_heap s) e) \<longrightarrow> m s = (r, s') \<longrightarrow>
     wt_interp s' \<and> evolves s s' \<and> (\<forall>x. r = Done x \<longrightarrow> (\<forall>e \<in> P x. wt_entity (in_heap s') e)))"

lemma goodI:
  assumes "\<And>s r s'. wt_interp s \<Longrightarrow> \<forall>e \<in> E. wt_entity (in_heap s) e \<Longrightarrow> m s = (r, s') \<Longrightarrow>
    wt_interp s' \<and> evolves s s' \<and> (\<forall>x. r = Done x \<longrightarrow> (\<forall>e \<in> P x. wt_entity (in_heap s') e))"
  shows "good E P m"
  unfolding good_def using assms by blast

lemma goodD:
  assumes "good E P m" and "wt_interp s" and "\<forall>e \<in> E. wt_entity (in_heap s) e" and "m s = (r, s')"
  shows "wt_interp s'" and "evolves s s'" and "r = Done x \<Longrightarrow> e \<in> P x \<Longrightarrow> wt_entity (in_heap s') e"
  using assms unfolding good_def by blast+

lemma good_weaken: "good E P m \<Longrightarrow> E \<subseteq> E' \<Longrightarrow> (\<And>x. P' x \<subseteq> P x) \<Longrightarrow> good E' P' m"
  unfolding good_def by blast

lemma good_return [simp]: "P x \<subseteq> E \<Longrightarrow> good E P (return_m x)"
  by (auto simp: good_def return_m_def evolves_refl)

lemma good_throw [simp]: "good E P (throw_m e)"
  by (auto simp: good_def throw_m_def evolves_refl)

lemma good_no_fuel [simp]: "good E P no_fuel"
  by (auto simp: good_def no_fuel_def evolves_refl)

lemma good_bind:
  assumes m: "good E P m" and f: "\<And>x. good (E \<union> P x) Q (f x)"
  shows "good E Q (bind_m m f)"
proof (rule goodI)
  fix s r s'
  assume s: "wt_interp s" "\<forall>e \<in> E. wt_entity (in_heap s) e" and run: "bind_m m f s = (r, s')"
  obtain r1 s1 where m1: "m s = (r1, s1)" by fastforce
  note one = goodD [OF m s m1]
  show "wt_interp s' \<and> evolves s s' \<and> (\<forall>x. r = Done x \<longrightarrow> (\<forall>e \<in> Q x. wt_entity (in_heap s') e))"
  proof (cases r1)
    case (Done x)
    have "heap_le (in_heap s) (in_heap s1)" using one(2) by (simp add: evolves_def)
    then have "\<forall>e \<in> E \<union> P x. wt_entity (in_heap s1) e"
      using s(2) one(3) [OF Done] by (auto intro: wt_entity_mono)
    moreover have "f x s1 = (r, s')" using run m1 Done by (simp add: bind_m_def)
    ultimately show ?thesis
      using goodD [OF f [of x] one(1), of r s'] one(2) by (blast intro: evolves_trans)
  qed (use run m1 one in \<open>auto simp: bind_m_def\<close>)
qed

lemma good_get: "good E (\<lambda>_. {}) (get_m f)"
  by (auto simp: good_def get_m_def evolves_refl)

lemma good_get_entities:
  "(\<And>s x e. wt_interp s \<Longrightarrow> f s = x \<Longrightarrow> e \<in> P x \<Longrightarrow> wt_entity (in_heap s) e) \<Longrightarrow> good E P (get_m f)"
  by (auto simp: good_def get_m_def evolves_refl)

lemma good_emit: "good E (\<lambda>_. {}) (emit x)"
  by (auto simp: good_def emit_def wt_interp_def evolves_def Let_def stack_le_refl)

lemma good_of_option: "good E (\<lambda>_. {}) (of_option x)"
  by (cases x) (simp_all add: of_option_def)

text \<open>Replacing the heap by a larger typed one.\<close>

lemma wt_heap_update:
  assumes "wt_interp s" and "heap_le (in_heap s) h" and "wt_heap h"
  shows "wt_interp (s\<lparr>in_heap := h\<rparr>) \<and> evolves s (s\<lparr>in_heap := h\<rparr>)"
  using assms
  by (auto simp: wt_interp_def evolves_def Let_def wt_scope_def stack_le_refl
      intro: heap_le_trans wt_entity_mono)

lemma good_heap:
  assumes "\<And>h. wt_heap h \<Longrightarrow> heap_le initial_heap h \<Longrightarrow> \<forall>e \<in> E. wt_entity h e \<Longrightarrow>
    heap_le h (snd (f h)) \<and> wt_heap (snd (f h)) \<and> (\<forall>e \<in> P (fst (f h)). wt_entity (snd (f h)) e)"
  shows "good E P (heap_m f)"
proof (rule goodI)
  fix s r s'
  assume s: "wt_interp s" "\<forall>e \<in> E. wt_entity (in_heap s) e" and run: "heap_m f s = (r, s')"
  have "wt_heap (in_heap s)" "heap_le initial_heap (in_heap s)" using s by (simp_all add: wt_interp_def Let_def)
  note f = assms [OF this s(2)]
  have "r = Done (fst (f (in_heap s)))" "s' = s\<lparr>in_heap := snd (f (in_heap s))\<rparr>"
    using run by (auto simp: heap_m_def split_beta)
  then show "wt_interp s' \<and> evolves s s' \<and> (\<forall>x. r = Done x \<longrightarrow> (\<forall>e \<in> P x. wt_entity (in_heap s') e))"
    using f wt_heap_update [OF s(1)] by auto
qed

lemma good_made:
  "(\<And>h. wt_heap h \<Longrightarrow> \<forall>e \<in> E. wt_entity h e \<Longrightarrow> wt_made h (f h)) \<Longrightarrow> good E (\<lambda>x. {x}) (heap_m f)"
  by (rule good_heap) (simp add: wt_made_def)

lemma good_ensure: "good (case r of Inl _ \<Rightarrow> {} | Inr e \<Rightarrow> {e}) (\<lambda>x. {x}) (ensure_value r)"
  by (cases r) (simp_all add: ensure_value_def)

lemma good_ensured:
  assumes "\<And>h. wt_heap h \<Longrightarrow> \<forall>e \<in> E. wt_entity h e \<Longrightarrow> wt_result h (f h)"
  shows "good E (\<lambda>x. {x}) (ensured f)"
  unfolding ensured_def
proof (rule good_bind)
  show "good E (\<lambda>r. case r of Inl _ \<Rightarrow> {} | Inr e \<Rightarrow> {e}) (heap_m f)"
    using assms by (intro good_heap) (auto simp: wt_result_def split: sum.split)
  show "good (E \<union> (case r of Inl _ \<Rightarrow> {} | Inr e \<Rightarrow> {e})) (\<lambda>x. {x}) (ensure_value r)" for r
    using good_ensure by (rule good_weaken) auto
qed

lemma good_construct: "good {arg} (\<lambda>x. {x}) (construct_m rt t arg)"
proof (rule goodI)
  fix s r s'
  assume s: "wt_interp s" "\<forall>e \<in> {arg}. wt_entity (in_heap s) e" and run: "construct_m rt t arg s = (r, s')"
  show "wt_interp s' \<and> evolves s s' \<and> (\<forall>x. r = Done x \<longrightarrow> (\<forall>e \<in> {x}. wt_entity (in_heap s') e))"
  proof (cases "construct rt t arg (in_heap s)")
    case None
    with run s show ?thesis by (auto simp: construct_m_def evolves_refl)
  next
    case (Some p)
    have "wt_result (in_heap s) p"
      using s Some by (intro wt_construct) (simp_all add: wt_interp_def Let_def)
    then have p: "heap_le (in_heap s) (snd p)" "wt_heap (snd p)" "\<forall>e. fst p = Inr e \<longrightarrow> wt_entity (snd p) e"
      by (simp_all add: wt_result_def)
    have "ensure_value (fst p) (s\<lparr>in_heap := snd p\<rparr>) = (r, s')"
      using run Some by (simp add: construct_m_def split_beta)
    then have "s' = s\<lparr>in_heap := snd p\<rparr> \<and> (\<forall>x. r = Done x \<longrightarrow> fst p = Inr x)"
      by (auto simp: ensure_value_def throw_m_def return_m_def split: sum.splits)
    then show ?thesis using p wt_heap_update [OF s(1) p(1,2)] by auto
  qed
qed

end
