(* ===== verification/Flow_Sound.thy ===== *)
theory Flow_Sound
  imports Flow_Invariant
begin

text \<open>
  Every evaluation of the interpreter is good, by induction on the fuel: type safety, the scope
  discipline and the frame conditions of Flow_Invariant hold for all programs.
\<close>

section \<open>Scopes and time\<close>

lemma wt_interp_scope:
  assumes "wt_interp s"
  obtains t ss where "es_scopes (in_scope s) = t # ss"
  using assms by (cases "es_scopes (in_scope s)") (auto simp: wt_interp_def Let_def)

lemma good_add_entity: "e \<in> E \<Longrightarrow> good E (\<lambda>_. {}) (modify_scope (\<lambda>es. add_entity es name e))"
proof (rule goodI)
  fix s :: interp and r s'
  assume e: "e \<in> E" and s: "wt_interp s" "\<forall>e \<in> E. wt_entity (in_heap s) e"
    and run: "modify_scope (\<lambda>es. add_entity es name e) s = (r, s')"
  obtain t ss where t: "es_scopes (in_scope s) = t # ss" using s(1) by (rule wt_interp_scope)
  have s': "s' = s\<lparr>in_scope := add_entity (in_scope s) name e\<rparr>" "r = Done ()"
    using run by (simp_all add: modify_scope_def)
  have st: "es_scopes (in_scope s') = scope_add t name e # ss" "es_returns (in_scope s') = es_returns (in_scope s)"
    using t by (simp_all add: s' add_entity_def update_current_def)
  have "same_scope t (scope_add t name e)" by (simp add: same_scope_def scope_add_def)
  then have "stack_le (t # ss) (scope_add t name e # ss)" by (rule stack_le_current)
  then have "evolves s s'" using st t by (simp add: evolves_def s')
  moreover have "wt_interp s'"
    using s e t st by (auto simp: wt_interp_def Let_def s' wt_scope_def scope_add_def)
  ultimately show "wt_interp s' \<and> evolves s s' \<and> (\<forall>x. r = Done x \<longrightarrow> (\<forall>e \<in> {}. wt_entity (in_heap s') e))"
    by simp
qed

lemma update_policy_stack:
  "es_scopes es = t # ss \<Longrightarrow>
   es_scopes (update_current (\<lambda>sc. sc\<lparr>sc_policy := p\<rparr>) es) = t\<lparr>sc_policy := p\<rparr> # ss"
  "es_returns (update_current f es) = es_returns es"
  by (simp_all add: update_current_def split: list.split)

lemma wt_scope_policy [simp]: "wt_scope h n (sc\<lparr>sc_policy := p\<rparr>) = wt_scope h n sc"
  by (simp add: wt_scope_def)

lemma good_break: "good E (\<lambda>_. {}) (modify_scope break_loop)"
proof (rule goodI)
  fix s :: interp and r s'
  assume s: "wt_interp s" and run: "modify_scope break_loop s = (r, s')"
  obtain t ss where t: "es_scopes (in_scope s) = t # ss" using s(1) by (rule wt_interp_scope)
  have s': "s' = s\<lparr>in_scope := break_loop (in_scope s)\<rparr>" using run by (simp add: modify_scope_def)
  have st: "es_scopes (in_scope s') = t\<lparr>sc_policy := Break\<rparr> # ss"
    "es_returns (in_scope s') = es_returns (in_scope s)"
    by (simp_all add: s' break_loop_def update_policy_stack(1) [OF t] update_policy_stack(2))
  have "stack_le (t # ss) (t\<lparr>sc_policy := Break\<rparr> # ss)" by (intro stack_le_current same_scope_policy)
  then have "evolves s s'" using st t by (simp add: evolves_def s')
  moreover have "wt_interp s'" using s t st by (auto simp: wt_interp_def Let_def s')
  ultimately show "wt_interp s' \<and> evolves s s' \<and> (\<forall>x. r = Done x \<longrightarrow> (\<forall>e \<in> {}. wt_entity (in_heap s') e))"
    by simp
qed

lemma good_return_value: "v \<in> E \<Longrightarrow> good E (\<lambda>_. {}) (modify_scope (return_value v))"
proof (rule goodI)
  fix s :: interp and r s'
  assume v: "v \<in> E" and s: "wt_interp s" "\<forall>e \<in> E. wt_entity (in_heap s) e"
    and run: "modify_scope (return_value v) s = (r, s')"
  obtain t ss where t: "es_scopes (in_scope s) = t # ss" using s(1) by (rule wt_interp_scope)
  have s': "s' = s\<lparr>in_scope := return_value v (in_scope s)\<rparr>" using run by (simp add: modify_scope_def)
  let ?rs = "shared_set (es_returns (in_scope s)) (sc_return t) (Some v)"
  have st: "es_scopes (in_scope s') = t\<lparr>sc_policy := Return\<rparr> # ss" "es_returns (in_scope s') = ?rs"
    using t by (simp_all add: s' return_value_def current_def update_current_def)
  have "stack_le (t # ss) (t\<lparr>sc_policy := Return\<rparr> # ss)" by (intro stack_le_current same_scope_policy)
  then have "evolves s s'" using st t by (simp add: evolves_def s' shared_set_def)
  moreover have "Some x \<in> set ?rs \<Longrightarrow> x = v \<or> Some x \<in> set (es_returns (in_scope s))" for x
    using set_update_subset_insert [of "es_returns (in_scope s)" "sc_return t" "Some v"]
    by (auto simp: shared_set_def)
  then have "wt_interp s'" using s v t st
    by (fastforce simp: wt_interp_def Let_def s' shared_set_def)
  ultimately show "wt_interp s' \<and> evolves s s' \<and> (\<forall>x. r = Done x \<longrightarrow> (\<forall>e \<in> {}. wt_entity (in_heap s') e))"
    by simp
qed

text \<open>Pushing a scope on a typed state.\<close>

lemma wt_push:
  assumes "wt_interp s" and "es_scopes (in_scope s) = t # ss"
  shows "\<exists>p. es_scopes (in_scope (s\<lparr>in_scope := push k (in_scope s)\<rparr>)) = p # t # ss
    \<and> wt_interp (s\<lparr>in_scope := push k (in_scope s)\<rparr>) \<and> evolves s (s\<lparr>in_scope := push k (in_scope s)\<rparr>)"
proof -
  obtain p where p: "es_scopes (push k (in_scope s)) = p # t # ss"
    and ret: "es_returns (push k (in_scope s)) = es_returns (in_scope s)
      \<or> es_returns (push k (in_scope s)) = es_returns (in_scope s) @ [None]"
    and wt: "wt_scope (in_heap s) (length (es_returns (push k (in_scope s)))) p"
    using assms
    by (cases k) (auto simp: new_scope_def shared_make_def current_def wt_interp_def wt_scope_def Let_def)
  let ?s' = "s\<lparr>in_scope := push k (in_scope s)\<rparr>"
  have len: "length (es_returns (in_scope s)) \<le> length (es_returns (push k (in_scope s)))"
    using ret by auto
  have "evolves s ?s'" using p assms(2) len stack_le_pushed by (simp add: evolves_def)
  moreover have "wt_interp ?s'"
    using assms p wt ret len by (auto simp: wt_interp_def Let_def wt_scope_def)
  ultimately show ?thesis using p by auto
qed

text \<open>Popping the scope that was pushed, or whatever was left above it.\<close>

lemma wt_pop:
  assumes s: "wt_interp s" "es_scopes (in_scope s) = t # ss"
    and mid: "wt_interp u" and ev: "evolves (s\<lparr>in_scope := push k (in_scope s)\<rparr>) u"
  shows "wt_interp (u\<lparr>in_scope := pop_scope (in_scope u)\<rparr>)
    \<and> evolves s (u\<lparr>in_scope := pop_scope (in_scope u)\<rparr>)"
proof -
  obtain p where p: "es_scopes (push k (in_scope s)) = p # t # ss"
    and ev0: "evolves s (s\<lparr>in_scope := push k (in_scope s)\<rparr>)"
    using wt_push [OF s, of k] by auto
  obtain pre p' where u: "es_scopes (in_scope u) = pre @ p' # t # ss"
    using evolves_fields(2) [OF ev] p by (auto simp: stack_le_def)
  have "\<exists>q rest. es_scopes (in_scope u) = q # rest \<and> rest \<noteq> []
      \<and> (\<exists>pre t'. rest = pre @ t # ss)"
    using u by (cases pre) auto
  then obtain q r rest pre' where q: "es_scopes (in_scope u) = q # r # rest" and pre': "r # rest = pre' @ t # ss"
    by (metis neq_Nil_conv)
  define w where "w = u\<lparr>in_scope := pop_scope (in_scope u)\<rparr>"
  have popped: "es_scopes (in_scope w) = r # rest
      \<or> (\<exists>pol. es_scopes (in_scope w) = r\<lparr>sc_policy := pol\<rparr> # rest)"
    by (simp add: w_def pop_policy [OF q]) blast
  then obtain r' where w: "es_scopes (in_scope w) = r' # rest" and r': "same_scope r r'"
    and wtr: "wt_scope h n r' = wt_scope h n r" for h n
    by (metis same_scope_policy same_scope_refl wt_scope_policy)
  have "stack_le (t # ss) (r' # rest)"
  proof (cases pre')
    case Nil
    with pre' r' show ?thesis by (auto intro: stack_le_current)
  next
    case (Cons x xs)
    with pre' have "r' # rest = (r' # xs) @ t # ss" by simp
    then show ?thesis unfolding stack_le_def using same_scope_refl by metis
  qed
  moreover have "evolves s u" using ev0 ev by (rule evolves_trans)
  ultimately have "evolves s w" using w s(2) by (simp add: evolves_def w_def)
  moreover have "wt_interp w"
    using mid q w wtr by (auto simp: wt_interp_def Let_def w_def)
  ultimately show ?thesis by (simp add: w_def)
qed

lemma good_scoped:
  assumes "good E P m"
  shows "good E P (bind_m (modify_scope (push k)) (\<lambda>_.
    on_scope_exit (\<lambda>s. s\<lparr>in_scope := pop_scope (in_scope s)\<rparr>) m))"
proof (rule goodI)
  fix s r s'
  assume s: "wt_interp s" "\<forall>e \<in> E. wt_entity (in_heap s) e"
    and run: "bind_m (modify_scope (push k)) (\<lambda>_.
      on_scope_exit (\<lambda>s. s\<lparr>in_scope := pop_scope (in_scope s)\<rparr>) m) s = (r, s')"
  obtain t ss where t: "es_scopes (in_scope s) = t # ss" using s(1) by (rule wt_interp_scope)
  let ?s1 = "s\<lparr>in_scope := push k (in_scope s)\<rparr>"
  have s1: "wt_interp ?s1" using wt_push [OF s(1) t, of k] by auto
  obtain u where u: "m ?s1 = (r, u)" and s': "s' = u\<lparr>in_scope := pop_scope (in_scope u)\<rparr>"
    using run by (auto simp: bind_m_def modify_scope_def on_scope_exit_def split: prod.splits)
  have "\<forall>e \<in> E. wt_entity (in_heap ?s1) e" using s(2) by simp
  note one = goodD [OF assms s1 this u]
  show "wt_interp s' \<and> evolves s s' \<and> (\<forall>x. r = Done x \<longrightarrow> (\<forall>e \<in> P x. wt_entity (in_heap s') e))"
    using wt_pop [OF s(1) t one(1,2)] one(3) by (auto simp: s')
qed

lemma good_function_scope:
  assumes "good E P m"
  shows "good E P (bind_m (modify_scope (push k)) (\<lambda>_.
    bind_m m (\<lambda>x. bind_m (modify_scope pop_scope) (\<lambda>_. return_m x))))"
proof (rule goodI)
  fix s r s'
  assume s: "wt_interp s" "\<forall>e \<in> E. wt_entity (in_heap s) e"
    and run: "bind_m (modify_scope (push k)) (\<lambda>_.
      bind_m m (\<lambda>x. bind_m (modify_scope pop_scope) (\<lambda>_. return_m x))) s = (r, s')"
  obtain t ss where t: "es_scopes (in_scope s) = t # ss" using s(1) by (rule wt_interp_scope)
  let ?s1 = "s\<lparr>in_scope := push k (in_scope s)\<rparr>"
  have s1: "wt_interp ?s1" and ev1: "evolves s ?s1" using wt_push [OF s(1) t, of k] by auto
  obtain r1 u where u: "m ?s1 = (r1, u)" by fastforce
  have "\<forall>e \<in> E. wt_entity (in_heap ?s1) e" using s(2) by simp
  note one = goodD [OF assms s1 this u]
  have ev: "evolves s u" using ev1 one(2) by (rule evolves_trans)
  show "wt_interp s' \<and> evolves s s' \<and> (\<forall>x. r = Done x \<longrightarrow> (\<forall>e \<in> P x. wt_entity (in_heap s') e))"
  proof (cases r1)
    case (Done x)
    then have "r = Done x" "s' = u\<lparr>in_scope := pop_scope (in_scope u)\<rparr>"
      using run u by (simp_all add: bind_m_def modify_scope_def return_m_def)
    then show ?thesis using wt_pop [OF s(1) t one(1,2)] one(3) Done by auto
  qed (use run u one(1) ev in \<open>auto simp: bind_m_def modify_scope_def\<close>)
qed


section \<open>Waiting\<close>

lemma wt_interp_clock [simp]:
  "wt_interp (s\<lparr>in_clock := c\<rparr>) = wt_interp s" "wt_interp (s\<lparr>in_deadline := d\<rparr>) = wt_interp s"
  by (simp_all add: wt_interp_def)

lemma evolves_clock:
  assumes "wt_interp s" and "in_clock s \<le> c" and "\<And>d. in_deadline s = Some d \<Longrightarrow> c \<le> max (in_clock s) d"
  shows "evolves s (s\<lparr>in_clock := c\<rparr>)"
  using evolves_refl [OF assms(1)] assms(2,3) by (simp add: evolves_def)

lemma good_wait_until: "good E (\<lambda>_. {}) (wait_until t)"
proof (rule goodI)
  fix s r s'
  assume s: "wt_interp s" and run: "wait_until t s = (r, s')"
  obtain c where "s' = s\<lparr>in_clock := c\<rparr>" "in_clock s \<le> c"
    "\<And>d. in_deadline s = Some d \<Longrightarrow> c \<le> max (in_clock s) d"
    using run by (auto simp: wait_until_def split: option.splits if_splits)
  then show "wt_interp s' \<and> evolves s s' \<and> (\<forall>x. r = Done x \<longrightarrow> (\<forall>e \<in> {}. wt_entity (in_heap s') e))"
    using s evolves_clock by simp
qed

lemma good_delay: "good E (\<lambda>_. {}) (delay d)"
  using good_wait_until unfolding good_def delay_def by metis

lemma good_await_reply: "good E (\<lambda>_. {}) (await_reply r)"
proof (cases r)
  case (Reply t j)
  then show ?thesis by (simp add: await_reply_def good_bind [OF good_delay])
next
  case (ReplyFails t e)
  then show ?thesis by (simp add: await_reply_def good_bind [OF good_delay])
next
  case NoReply
  show ?thesis
  proof (rule goodI)
    fix s r' s'
    assume s: "wt_interp s" and run: "await_reply r s = (r', s')"
    have "s' = s \<or> (\<exists>d. in_deadline s = Some d \<and> s' = s\<lparr>in_clock := max (in_clock s) d\<rparr>)"
      using run NoReply by (auto simp: await_reply_def split: option.splits)
    then show "wt_interp s' \<and> evolves s s' \<and> (\<forall>x. r' = Done x \<longrightarrow> (\<forall>e \<in> {}. wt_entity (in_heap s') e))"
      using s evolves_refl [OF s] evolves_clock [OF s] by auto
  qed
qed

lemma good_with_timeout:
  assumes "good E P m"
  shows "good E (\<lambda>x. case x of None \<Rightarrow> {} | Some y \<Rightarrow> P y) (with_timeout d m)"
proof (rule goodI)
  fix s r s'
  assume s: "wt_interp s" "\<forall>e \<in> E. wt_entity (in_heap s) e" and run: "with_timeout d m s = (r, s')"
  define dl where "dl = (case in_deadline s of None \<Rightarrow> in_clock s + d | Some t \<Rightarrow> min (in_clock s + d) t)"
  obtain r1 u where u: "m (s\<lparr>in_deadline := Some dl\<rparr>) = (r1, u)" by fastforce
  have "wt_interp (s\<lparr>in_deadline := Some dl\<rparr>)" "\<forall>e \<in> E. wt_entity (in_heap (s\<lparr>in_deadline := Some dl\<rparr>)) e"
    using s by simp_all
  note one = goodD [OF assms this u]
  have run': "(r, s') = (let s2 = u\<lparr>in_deadline := in_deadline s\<rparr> in
      case r1 of Done x \<Rightarrow> (Done (Some x), s2) | Throw e \<Rightarrow> (Throw e, s2) | OutOfFuel \<Rightarrow> (OutOfFuel, s2)
      | Cut \<Rightarrow> (if dl = in_clock s + d then (Done None, s2) else (Cut, s2)))"
    using run unfolding with_timeout_def Let_def dl_def [symmetric] u prod.case by (rule sym)
  have s': "s' = u\<lparr>in_deadline := in_deadline s\<rparr>"
    using run' by (cases r1) (simp_all add: Let_def split: if_splits)
  have r: "r = Done (Some x) \<Longrightarrow> r1 = Done x" for x
    using run' by (cases r1) (simp_all add: Let_def split: if_splits)
  have "in_clock u \<le> max (in_clock s) dl" using evolves_fields(6) [OF one(2)] by simp
  then have "in_clock u \<le> max (in_clock s) t" if "in_deadline s = Some t" for t
    using that by (simp add: dl_def)
  then have "evolves s s'" using one(2) by (auto simp: evolves_def s')
  moreover have "\<forall>x. r = Done x \<longrightarrow> (\<forall>e \<in> (case x of None \<Rightarrow> {} | Some y \<Rightarrow> P y). wt_entity (in_heap s') e)"
    using r one(3) by (auto simp: s' split: option.split)
  ultimately show "wt_interp s' \<and> evolves s s'
      \<and> (\<forall>x. r = Done x \<longrightarrow> (\<forall>e \<in> (case x of None \<Rightarrow> {} | Some y \<Rightarrow> P y). wt_entity (in_heap s') e))"
    using one(1) by (simp add: s')
qed

end
