(* ===== verification/Flow_Preserve.thy ===== *)
theory Flow_Preserve
  imports Flow_Sound
begin

text \<open>
  Goodness of every function of the interpreter, and by induction on the fuel of the interpreter
  itself: good_interpreter.
\<close>

section \<open>Rules up to entailment\<close>

text \<open>The entities of E being typed makes those of F typed.\<close>

definition entails :: "entity set \<Rightarrow> entity set \<Rightarrow> bool" where
  "entails E F \<longleftrightarrow> (\<forall>h. (\<forall>e \<in> E. wt_entity h e) \<longrightarrow> (\<forall>e \<in> F. wt_entity h e))"

lemma good_entails: "good F P m \<Longrightarrow> entails E F \<Longrightarrow> good E P m"
  unfolding good_def entails_def by blast

lemma good_return_entails: "entails E (P x) \<Longrightarrow> good E P (return_m x)"
  by (rule good_entails [of "P x"]) simp_all

lemma entails_subset: "F \<subseteq> E \<Longrightarrow> entails E F"
  unfolding entails_def by blast

lemma entails_trivial [simp]: "(\<And>h. wt_entity h e) \<Longrightarrow> entails E {e}"
  by (simp add: entails_def)

lemma entails_arguments: "EWorkflowInvocation w i args \<in> E \<Longrightarrow> entails E (snd ` set args)"
  unfolding entails_def by fastforce

lemma entails_invocation: "snd ` set args \<subseteq> E \<Longrightarrow> entails E {EWorkflowInvocation w i args}"
  unfolding entails_def by fastforce

lemma good_none: "good E P m \<Longrightarrow> good E (\<lambda>_. {}) m"
  by (rule good_weaken) auto

definition good_ev :: "evaluators \<Rightarrow> bool" where
  "good_ev ev \<longleftrightarrow> (\<forall>e. good {} (\<lambda>x. {x}) (ev_expression ev e))
     \<and> (\<forall>st. good {} (\<lambda>_. {}) (ev_statement ev st))"

lemma good_ev_expression: "good_ev ev \<Longrightarrow> good E (\<lambda>x. {x}) (ev_expression ev e)"
  by (rule good_weaken [of "{}" "\<lambda>x. {x}"]) (auto simp: good_ev_def)

lemma good_ev_statement: "good_ev ev \<Longrightarrow> good E (\<lambda>_. {}) (ev_statement ev st)"
  by (rule good_weaken [of "{}" "\<lambda>_. {}"]) (auto simp: good_ev_def)

lemmas good_start = good_bind [OF good_get] good_bind [OF good_of_option]
  good_bind [OF good_emit] good_bind [OF good_ev_expression]

section \<open>Literals, paths, calls\<close>

lemma good_eval_literal: "good E (\<lambda>x. {x}) (eval_literal l)"
  unfolding eval_literal_def by (rule good_made, cases l) (simp_all add: wt_made_new del: new_cell.simps)

lemma good_eval_properties: "x \<in> E \<Longrightarrow> good E (\<lambda>x. {x}) (eval_properties is x)"
proof (induction "is" arbitrary: x E)
  case (Cons i "is")
  have "good E (\<lambda>x. {x}) (ensured (get_property x i))"
    using Cons.prems by (intro good_ensured wt_get_property) auto
  then show ?case by (auto intro!: good_bind Cons.IH)
qed simp

lemma find_in_scopes:
  "find_in (\<lambda>s. scope_find_entity s i) scs = Some e \<Longrightarrow>
    \<exists>sc \<in> set scs. \<exists>v \<in> set (sc_entries sc). ve_value v = e"
proof (induction scs)
  case (Cons sc scs)
  show ?case
  proof (cases "scope_find_entity sc i")
    case None
    with Cons show ?thesis by auto
  next
    case (Some x)
    then obtain v where "find (\<lambda>e. ve_name e = i) (rev (sc_entries sc)) = Some v" "ve_value v = x"
      by (auto simp: scope_find_entity_def)
    moreover from this have "v \<in> set (sc_entries sc)" by (auto simp: find_Some_iff) (metis nth_mem length_rev set_rev)
    ultimately show ?thesis using Some Cons.prems by auto
  qed
qed simp

lemma wt_find_entity: "wt_interp s \<Longrightarrow> find_entity (in_scope s) i = Some e \<Longrightarrow> wt_entity (in_heap s) e"
  by (auto simp: find_entity_def wt_interp_def wt_scope_def Let_def dest!: find_in_scopes)

lemma good_find_entity: "good E set_option (get_m (\<lambda>s. find_entity (in_scope s) i))"
  by (rule good_get_entities) (auto dest: wt_find_entity)

lemma good_eval_path: "good E (\<lambda>x. {x}) (eval_path path)"
  unfolding eval_path_def
  by (cases path) (auto intro!: good_bind [OF good_find_entity] good_eval_properties split: option.split)

lemma good_eval_call_arguments:
  "good_ev ev \<Longrightarrow> snd ` set args \<subseteq> E \<Longrightarrow> good E (\<lambda>as. snd ` set as) (eval_call_arguments ev as args)"
proof (induction as arbitrary: args E)
  case (Cons a as)
  obtain n e where a: "a = (n, e)" by fastforce
  show ?case unfolding a eval_call_arguments.simps
    using Cons.prems by (intro good_start Cons.IH) (auto simp: push_argument_def)
qed simp

lemma good_call_free_function: "good E (\<lambda>x. {x}) (call_free_function env ev f args)"
proof (cases f)
  case Println
  then show ?thesis
    by (auto simp: call_free_function_def intro!: good_start good_return_entails)
next
  case Panic
  then show ?thesis by (auto simp: call_free_function_def intro!: good_start)
next
  case StrFormat
  have "good F (\<lambda>x. {x}) (heap_m (new_string t))" for F t
    by (rule good_made) (rule wt_made_new)
  then show ?thesis
    using StrFormat by (auto simp: call_free_function_def intro!: good_start split: sum.split)
qed

lemma good_eval_function_call:
  assumes "good_ev ev"
  shows "good E (\<lambda>x. {x}) (eval_function_call env ev call)"
proof -
  have args: "good F (\<lambda>as. snd ` set as) (eval_call_arguments ev as [])" for F as
    using assms by (rule good_eval_call_arguments) simp
  have mem: "good F (\<lambda>x. {x}) (bind_m (eval_path p) (\<lambda>self. bind_m (eval_call_arguments ev as [])
      (\<lambda>args. ensured (call_mem_function rt self n args))))" for F p as rt n
    by (intro good_bind [OF good_eval_path] good_bind [OF args] good_ensured wt_call_mem_function) force+
  have free: "good F (\<lambda>x. {x}) (bind_m (eval_call_arguments ev as []) (call_free_function env ev f))" for F f as
    by (intro good_bind [OF args] good_call_free_function)
  have wf: "good F (\<lambda>x. {x}) (bind_m (eval_call_arguments ev as [])
      (\<lambda>args. return_m (EWorkflowInvocation w i args)))" for F w i as
    by (intro good_bind [OF args] good_return_entails entails_invocation) simp
  show ?thesis
    unfolding eval_function_call_def Let_def
    by (rule good_bind [OF good_eval_path]) (simp add: mem free wf split: entity.split)
qed

lemma good_eval_elements:
  "good_ev ev \<Longrightarrow> set xs \<subseteq> E \<Longrightarrow> good E set (eval_elements ev es xs)"
proof (induction es arbitrary: xs E)
  case (Cons e es)
  show ?case unfolding eval_elements.simps
    using Cons.prems by (intro good_start Cons.IH) auto
qed simp

lemma good_eval_array:
  assumes "good_ev ev"
  shows "good E (\<lambda>x. {x}) (eval_array ev es)"
  unfolding eval_array_def
proof (rule good_bind)
  show "good E set (eval_elements ev es [])" using assms by (rule good_eval_elements) simp
  show "good (E \<union> set xs) (\<lambda>x. {x}) (heap_m (new_array xs))" for xs
    by (rule good_made) (simp add: wt_made_new list_all_iff)
qed

text \<open>The values of a map in key order; a list out of order is no map, which no heap can type.\<close>

definition map_values :: "(string \<times> entity) list \<Rightarrow> entity set" where
  "map_values m = (if sorted_keys m then snd ` set m else UNIV)"

lemma map_values_wt: "\<forall>e \<in> map_values m. wt_entity h e \<Longrightarrow> sorted_keys m \<and> list_all (wt_entity h \<circ> snd) m"
proof (cases "sorted_keys m")
  case False
  assume "\<forall>e \<in> map_values m. wt_entity h e"
  moreover have "EBoolean (length h) \<in> map_values m" using False by (simp add: map_values_def)
  ultimately have "wt_entity h (EBoolean (length h))" by blast
  then show ?thesis by (simp add: has_cell_def)
qed (auto simp: map_values_def list_all_iff)

lemma good_eval_entries:
  "good_ev ev \<Longrightarrow> sorted_keys m \<Longrightarrow> snd ` set m \<subseteq> E \<Longrightarrow> good E map_values (eval_entries ev es m)"
proof (induction es arbitrary: m E)
  case Nil
  then show ?case by (simp add: map_values_def)
next
  case (Cons e es)
  obtain k x where e: "e = (k, x)" by fastforce
  have ins: "snd ` set (map_insert k y m) \<subseteq> E \<union> {y}" for y
    using map_insert_set [of k y m] Cons.prems(3) by fastforce
  show ?case unfolding e eval_entries.simps
    using Cons.prems ins by (intro good_start Cons.IH) (auto simp: sorted_keys_def intro: map_insert_sorted)
qed

lemma good_eval_dictionary:
  assumes "good_ev ev"
  shows "good E (\<lambda>x. {x}) (eval_dictionary ev es)"
  unfolding eval_dictionary_def
proof (rule good_bind)
  show "good E map_values (eval_entries ev es [])"
    using assms by (rule good_eval_entries) (simp_all add: sorted_keys_def)
  show "good (E \<union> map_values m) (\<lambda>x. {x}) (heap_m (new_dictionary Dictionary m))" for m
    by (intro good_made wt_made_new map_values_wt) auto
qed

section \<open>Blocks and invocations\<close>

lemma good_eval_statements: "good_ev ev \<Longrightarrow> good E (\<lambda>_. {}) (eval_statements ev sts)"
proof (induction sts arbitrary: E)
  case (Cons st sts)
  show ?case unfolding eval_statements.simps
    using Cons by (intro good_bind [OF good_ev_statement] good_start) auto
qed simp

lemma good_eval_scope: "good_ev ev \<Longrightarrow> good E (\<lambda>_. {}) (eval_scope ev t sts)"
  unfolding eval_scope_def by (intro good_scoped good_eval_statements)

lemma good_bind_inputs:
  "snd ` set args \<subseteq> E \<Longrightarrow> index + length ins \<le> length args \<Longrightarrow>
    good E (\<lambda>_. {}) (bind_inputs args inst ft index ins)"
proof (induction ins arbitrary: index E)
  case (Cons i ins)
  obtain n t where i: "i = (n, t)" by fastforce
  define arg where "arg = (case find_argument args n of Some e \<Rightarrow> e | None \<Rightarrow> snd (args ! index))"
  have "find_argument args n = Some e \<Longrightarrow> e \<in> snd ` set args" for e
    by (induction args n rule: find_argument.induct) (auto split: if_splits)
  moreover have "args ! index \<in> set args" using Cons.prems(2) by simp
  ultimately have arg: "arg \<in> E" using Cons.prems(1) by (auto simp: arg_def split: option.split)
  show ?case
    unfolding i bind_inputs.simps Let_def arg_def [symmetric]
    using Cons arg
    by (intro good_start)
      (auto intro!: good_bind [OF good_add_entity] Cons.IH split: option.split instanciation.split)
qed simp

lemma good_bind_arguments: "snd ` set args \<subseteq> E \<Longrightarrow> good E (\<lambda>_. {}) (bind_arguments args inst sg)"
  unfolding bind_arguments_def
  by (auto intro!: good_bind_inputs split: option.split instanciation.split)

lemma wt_return_cell:
  "wt_interp s \<Longrightarrow> shared_get (es_returns (in_scope s)) c = Some (Some e) \<Longrightarrow> wt_entity (in_heap s) e"
  by (auto simp: wt_interp_def Let_def shared_get_def split: if_splits) (metis nth_mem)

lemma good_invocation_value: "good E (\<lambda>x. {x}) (invocation_value inst expected c)"
  unfolding invocation_value_def
proof (rule good_bind)
  show "good E set_option (get_m (\<lambda>s. case shared_get (es_returns (in_scope s)) c of
      Some v \<Rightarrow> v | None \<Rightarrow> None))"
    by (rule good_get_entities) (auto dest: wt_return_cell split: option.splits)
  have void: "good F (\<lambda>x. {x}) (return_m EVoid)" for F by (rule good_return_entails) simp
  show "good (E \<union> set_option value) (\<lambda>x. {x}) (if value = None \<and> \<not> same_type expected TVoid
       then (case inst of
           CallStatement _ \<Rightarrow> throw_m (EvaluationError ''Workflow did not return any value'')
         | ExpressionInstance _ \<Rightarrow> throw_m (StdException ''bad_variant_access''))
       else (let result = (case value of Some e \<Rightarrow> e | None \<Rightarrow> EVoid) in
         if \<not> same_type (entity_type_of result) expected \<and> \<not> same_type (entity_type_of result) TError
         then throw_m (EvaluationError (''Invalid return type: expected a '' @ type_name expected
                @ '', got a '' @ type_name (entity_type_of result)))
         else return_m result))" for "value"
    by (cases "value"; cases inst) (simp_all add: Let_def void)
qed

lemma good_eval_invocation:
  assumes "good_ev ev" and "snd ` set args \<subseteq> E"
  shows "good E (\<lambda>x. {x}) (eval_invocation ev w inst args)"
  unfolding eval_invocation_def
proof (rule good_bind)
  show "good E (\<lambda>_. {}) (case return_type_of (workflow_signature w) of
         None \<Rightarrow> return_m TVoid
       | Some name \<Rightarrow> bind_m (get_m (\<lambda>s. find_type (in_scope s) name)) (\<lambda>t. case t of
               None \<Rightarrow> throw_m (EvaluationError (''Unknown return type '' @ name @ '' not found''))
             | Some t \<Rightarrow> return_m t))"
    by (auto intro!: good_start split: option.split)
  show "good (E \<union> {}) (\<lambda>x. {x}) (bind_m (modify_scope (push FunctionScope)) (\<lambda>_. bind_m
       (bind_m (get_m (\<lambda>s. sc_return (current (in_scope s)))) (\<lambda>return_cell.
        bind_m (bind_arguments args inst (workflow_signature w)) (\<lambda>_.
        bind_m (eval_scope ev LocalScope (workflow_statements w)) (\<lambda>_.
        invocation_value inst expected return_cell))))
       (\<lambda>result. bind_m (modify_scope pop_scope) (\<lambda>_. return_m result))))" for expected
    using assms
    by (intro good_function_scope good_start good_bind [OF good_bind_arguments]
        good_bind [OF good_eval_scope] good_invocation_value) auto
qed

section \<open>Await and try\<close>

lemma good_eval_timeout: "good_ev ev \<Longrightarrow> good E (\<lambda>_. {}) (eval_timeout ev d)"
  unfolding eval_timeout_def by (intro good_start) (auto intro!: good_start split: entity.split)

lemma good_eval_await_workflow:
  assumes "good_ev ev" and "snd ` set args \<subseteq> E"
  shows "good E (\<lambda>x. {x}) (eval_await_workflow ev d w inst args)"
  unfolding eval_await_workflow_def
  using assms
  by (intro good_bind [OF good_eval_timeout] good_bind [OF good_with_timeout [OF good_eval_invocation]])
    (auto simp: timeout_error_def intro: good_return_entails split: option.split)

lemma good_eval_await_request:
  assumes "good_ev ev"
  shows "good E (\<lambda>x. {x}) (eval_await_request env ev d k a)"
proof -
  have js: "good F (\<lambda>x. {x}) (heap_m (from_json j l))" for F j l
    by (intro good_made wt_from_json)
  have reply: "good F (\<lambda>x. {x}) (bind_m (with_timeout t (await_reply r)) (\<lambda>result.
      case result of None \<Rightarrow> return_m timeout_error | Some j \<Rightarrow> heap_m (from_json j l)))" for F t r l
    by (rule good_bind [OF good_with_timeout [OF good_await_reply]])
      (auto simp: timeout_error_def js intro: good_return_entails split: option.split)
  show ?thesis
    unfolding eval_await_request_def
    using assms
    by (intro good_bind [OF good_eval_timeout] good_start)
      (auto intro!: good_start reply split: option.split)
qed

lemma good_invocation_arguments:
  assumes "EWorkflowInvocation w i args \<in> E" and "good (snd ` set args) P m"
  shows "good E P m"
  using assms(2) entails_arguments [OF assms(1)] by (rule good_entails)

lemma good_eval_await:
  assumes "good_ev ev"
  shows "good E (\<lambda>x. {x}) (eval_await env ev e d)"
proof -
  have inv: "good (F \<union> {EWorkflowInvocation w i args}) (\<lambda>x. {x}) (eval_await_workflow ev d w i args)" for F w i args
    by (rule good_invocation_arguments [of w i args]) (simp_all add: good_eval_await_workflow assms)
  have inv': "good (insert (EWorkflowInvocation w i args) F) (\<lambda>x. {x}) (eval_await_workflow ev d w i args)"
    for F w i args using inv [of F w i args] by simp
  have def: "good F (\<lambda>x. {x}) (eval_await_workflow ev d w i [])" for F w i
    by (rule good_eval_await_workflow) (simp_all add: assms)
  show ?thesis
    unfolding eval_await_def
    by (rule good_bind [OF good_ev_expression [OF assms]])
      (simp add: inv' def good_eval_await_request assms split: entity.split dictionary_kind.split)
qed

lemma good_eval_try:
  assumes "good_ev ev"
  shows "good E (\<lambda>x. {x}) (eval_try ev e)"
  unfolding eval_try_def
  by (rule good_bind [OF good_ev_expression [OF assms]])
    (auto intro!: good_bind [OF good_return_value] split: entity.split)

end
