(* ===== verification/Flow_Frame.thy ===== *)
theory Flow_Frame
  imports Flow_Preserve
begin

text \<open>
  Goodness of expressions, statements, the knot and whole programs (good_interpreter,
  good_eval_program), on top of the rules of Flow_Preserve.
\<close>

section \<open>Expressions\<close>

lemma good_eval_primary:
  assumes "good_ev ev"
  shows "good E (\<lambda>x. {x}) (eval_primary env ev p)"
  using assms
  by (cases p) (simp_all add: eval_primary_def good_eval_path good_eval_literal good_eval_function_call
      good_eval_array good_eval_dictionary good_ev_expression good_eval_await good_eval_try)

lemma good_eval_unary:
  assumes "good_ev ev"
  shows "good E (\<lambda>x. {x}) (eval_unary env ev u)"
proof (cases u)
  case (Unary op p)
  have "good (E \<union> {v}) (\<lambda>x. {x}) (ensured (unary_operation o' v))" for v o'
    by (intro good_ensured wt_unary_operation) simp_all
  then show ?thesis
    unfolding Unary eval_unary.simps
    by (intro good_bind [OF good_eval_primary [OF assms]]) (simp split: option.split)
qed

lemma good_eval_terms:
  assumes "\<And>F op t lhs. lhs \<in> F \<Longrightarrow> good F (\<lambda>x. {x}) (step op t lhs)"
  shows "lhs \<in> E \<Longrightarrow> good E (\<lambda>x. {x}) (eval_terms step ts lhs)"
proof (induction ts arbitrary: lhs E)
  case (Cons t ts)
  obtain op u where t: "t = (op, u)" by fastforce
  show ?case unfolding t eval_terms.simps
    using Cons assms by (intro good_bind [of E "\<lambda>x. {x}"]) auto
qed simp

lemma good_eval_binary:
  assumes "\<And>F t. good F (\<lambda>x. {x}) (eval_first t)"
    and "\<And>F op t lhs. lhs \<in> F \<Longrightarrow> good F (\<lambda>x. {x}) (step op t lhs)"
  shows "good E (\<lambda>x. {x}) (eval_binary eval_first step b)"
  unfolding eval_binary_def
  using assms by (intro good_bind [of E "\<lambda>x. {x}"] good_eval_terms) auto

lemma good_binary_operation: "good E (\<lambda>x. {x}) (ensured (binary_operation rt op lhs rhs))"
  by (intro good_ensured wt_binary_operation)

lemma good_operator_step:
  assumes "\<And>F t. good F (\<lambda>x. {x}) (eval_term t)"
  shows "good E (\<lambda>x. {x}) (operator_step env eval_term bop op t lhs)"
  unfolding operator_step_def
  using assms by (intro good_bind [of E "\<lambda>x. {x}"] good_binary_operation)

lemma good_eval_multiplicative: "good_ev ev \<Longrightarrow> good E (\<lambda>x. {x}) (eval_multiplicative env ev m)"
  unfolding eval_multiplicative_def by (intro good_eval_binary good_operator_step good_eval_unary)

lemma good_eval_additive: "good_ev ev \<Longrightarrow> good E (\<lambda>x. {x}) (eval_additive env ev a)"
  unfolding eval_additive_def by (intro good_eval_binary good_operator_step good_eval_multiplicative)

lemma good_eval_relational: "good_ev ev \<Longrightarrow> good E (\<lambda>x. {x}) (eval_relational env ev r)"
  unfolding eval_relational_def by (intro good_eval_binary good_operator_step good_eval_additive)

lemma good_equality_step:
  assumes "good_ev ev"
  shows "good E (\<lambda>x. {x}) (equality_step env ev op t lhs)"
proof -
  have rel: "good F (\<lambda>x. {x}) (eval_relational env ev u)" for F u
    using assms by (rule good_eval_relational)
  have bool: "good F (\<lambda>x. {x}) (heap_m (new_boolean b))" for F b
    by (rule good_made) (rule wt_made_new)
  show ?thesis
    by (cases op)
      (auto simp: equality_step_def rel bool
        intro!: good_operator_step good_start good_bind [OF rel] good_binary_operation split: option.split)
qed

lemma good_eval_equality: "good_ev ev \<Longrightarrow> good E (\<lambda>x. {x}) (eval_equality env ev q)"
  unfolding eval_equality_def by (intro good_eval_binary good_equality_step good_eval_relational)

lemma good_eval_expression:
  assumes "good_ev ev"
  shows "good E (\<lambda>x. {x}) (eval_expression env ev e)"
  using assms
  by (cases e) (simp add: good_eval_binary good_operator_step good_eval_equality)

section \<open>Statements\<close>

lemma good_copy: "x \<in> E \<Longrightarrow> good E (\<lambda>x. {x}) (heap_m (copy_entity x))"
  by (rule good_made) (simp add: wt_copy_entity)

lemma good_construct_in: "x \<in> E \<Longrightarrow> good E (\<lambda>x. {x}) (construct_m rt t x)"
  by (rule good_weaken [OF good_construct]) auto

lemma good_eval_declaration:
  assumes "good_ev ev"
  shows "good E (\<lambda>_. {}) (eval_declaration env ev n t expr)"
proof -
  have arg: "good F (\<lambda>x. {x}) (case expr of None \<Rightarrow> return_m EVoid | Some e \<Rightarrow> ev_expression ev e)" for F
    using assms by (cases expr) (simp_all add: good_ev_expression good_return_entails)
  have rest: "good F (\<lambda>_. {}) (bind_m (case expr of None \<Rightarrow> return_m EVoid | Some e \<Rightarrow> ev_expression ev e)
      (\<lambda>argument. bind_m (heap_m (copy_entity argument)) (\<lambda>copy. bind_m (construct_m (ev_runtime env) ty copy)
      (\<lambda>value. modify_scope (\<lambda>es. add_entity es n value)))))" for F ty
    by (intro good_bind [OF arg] good_bind [OF good_copy] good_bind [OF good_construct_in] good_add_entity) auto
  show ?thesis
    unfolding eval_declaration_def
    by (intro good_start) (simp add: rest good_start split: option.split)
qed

lemma good_eval_workflow_definition: "good E (\<lambda>_. {}) (eval_workflow_definition w)"
proof -
  have "good F (\<lambda>_. {}) (modify_scope (\<lambda>es. add_entity es n (EWorkflowDefinition w)))" for F n
    by (rule good_entails [OF good_add_entity, of _ "{EWorkflowDefinition w}"]) simp_all
  then show ?thesis
    unfolding eval_workflow_definition_def by (intro good_start) auto
qed

lemma good_eval_assignment:
  assumes "good_ev ev"
  shows "good E (\<lambda>_. {}) (eval_assignment env ev p e)"
proof -
  have "good F (\<lambda>_. {}) (heap_m (\<lambda>h. case assign (ev_runtime env) lhs v h of (r, lhs', h') \<Rightarrow> ((), h')))"
    if "lhs \<in> F" for F lhs v
    by (rule good_heap) (use that in \<open>auto split: prod.split dest: wt_assign [of _ lhs]\<close>)
  then show ?thesis
    unfolding eval_assignment_def
    by (intro good_bind [OF good_eval_path] good_bind [OF good_ev_expression [OF assms]]) auto
qed

lemma good_eval_delay: "good_ev ev \<Longrightarrow> good E (\<lambda>_. {}) (eval_delay ev e)"
  unfolding eval_delay_def by (intro good_start) (auto intro!: good_start good_delay split: entity.split)

lemma good_eval_return: "good_ev ev \<Longrightarrow> good E (\<lambda>_. {}) (eval_return ev e)"
  unfolding eval_return_def by (intro good_start good_return_value) auto

lemma good_return_error: "good E (\<lambda>_. {}) (modify_scope (return_value (EError m)))"
  by (rule good_entails [OF good_return_value, of _ "{EError m}"]) simp_all

lemma good_eval_raise: "good_ev ev \<Longrightarrow> good E (\<lambda>_. {}) (eval_raise ev e)"
  unfolding eval_raise_def
  by (intro good_start) (auto intro!: good_start good_return_error split: entity.split)

lemma good_eval_condition:
  assumes "good_ev ev"
  shows "good E (\<lambda>_. {}) (eval_condition ev b)"
proof -
  have conv: "good F (\<lambda>_. {}) (if entity_type_of c \<noteq> TBoolean then ensure_value (convert c TBoolean)
      else return_m c)" for F c
    by (simp add: convert_def type_not_convertible_def ensure_value_def)
  have body: "good F (\<lambda>_. {}) (bind_m (eval_scope ev LocalScope sts) (\<lambda>_. return_m True))" for F sts
    using assms by (intro good_bind [OF good_eval_scope]) auto
  have bool: "good F (\<lambda>_. {}) (case c' of EBoolean a \<Rightarrow> get_m (\<lambda>s. boolean_at (in_heap s) a)
       | _ \<Rightarrow> throw_m (StdException ''bad_variant_access''))" for F c'
    by (simp add: good_get split: entity.split)
  show ?thesis
    unfolding eval_condition_def
    using assms by (intro good_start good_bind [OF conv] good_bind [OF bool]) (auto intro: body)
qed

lemma good_policy: "good E (\<lambda>_. {}) policy_m"
  unfolding policy_m_def by (rule good_get)

lemma good_eval_elifs: "good_ev ev \<Longrightarrow> good E (\<lambda>_. {}) (eval_elifs ev bs)"
proof (induction bs arbitrary: E)
  case (Cons b bs)
  then show ?case unfolding eval_elifs.simps
    by (intro good_bind [OF good_eval_condition]) (auto intro!: good_bind [OF good_policy])
qed simp

lemma good_eval_if: "good_ev ev \<Longrightarrow> good E (\<lambda>_. {}) (eval_if ev b bs els)"
proof -
  assume ev: "good_ev ev"
  have elifs: "good F (\<lambda>_. {}) (if \<not> x then eval_elifs ev bs else return_m True)" for F x
    using ev by (simp add: good_eval_elifs)
  have rest: "good F (\<lambda>_. {}) (bind_m (if \<not> x then eval_elifs ev bs else return_m True) (\<lambda>finished.
      if finished \<or> els = [] then return_m () else eval_scope ev LocalScope els))" for F x
    using ev by (intro good_bind [OF elifs]) (simp add: good_eval_scope)
  show ?thesis
    unfolding eval_if_def
    using ev rest by (intro good_bind [OF good_eval_condition] good_bind [OF good_policy]) simp_all
qed

lemma good_eval_repeat: "good_ev ev \<Longrightarrow> good E (\<lambda>_. {}) (eval_repeat ev n sts)"
proof (induction n arbitrary: E)
  case (Suc n)
  then show ?case unfolding eval_repeat.simps
    by (intro good_bind [OF good_eval_scope] good_bind [OF good_policy]) auto
qed simp

lemma good_eval_statement:
  assumes "good_ev ev"
  shows "good E (\<lambda>_. {}) (eval_statement env ev st)"
proof (cases st)
  case (ExpressionStatement e)
  have "good E (\<lambda>_. {}) (bind_m (ev_expression ev e) (\<lambda>_. return_m ()))"
    using assms by (intro good_start) auto
  then show ?thesis by (simp add: eval_statement_def ExpressionStatement)
qed (use assms in \<open>simp_all add: eval_statement_def eval_break_def good_emit good_eval_declaration
  good_eval_assignment good_eval_delay good_eval_return good_eval_raise good_break good_eval_if
  good_eval_repeat good_eval_workflow_definition\<close>)

section \<open>Programs\<close>

lemma good_interpreter: "good_ev (interpreter n env)"
proof (induction n)
  case (Suc n)
  then show ?case
    unfolding good_ev_def [of "interpreter (Suc n) env"]
    by (simp add: good_eval_expression good_eval_statement)
qed (simp add: good_ev_def)

lemma good_eval_program: "good E (\<lambda>_. {}) (eval_program n env p)"
  unfolding eval_program_def by (intro good_eval_statements good_interpreter)

lemma wt_initial_interp: "wt_interp initial_interp"
proof -
  have "wt_heap initial_heap" by (simp add: wt_heap_def initial_heap_def)
  then show ?thesis
    by (simp add: wt_interp_def initial_interp_def initial_evaluation_scope_def Let_def shared_make_def
        update_current_def new_scope_def wt_scope_def scope_add_function_def scope_add_def
        scope_add_type_def entity_type_list_def)
qed

lemma good_set_instance_id: "good E (\<lambda>_. {}) (set_instance_id i)"
  unfolding set_instance_id_def
  by (rule good_bind [OF good_made [OF wt_made_new(2)]]) (auto intro: good_add_entity)

end
