(* ===== verification/Flow_Fuel.thy ===== *)
theory Flow_Fuel
  imports Flow_Eval
begin

text \<open>
  The fuel of the interpreter only bounds how deep evaluations nest: an evaluation that ends with
  some fuel ends the same way, with the same outcome and state, with more. refines states this of
  one computation and is closed under the interpreter's combinators.
\<close>

section \<open>Refinement of computations\<close>

definition refines :: "'a comp \<Rightarrow> 'a comp \<Rightarrow> bool" where
  "refines m m' \<longleftrightarrow> (\<forall>s. fst (m s) \<noteq> OutOfFuel \<longrightarrow> m' s = m s)"

definition agrees :: "('a \<Rightarrow> 'b option) \<Rightarrow> ('a \<Rightarrow> 'b option) \<Rightarrow> bool" where
  "agrees f g \<longleftrightarrow> (\<forall>x y. f x = Some y \<longrightarrow> g x = Some y)"

lemma refines_refl [simp, intro]: "refines m m"
  by (simp add: refines_def)

lemma refines_no_fuel [simp, intro]: "refines no_fuel m"
  by (simp add: refines_def no_fuel_def)

lemma refines_bind:
  assumes "refines m m'" and "\<And>x. refines (f x) (f' x)"
  shows "refines (bind_m m f) (bind_m m' f')"
  unfolding refines_def
proof (intro allI impI)
  fix s
  assume ok: "fst (bind_m m f s) \<noteq> OutOfFuel"
  then have "fst (m s) \<noteq> OutOfFuel" by (auto simp: bind_m_def split: prod.splits)
  then have "m' s = m s" using assms(1) by (simp add: refines_def)
  then show "bind_m m' f' s = bind_m m f s"
    using ok assms(2) by (auto simp: bind_m_def refines_def split: prod.splits outcome.splits)
qed

lemma refines_exit: "refines m m' \<Longrightarrow> refines (on_scope_exit act m) (on_scope_exit act m')"
  by (auto simp: refines_def on_scope_exit_def split: prod.splits)

lemma refines_timeout:
  assumes "refines m m'"
  shows "refines (with_timeout d m) (with_timeout d m')"
  unfolding refines_def
proof (intro allI impI)
  fix s :: interp
  define u where "u = s\<lparr>in_deadline := Some (case in_deadline s of None \<Rightarrow> in_clock s + d
    | Some t \<Rightarrow> min (in_clock s + d) t)\<rparr>"
  assume ok: "fst (with_timeout d m s) \<noteq> OutOfFuel"
  have "fst (m u) \<noteq> OutOfFuel"
  proof
    assume "fst (m u) = OutOfFuel"
    then show False using ok unfolding with_timeout_def Let_def u_def [symmetric]
      by (auto split: prod.splits)
  qed
  then have "m' u = m u" using assms by (simp add: refines_def)
  then show "with_timeout d m' s = with_timeout d m s"
    unfolding with_timeout_def Let_def u_def [symmetric] by simp
qed

lemma refines_of_option: "(\<And>y. x = Some y \<Longrightarrow> x' = Some y) \<Longrightarrow> refines (of_option x) (of_option x')"
  by (cases x) (auto simp: of_option_def)

lemma agreesD: "agrees f g \<Longrightarrow> f x = Some y \<Longrightarrow> g x = Some y"
  by (simp add: agrees_def)

section \<open>Printing and JSON\<close>

lemma join_all_mono: "agrees f g \<Longrightarrow> join_all f xs = Some y \<Longrightarrow> join_all g xs = Some y"
  by (induction f xs arbitrary: y rule: join_all.induct) (auto dest: agreesD split: option.splits)

lemma represent_all_mono: "agrees f g \<Longrightarrow> represent_all f xs = Some y \<Longrightarrow> represent_all g xs = Some y"
  by (induction f xs arbitrary: y rule: represent_all.induct) (auto dest: agreesD split: option.splits)

lemma representation_mono: "agrees (representation n rt h) (representation (Suc n) rt h)"
proof (induction n)
  case (Suc n)
  define f g where "f = representation n rt h" and "g = representation (Suc n) rt h"
  have fg: "agrees f g" using Suc by (simp only: f_def g_def)
  have pair: "agrees (\<lambda>(k, v). map_option (\<lambda>s. k @ ''='' @ s) (f v))
      (\<lambda>(k, v). map_option (\<lambda>s. k @ ''='' @ s) (g v))"
    using fg by (auto simp: agrees_def)
  show ?case
    unfolding agrees_def
  proof (intro allI impI)
    fix e y
    assume "representation (Suc n) rt h e = Some y"
    then show "representation (Suc (Suc n)) rt h e = Some y"
      unfolding representation.simps(2) [of n rt h, folded f_def]
        representation.simps(2) [of "Suc n" rt h, folded g_def]
      using join_all_mono [OF fg] join_all_mono [OF pair]
      by (cases e) auto
  qed
qed (simp add: agrees_def)

lemma array_to_json_mono:
  "agrees f g \<Longrightarrow> array_to_json f xs r = Some y \<Longrightarrow> array_to_json g xs r = Some y"
  by (induction f xs r arbitrary: y rule: array_to_json.induct) (auto simp: agreesD split: option.splits)

lemma dictionary_to_json_mono:
  "agrees f g \<Longrightarrow> dictionary_to_json f xs r = Some y \<Longrightarrow> dictionary_to_json g xs r = Some y"
  by (induction f xs r arbitrary: y rule: dictionary_to_json.induct) (auto simp: agreesD split: option.splits)

lemma entity_to_json_mono: "agrees (entity_to_json n h) (entity_to_json (Suc n) h)"
proof (induction n)
  case (Suc n)
  define f g where "f = entity_to_json n h" and "g = entity_to_json (Suc n) h"
  have fg: "agrees f g" using Suc by (simp only: f_def g_def)
  show ?case
    unfolding agrees_def
  proof (intro allI impI)
    fix e y
    assume "entity_to_json (Suc n) h e = Some y"
    then show "entity_to_json (Suc (Suc n)) h e = Some y"
      unfolding entity_to_json.simps(2) [of n h, folded f_def] entity_to_json.simps(2) [of "Suc n" h, folded g_def]
      using array_to_json_mono [OF fg] dictionary_to_json_mono [OF fg]
      by (cases e) (auto split: dictionary_kind.splits)
  qed
qed (simp add: agrees_def)

lemma to_json_mono: "to_json n h a = Some j \<Longrightarrow> to_json (Suc n) h a = Some j"
  unfolding to_json_def using dictionary_to_json_mono [OF entity_to_json_mono] by blast

lemma format_args_mono:
  assumes "format_args n rt h args = Some r"
  shows "format_args (Suc n) rt h args = Some r"
proof (cases args)
  case (Cons a rest)
  obtain k e where a: "a = (k, e)" by fastforce
  show ?thesis
  proof (cases "\<exists>s. e = EString s \<and> rest \<noteq> []")
    case True
    with assms Cons a obtain reprs where
      "represent_all (representation n rt h) (map snd rest) = Some reprs"
      by (auto simp: format_args_def split: option.splits)
    then show ?thesis
      using assms Cons a True represent_all_mono [OF representation_mono [of n rt h]]
      by (auto simp: format_args_def simp del: representation.simps)
  next
    case False
    then show ?thesis using assms Cons a by (cases e) (auto simp: format_args_def)
  qed
qed (use assms in \<open>simp add: format_args_def\<close>)

section \<open>The interpreter\<close>

definition refines_ev :: "evaluators \<Rightarrow> evaluators \<Rightarrow> bool" where
  "refines_ev ev ev' \<longleftrightarrow> (\<forall>e. refines (ev_expression ev e) (ev_expression ev' e))
     \<and> (\<forall>st. refines (ev_statement ev st) (ev_statement ev' st)) \<and> ev_depth ev' = Suc (ev_depth ev)"

lemma refines_evD:
  assumes "refines_ev ev ev'"
  shows "refines (ev_expression ev e) (ev_expression ev' e)" "refines (ev_statement ev st) (ev_statement ev' st)"
    and "ev_depth ev' = Suc (ev_depth ev)"
  using assms by (simp_all add: refines_ev_def)

lemmas refines_start = refines_bind [OF refines_refl] refines_bind [OF refines_evD(1)]

text \<open>Two levels of the knot, the second with more fuel below it.\<close>

locale finer =
  fixes ev ev' :: evaluators
  assumes ev: "refines_ev ev ev'"
begin

lemma ref_call_arguments: "refines (eval_call_arguments ev as args) (eval_call_arguments ev' as args)"
proof (induction as arbitrary: args)
  case (Cons a as)
  then show ?case by (cases a) (simp add: refines_bind refines_evD(1) [OF ev])
qed simp

lemma ref_call_free_function: "refines (call_free_function env ev f args) (call_free_function env ev' f args)"
proof -
  have fmt: "refines (of_option (format_args (ev_depth ev) rt h args)) (of_option (format_args (ev_depth ev') rt h args))" for rt h
    by (rule refines_of_option) (simp add: refines_evD(3) [OF ev] format_args_mono)
  have rep: "refines (of_option (represent_all (representation (ev_depth ev) rt h) xs))
      (of_option (represent_all (representation (ev_depth ev') rt h) xs))" for rt h xs
    by (rule refines_of_option)
      (simp add: refines_evD(3) [OF ev] represent_all_mono [OF representation_mono] del: representation.simps)
  show ?thesis
    by (cases f) (simp_all add: call_free_function_def refines_bind fmt rep)
qed

lemma ref_function_call: "refines (eval_function_call env ev call) (eval_function_call env ev' call)"
  unfolding eval_function_call_def Let_def
  by (rule refines_bind)
    (auto intro!: refines_bind ref_call_arguments ref_call_free_function split: entity.split)

lemma ref_elements: "refines (eval_elements ev es xs) (eval_elements ev' es xs)"
  by (induction es arbitrary: xs) (auto intro!: refines_bind refines_evD(1) [OF ev])

lemma ref_entries: "refines (eval_entries ev es m) (eval_entries ev' es m)"
proof (induction es arbitrary: m)
  case (Cons a es)
  then show ?case by (cases a) (auto intro!: refines_bind refines_evD(1) [OF ev])
qed simp

lemma ref_statements: "refines (eval_statements ev sts) (eval_statements ev' sts)"
  by (induction sts) (auto intro!: refines_bind refines_evD(2) [OF ev])

lemma ref_scope: "refines (eval_scope ev t sts) (eval_scope ev' t sts)"
  unfolding eval_scope_def by (intro refines_bind refines_refl refines_exit ref_statements)

lemma ref_invocation: "refines (eval_invocation ev w inst args) (eval_invocation ev' w inst args)"
  unfolding eval_invocation_def by (intro refines_bind refines_refl ref_scope)

lemma ref_timeout: "refines (eval_timeout ev d) (eval_timeout ev' d)"
  unfolding eval_timeout_def by (intro refines_bind refines_refl refines_evD(1) [OF ev])

lemma ref_await_workflow:
  "refines (eval_await_workflow ev d w inst args) (eval_await_workflow ev' d w inst args)"
  unfolding eval_await_workflow_def
  by (intro refines_bind refines_refl refines_timeout ref_invocation ref_timeout)

lemma ref_await_request: "refines (eval_await_request env ev d k a) (eval_await_request env ev' d k a)"
proof -
  have "refines (of_option (to_json (ev_depth ev) h a)) (of_option (to_json (ev_depth ev') h a))" for h
    by (rule refines_of_option) (simp add: refines_evD(3) [OF ev] to_json_mono)
  then show ?thesis
    unfolding eval_await_request_def by (intro refines_bind refines_refl ref_timeout)
qed

lemma ref_await: "refines (eval_await env ev e d) (eval_await env ev' e d)"
  unfolding eval_await_def
  by (rule refines_bind [OF refines_evD(1) [OF ev]])
    (auto intro: ref_await_workflow ref_await_request split: entity.split dictionary_kind.split)

lemma ref_primary: "refines (eval_primary env ev p) (eval_primary env ev' p)"
  by (cases p)
    (auto simp: eval_primary_def eval_array_def eval_dictionary_def eval_try_def
      intro!: ref_function_call refines_bind ref_elements ref_entries ref_await refines_evD(1) [OF ev])

lemma ref_unary: "refines (eval_unary env ev u) (eval_unary env ev' u)"
  by (cases u) (auto intro!: refines_bind ref_primary)

lemma ref_terms:
  "(\<And>op t x. refines (step op t x) (step' op t x)) \<Longrightarrow> refines (eval_terms step ts x) (eval_terms step' ts x)"
proof (induction ts arbitrary: x)
  case (Cons t ts)
  then show ?case by (cases t) (auto intro!: refines_bind)
qed simp

lemma ref_binary:
  assumes "\<And>t. refines (f t) (f' t)" and "\<And>op t x. refines (step op t x) (step' op t x)"
  shows "refines (eval_binary f step b) (eval_binary f' step' b)"
  unfolding eval_binary_def using assms by (intro refines_bind ref_terms)

lemma ref_step: "(\<And>t. refines (f t) (f' t)) \<Longrightarrow> refines (operator_step env f bop op t x) (operator_step env f' bop op t x)"
  unfolding operator_step_def by (intro refines_bind refines_refl)

lemma ref_relational: "refines (eval_relational env ev r) (eval_relational env ev' r)"
  unfolding eval_relational_def eval_additive_def eval_multiplicative_def
  by (intro ref_binary ref_step ref_unary)

lemma ref_equality: "refines (eval_equality env ev q) (eval_equality env ev' q)"
proof -
  have "refines (equality_step env ev op t x) (equality_step env ev' op t x)" for op t x
    by (cases op) (auto simp: equality_step_def intro!: ref_step ref_relational refines_bind)
  then show ?thesis unfolding eval_equality_def by (intro ref_binary ref_relational)
qed

lemma ref_expression: "refines (eval_expression env ev e) (eval_expression env ev' e)"
  by (cases e) (simp add: ref_binary ref_step ref_equality)

lemma ref_condition: "refines (eval_condition ev b) (eval_condition ev' b)"
  unfolding eval_condition_def
  by (intro refines_bind refines_evD(1) [OF ev] refines_refl) (auto intro!: refines_bind ref_scope)

lemma ref_elifs: "refines (eval_elifs ev bs) (eval_elifs ev' bs)"
  by (induction bs) (auto intro!: refines_bind ref_condition)

lemma ref_repeat: "refines (eval_repeat ev n sts) (eval_repeat ev' n sts)"
  by (induction n) (auto intro!: refines_bind ref_scope)

lemma ref_statement: "refines (eval_statement env ev st) (eval_statement env ev' st)"
proof -
  have if': "refines (eval_if ev b bs els) (eval_if ev' b bs els)" for b bs els
    unfolding eval_if_def
    by (intro refines_bind ref_condition refines_refl) (auto intro!: refines_bind ref_elifs ref_scope)
  have arg: "refines (case x of None \<Rightarrow> return_m EVoid | Some e \<Rightarrow> ev_expression ev e)
      (case x of None \<Rightarrow> return_m EVoid | Some e \<Rightarrow> ev_expression ev' e)" for x
    by (auto intro: refines_evD(1) [OF ev] split: option.split)
  have decl: "refines (eval_declaration env ev n t x) (eval_declaration env ev' n t x)" for n t x
    unfolding eval_declaration_def
    by (intro refines_bind refines_refl) (auto intro!: refines_bind refines_evD(1) [OF ev] split: option.split)
  show ?thesis
    by (cases st) (auto simp: eval_statement_def eval_assignment_def eval_delay_def eval_return_def
        eval_raise_def intro!: decl if' ref_repeat refines_bind refines_evD(1) [OF ev])
qed

end

lemma refines_interpreter: "refines_ev (interpreter n env) (interpreter (Suc n) env)"
proof (induction n)
  case 0
  show ?case by (simp add: refines_ev_def)
next
  case (Suc n)
  then have "finer (interpreter n env) (interpreter (Suc n) env)" by (rule finer.intro)
  then show ?case
    unfolding refines_ev_def [of "interpreter (Suc n) env"]
    by (simp add: finer.ref_expression finer.ref_statement)
qed

interpretation knot: finer "interpreter n env" "interpreter (Suc n) env" for n env
  by unfold_locales (rule refines_interpreter)

lemma refines_trans: "refines m m' \<Longrightarrow> refines m' m'' \<Longrightarrow> refines m m''"
  unfolding refines_def by metis

lemma refines_program: "n \<le> k \<Longrightarrow> refines (eval_program n env p) (eval_program k env p)"
proof (induction k rule: dec_induct)
  case (step k)
  moreover have "refines (eval_program k env p) (eval_program (Suc k) env p)"
    unfolding eval_program_def by (rule knot.ref_statements)
  ultimately show ?case by (blast intro: refines_trans)
qed simp

end
