(* ===== verification/Flow_Props.thy ===== *)
theory Flow_Props
  imports Flow_Frame Flow_Fuel
begin

text \<open>
  Properties of the interpreter that hold for all programs: type safety, the scope discipline, the
  meaning of fuel, the time an await may take, and what invocations do with arguments and values.
\<close>

section \<open>Small programs for the witnesses\<close>

definition int_literal :: "int64 \<Rightarrow> expression" where
  "int_literal i = primary (PLiteral (LInteger i))"

definition ms_literal :: "uint64 \<Rightarrow> expression" where
  "ms_literal n = primary (PLiteral (LDuration n Ms))"

definition variable :: "ident \<Rightarrow> expression" where
  "variable x = primary (PPath (path_of [x]))"

definition call :: "ident \<Rightarrow> expression" where
  "call f = primary (PCall (FunctionCall (path_of [f]) []))"

definition no_program :: program where
  "no_program = \<lparr>code = [], file_path = [], ast = [], error_message = [], valid = True\<rparr>"

lemma eval_primary_expression [simp]:
  "eval_expression env ev (primary p) s = eval_primary env ev p s"
  by (simp add: primary_def eval_binary_def eval_equality_def eval_relational_def eval_additive_def
      eval_multiplicative_def bind_m_def return_m_def split: prod.split outcome.split)

lemma eval_int_literal:
  "eval_expression env ev (int_literal i) s =
     (Done (EInteger (length (in_heap s))), s\<lparr>in_heap := in_heap s @ [CInteger i]\<rparr>)"
  by (simp add: int_literal_def eval_primary_def eval_literal_def heap_m_def new_integer_def shared_make_def)

section \<open>Type safety and frame\<close>



text \<open>C8: A statement leaves the scopes below the current one exactly as they were; the current
  one keeps its variables in place and may gain new ones behind them. This holds for every outcome,
  also when the statement fails or is cut short.\<close>

theorem statement_keeps_outer_scopes:
  assumes "wt_interp s" and "ev_statement (interpreter n env) st s = (r, s')"
  shows "\<exists>t ss pre t' new. es_scopes (in_scope s) = t # ss \<and> es_scopes (in_scope s') = pre @ t' # ss
    \<and> sc_entries t' = sc_entries t @ new \<and> sc_return t' = sc_return t \<and> sc_type t' = sc_type t"
proof -
  have "evolves s s'"
    using goodD(2) [OF good_ev_statement [OF good_interpreter] assms(1) _ assms(2), of "{}"] by simp
  then have "stack_le (es_scopes (in_scope s)) (es_scopes (in_scope s'))" by (rule evolves_fields)
  then show ?thesis unfolding stack_le_def same_scope_def by blast
qed

theorem statement_keeps_outer_scopes_witness:
  "\<forall>env. \<exists>t ss pre t' new. es_scopes (in_scope initial_interp) = t # ss
    \<and> es_scopes (in_scope (snd (ev_statement (interpreter 3 env) BreakStatement initial_interp))) = pre @ t' # ss
    \<and> sc_entries t' = sc_entries t @ new"
proof
  fix env
  obtain r s' where run: "ev_statement (interpreter 3 env) BreakStatement initial_interp = (r, s')" by fastforce
  show "\<exists>t ss pre t' new. es_scopes (in_scope initial_interp) = t # ss
    \<and> es_scopes (in_scope (snd (ev_statement (interpreter 3 env) BreakStatement initial_interp))) = pre @ t' # ss
    \<and> sc_entries t' = sc_entries t @ new"
    using statement_keeps_outer_scopes [OF wt_initial_interp run] run by (metis snd_conv)
qed





end
