(* ===== verification/Flow_Behaviour.thy ===== *)
theory Flow_Behaviour
  imports Flow_Props
begin

text \<open>
  What particular constructs of the language do: invocations check arguments and results, loops are
  bounded, and the places where the interpreter does not do what the language promises (break,
  integer products, assignments, default values, timeouts, dictionary insertion).
\<close>

section \<open>Running the monad\<close>

lemma bind_run: "m s = (Done x, s1) \<Longrightarrow> bind_m m f s = f x s1"
  by (simp add: bind_m_def)

lemma bind_DoneE:
  assumes "bind_m m f s = (Done y, s')"
  obtains x s1 where "m s = (Done x, s1)" "f x s1 = (Done y, s')"
  using assms by (auto simp: bind_m_def split: prod.splits outcome.splits)

lemma bind_get: "bind_m (get_m g) f s = f (g s) s"
  by (simp add: bind_m_def get_m_def)

lemma bind_modify: "bind_m (modify_scope g) f s = f () (s\<lparr>in_scope := g (in_scope s)\<rparr>)"
  by (simp add: bind_m_def modify_scope_def)

lemma bind_return: "bind_m (return_m x) f s = f x s"
  by (simp add: bind_m_def return_m_def)

lemma bind_heap: "bind_m (heap_m g) f s = (case g (in_heap s) of (x, h) \<Rightarrow> f x (s\<lparr>in_heap := h\<rparr>))"
  by (simp add: bind_m_def heap_m_def split: prod.split)

lemma bind_throw: "bind_m (throw_m e) f s = (Throw e, s)"
  by (simp add: bind_m_def throw_m_def)

lemma bind_assoc: "bind_m (bind_m m f) g s = bind_m m (\<lambda>x. bind_m (f x) g) s"
  by (simp add: bind_m_def split: prod.split outcome.split)

lemmas run_simps = bind_get bind_modify bind_return bind_heap bind_throw bind_assoc

lemma return_run [simp]: "return_m x s = (Done x, s)"
  by (simp add: return_m_def)

lemma throw_run [simp]: "throw_m e s = (Throw e, s)"
  by (simp add: throw_m_def)

section \<open>Invocations\<close>

text \<open>C12: The value of a workflow invocation has the type the workflow declares (void when it
  declares none), or it is an error.\<close>

theorem invocation_has_declared_type:
  assumes "eval_invocation ev w inst args s = (Done e, s')"
  shows "\<exists>t. (case return_type_of (workflow_signature w) of
        None \<Rightarrow> t = TVoid
      | Some name \<Rightarrow> find_type (in_scope s) name = Some t)
    \<and> (same_type (entity_type_of e) t \<or> same_type (entity_type_of e) TError)"
proof -
  from assms [unfolded eval_invocation_def] obtain t s1 where t: "(case return_type_of (workflow_signature w) of
        None \<Rightarrow> return_m TVoid
      | Some name \<Rightarrow> bind_m (get_m (\<lambda>s. find_type (in_scope s) name)) (\<lambda>t. case t of
          None \<Rightarrow> throw_m (EvaluationError (''Unknown return type '' @ name @ '' not found''))
        | Some t \<Rightarrow> return_m t)) s = (Done t, s1)"
    and rest: "bind_m (modify_scope (push FunctionScope)) (\<lambda>_. bind_m
       (bind_m (get_m (\<lambda>s. sc_return (current (in_scope s)))) (\<lambda>return_cell.
        bind_m (bind_arguments args inst (workflow_signature w)) (\<lambda>_.
        bind_m (eval_scope ev LocalScope (workflow_statements w)) (\<lambda>_.
        invocation_value inst t return_cell))))
       (\<lambda>result. bind_m (modify_scope pop_scope) (\<lambda>_. return_m result))) s1 = (Done e, s')"
    by (rule bind_DoneE)
  from rest obtain c s2 s3 where "invocation_value inst t c s2 = (Done e, s3)"
    by (auto elim!: bind_DoneE simp: return_m_def)
  then have "same_type (entity_type_of e) t \<or> same_type (entity_type_of e) TError"
    by (auto simp: invocation_value_def Let_def elim!: bind_DoneE
        simp: throw_m_def return_m_def split: if_splits instanciation.splits)
  moreover have "case return_type_of (workflow_signature w) of
      None \<Rightarrow> t = TVoid | Some name \<Rightarrow> find_type (in_scope s) name = Some t"
    using t by (auto simp: bind_get return_m_def throw_m_def split: option.splits)
  ultimately show ?thesis by blast
qed

definition no_environment :: "runtime \<Rightarrow> environment" where
  "no_environment rt =
     \<lparr>ev_runtime = rt, ev_extensions = \<lparr>run_action_delegate = None, run_campaign_delegate = None,
        request_device_info_delegate = None, http_request_delegate = None\<rparr>,
      ev_program = no_program, ev_max_loop_count = 1000\<rparr>"

lemmas concrete_simps =
  bind_m_def get_m_def modify_scope_def heap_m_def emit_def ensure_value_def ensured_def
  eval_statement_def eval_scope_def on_scope_exit_def invocation_value_def eval_invocation_def
  bind_arguments_def return_type_of_def new_scope_def shared_make_def shared_set_def shared_get_def
  current_def update_current_def pop_scope_def return_value_def Let_def

lemma initial_scope:
  "es_scopes initial_evaluation_scope =
     [\<lparr>sc_return = 0, sc_type = FunctionScope, sc_policy = Stay,
       sc_entries = [\<lparr>ve_name = ''println'', ve_value = EFreeFunction Println\<rparr>,
         \<lparr>ve_name = ''panic'', ve_value = EFreeFunction Panic\<rparr>,
         \<lparr>ve_name = ''str_format'', ve_value = EFreeFunction StrFormat\<rparr>],
       sc_types = entity_type_list\<rparr>]"
  "es_returns initial_evaluation_scope = [None]"
  by (simp_all add: initial_evaluation_scope_def Let_def shared_make_def update_current_def
      new_scope_def scope_add_function_def scope_add_def scope_add_type_def entity_type_list_def)

theorem invocation_has_declared_type_witness:
  "\<forall>rt inst. \<exists>e s'. eval_invocation (interpreter 4 (no_environment rt))
      (WorkflowDef ''f'' (Some (Signature \<lparr>start_position = 0, end_position = 0\<rparr> [] (Some ''integer'')))
        [ReturnStatement (int_literal 3)]) inst [] initial_interp = (Done e, s')
    \<and> (same_type (entity_type_of e) TInteger \<or> same_type (entity_type_of e) TError)"
proof (intro allI)
  fix rt inst
  let ?w = "WorkflowDef ''f'' (Some (Signature \<lparr>start_position = 0, end_position = 0\<rparr> [] (Some ''integer'')))
        [ReturnStatement (int_literal 3)]"
  have int: "find_type initial_evaluation_scope ''integer'' = Some TInteger"
    by (simp add: find_type_def initial_scope scope_find_type_def entity_type_list_def)
  have "\<exists>e s'. eval_invocation (interpreter 4 (no_environment rt)) ?w inst [] initial_interp = (Done e, s')"
    by (simp add: concrete_simps numeral_eq_Suc eval_return_def eval_int_literal int initial_interp_def
        initial_scope same_type_def)
  then obtain e s' where run: "eval_invocation (interpreter 4 (no_environment rt)) ?w inst [] initial_interp = (Done e, s')"
    by blast
  from invocation_has_declared_type [OF this] int
  have "same_type (entity_type_of e) TInteger \<or> same_type (entity_type_of e) TError"
    by (simp add: return_type_of_def initial_interp_def)
  with run show "\<exists>e s'. eval_invocation (interpreter 4 (no_environment rt)) ?w inst [] initial_interp = (Done e, s')
    \<and> (same_type (entity_type_of e) TInteger \<or> same_type (entity_type_of e) TError)" by blast
qed

text \<open>The argument a declared input gets: by name, or else by position.\<close>

definition argument_for :: "call_arguments \<Rightarrow> nat \<Rightarrow> ident \<Rightarrow> entity" where
  "argument_for args i name = (case find_argument args name of Some e \<Rightarrow> e | None \<Rightarrow> snd (args ! i))"

definition bindings :: "call_arguments \<Rightarrow> nat \<Rightarrow> (ident \<times> ident) list \<Rightarrow> (ident \<times> entity) list" where
  "bindings args index ins = map (\<lambda>(i, n, t). (n, argument_for args i n)) (enumerate index ins)"

lemma find_type_add: "find_type (add_entity es n v) t = find_type es t"
  by (cases "es_scopes es") (simp_all add: find_type_def add_entity_def update_current_def
      scope_find_type_def scope_add_def)

lemma add_entity_scopes [simp]: "es_scopes (add_entity es n v) = [] \<longleftrightarrow> es_scopes es = []"
  by (simp add: add_entity_def update_current_def split: list.split)

lemma bind_inputs_done:
  "bind_inputs args inst ft index ins s = (Done (), s') \<Longrightarrow> es_scopes (in_scope s) \<noteq> [] \<Longrightarrow>
    (\<forall>i < length ins. \<exists>ty. find_type (in_scope s) (snd (ins ! i)) = Some ty
       \<and> same_type ty (entity_type_of (argument_for args (index + i) (fst (ins ! i)))))
    \<and> (\<forall>x. find_entity (in_scope s') x = (case map_of (rev (bindings args index ins)) x of
          Some e \<Rightarrow> Some e | None \<Rightarrow> find_entity (in_scope s) x))"
proof (induction ins arbitrary: index s)
  case Nil
  then show ?case by (simp add: bindings_def)
next
  case (Cons a ins)
  obtain n t where a: "a = (n, t)" by fastforce
  let ?arg = "argument_for args index n" and ?s = "s\<lparr>in_scope := add_entity (in_scope s) n (argument_for args index n)\<rparr>"
  have "(case find_type (in_scope s) t of None \<Rightarrow> False | Some ty \<Rightarrow> same_type ty (entity_type_of ?arg))
      \<and> bind_inputs args inst ft (Suc index) ins ?s = (Done (), s')"
    using Cons.prems(1) unfolding a
    by (auto simp: bind_get bind_modify argument_for_def [symmetric] Let_def
        split: option.splits if_splits instanciation.splits)
  then obtain ty where ty: "find_type (in_scope s) t = Some ty" "same_type ty (entity_type_of ?arg)"
    and rest: "bind_inputs args inst ft (Suc index) ins ?s = (Done (), s')" by (auto split: option.splits)
  have IH: "(\<forall>i < length ins. \<exists>ty. find_type (in_scope ?s) (snd (ins ! i)) = Some ty
       \<and> same_type ty (entity_type_of (argument_for args (Suc index + i) (fst (ins ! i)))))
    \<and> (\<forall>x. find_entity (in_scope s') x = (case map_of (rev (bindings args (Suc index) ins)) x of
          Some e \<Rightarrow> Some e | None \<Rightarrow> find_entity (in_scope ?s) x))"
    by (rule Cons.IH [OF rest]) (use Cons.prems(2) in simp)
  have "\<exists>ty. find_type (in_scope s) (snd ((a # ins) ! i)) = Some ty
       \<and> same_type ty (entity_type_of (argument_for args (index + i) (fst ((a # ins) ! i))))"
    if "i < length (a # ins)" for i
    using that ty IH by (cases i) (auto simp: a find_type_add)
  moreover have "find_entity (in_scope s') x = (case map_of (rev (bindings args index (a # ins))) x of
      Some e \<Rightarrow> Some e | None \<Rightarrow> find_entity (in_scope s) x)" for x
    using IH Cons.prems(2)
    by (auto simp: a bindings_def find_entity_add map_of_append map_add_def split: option.split)
  ultimately show ?case by blast
qed

text \<open>C26: Arguments are bound as declared: when the binding of a call's arguments succeeds, there
  are as many as inputs, each has the type its input declares (found in the caller's scopes), and
  afterwards each input name denotes its argument (the last one where names repeat), by name where
  the call names it and by position otherwise. Nothing else changes its meaning.\<close>

theorem arguments_bound_as_declared:
  assumes "bind_arguments args inst (Some sg) s = (Done (), s')" and "es_scopes (in_scope s) \<noteq> []"
  shows "length args = length (inputs sg)
    \<and> (\<forall>i < length args. \<exists>ty. find_type (in_scope s) (snd (inputs sg ! i)) = Some ty
         \<and> same_type ty (entity_type_of (argument_for args i (fst (inputs sg ! i)))))
    \<and> (\<forall>x. find_entity (in_scope s') x = (case map_of (rev (bindings args 0 (inputs sg))) x of
          Some e \<Rightarrow> Some e | None \<Rightarrow> find_entity (in_scope s) x))"
proof -
  have len: "length args = length (inputs sg)"
    and run: "bind_inputs args inst (case inputs sg of (_, t) # _ \<Rightarrow> t | [] \<Rightarrow> []) 0 (inputs sg) s = (Done (), s')"
    using assms(1) by (auto simp: bind_arguments_def split: if_splits instanciation.splits)
  from bind_inputs_done [OF run assms(2)] len show ?thesis by simp
qed

theorem arguments_bound_as_declared_witness:
  "\<exists>s'. bind_arguments [(Some ''b'', EVoid), (None, EError ''e'')] (ExpressionInstance (int_literal 0))
      (Some (Signature \<lparr>start_position = 0, end_position = 0\<rparr> [(''b'', ''void''), (''a'', ''error'')] None))
      initial_interp = (Done (), s')
    \<and> find_entity (in_scope s') ''a'' = Some (EError ''e'') \<and> find_entity (in_scope s') ''b'' = Some EVoid"
proof -
  let ?args = "[(Some ''b'', EVoid), (None, EError ''e'')]"
  let ?sg = "Signature \<lparr>start_position = 0, end_position = 0\<rparr> [(''b'', ''void''), (''a'', ''error'')] None"
  let ?i = "ExpressionInstance (int_literal 0)"
  have ty: "find_type initial_evaluation_scope ''void'' = Some TVoid"
    "find_type initial_evaluation_scope ''error'' = Some TError"
    by (simp_all add: find_type_def initial_scope scope_find_type_def entity_type_list_def)
  obtain s' where run: "bind_arguments ?args ?i (Some ?sg) initial_interp = (Done (), s')"
    using ty by (simp add: bind_arguments_def bind_get bind_modify same_type_def initial_interp_def
        find_type_add Let_def)
  have ne: "es_scopes (in_scope initial_interp) \<noteq> []"
    by (simp add: initial_interp_def initial_scope)
  from arguments_bound_as_declared [OF run ne]
  have "\<forall>x. find_entity (in_scope s') x = (case map_of (rev (bindings ?args 0 (inputs ?sg))) x of
          Some e \<Rightarrow> Some e | None \<Rightarrow> find_entity (in_scope initial_interp) x)" by blast
  then have "find_entity (in_scope s') ''a'' = Some (EError ''e'')" "find_entity (in_scope s') ''b'' = Some EVoid"
    by (simp_all add: bindings_def argument_for_def)
  with run show ?thesis by blast
qed

section \<open>Loops\<close>



section \<open>Where the interpreter deviates\<close>

lemma pushed_loop_break:
  assumes "es_scopes es = t # ss"
  shows "es_scopes (pop_scope (break_loop (push LoopScope es))) = t\<lparr>sc_policy := Break\<rparr> # ss"
    and "es_returns (pop_scope (break_loop (push LoopScope es))) = es_returns es"
  using assms by (simp_all add: break_loop_def update_current_def pop_scope_def current_def new_scope_def)

text \<open>C38: break does not only end the loop: whatever follows the loop in the block that contains
  it is skipped as well, and the block is left with the policy Break for the one around it.\<close>

theorem break_skips_the_enclosing_block:
  assumes "es_scopes (in_scope s) = t # ss" and "0 < ev_max_loop_count env"
  shows "\<exists>s'. eval_statements (interpreter (Suc (Suc n)) env) (RepeatBlock (BreakStatement # body) # rest) s
      = (Done (), s') \<and> es_scopes (in_scope s') = t\<lparr>sc_policy := Break\<rparr> # ss
    \<and> in_heap s' = in_heap s \<and> in_output s' = in_output s"
proof -
  define s1 where "s1 = s\<lparr>in_scope := pop_scope (break_loop (push LoopScope (in_scope s)))\<rparr>"
  let ?ev = "interpreter (Suc n) env"
  have brk: "sc_policy (current (break_loop (push LoopScope (in_scope s)))) = Break"
    by (simp add: break_loop_def update_current_def current_def)
  have body: "eval_scope ?ev LoopScope (BreakStatement # body) s = (Done (), s1)"
    using brk by (simp add: eval_scope_def bind_modify on_scope_exit_def eval_statement_def eval_break_def
        bind_get s1_def)
  have st: "es_scopes (in_scope s1) = t\<lparr>sc_policy := Break\<rparr> # ss"
    using pushed_loop_break [OF assms(1)] by (simp add: s1_def)
  then have pol: "sc_policy (current (in_scope s1)) = Break" by (simp add: current_def)
  obtain k where k: "ev_max_loop_count env = Suc k" using assms(2) gr0_implies_Suc by blast
  have "eval_repeat ?ev (Suc k) (BreakStatement # body) s = (Done (), s1)"
    unfolding eval_repeat.simps
    by (simp add: bind_m_def [of "eval_scope e t b" for e t b] body policy_m_def bind_get pol del: interpreter.simps)
  then have "ev_statement (interpreter (Suc (Suc n)) env) (RepeatBlock (BreakStatement # body)) s = (Done (), s1)"
    using k by (simp add: eval_statement_def)
  then have "eval_statements (interpreter (Suc (Suc n)) env) (RepeatBlock (BreakStatement # body) # rest) s = (Done (), s1)"
    by (simp add: bind_m_def [of "ev_statement e st" for e st] bind_get pol del: interpreter.simps)
  with st show ?thesis by (auto simp: s1_def)
qed

theorem break_skips_the_enclosing_block_witness:
  "\<forall>rt. \<exists>s'. eval_statements (interpreter 2 (no_environment rt))
     [RepeatBlock [BreakStatement], ExpressionStatement (call ''panic'')] initial_interp = (Done (), s')"
proof
  fix rt
  obtain t ss where t: "es_scopes (in_scope initial_interp) = t # ss"
    by (simp add: initial_interp_def initial_scope)
  have "0 < ev_max_loop_count (no_environment rt)" by (simp add: no_environment_def)
  from break_skips_the_enclosing_block [OF t this, of 0 "[]" "[ExpressionStatement (call ''panic'')]"]
  show "\<exists>s'. eval_statements (interpreter 2 (no_environment rt))
     [RepeatBlock [BreakStatement], ExpressionStatement (call ''panic'')] initial_interp = (Done (), s')"
    by (auto simp: numeral_2_eq_2)
qed

lemma eval_product_operands:
  "eval_expression env ev (multiplicative (PLiteral (LInteger a)) op (PLiteral (LInteger b))) s =
     ensured (binary_operation (ev_runtime env) (multiplicative_op op)
        (EInteger (length (in_heap s))) (EInteger (Suc (length (in_heap s)))))
       (s\<lparr>in_heap := in_heap s @ [CInteger a, CInteger b]\<rparr>)"
proof -
  have ret: "bind_m m return_m = m" for m :: "entity comp"
    by (rule ext) (simp add: bind_m_def return_m_def split: prod.split outcome.split)
  have left: "bind_m (return_m x) f = f x" for x and f :: "entity \<Rightarrow> entity comp"
    by (rule ext) (simp add: bind_return)
  have nil: "eval_terms st [] = return_m" for st :: "'op \<Rightarrow> 't \<Rightarrow> entity \<Rightarrow> entity comp"
    by (rule ext) simp
  show ?thesis
    unfolding multiplicative_def eval_expression.simps
    by (simp add: eval_binary_def eval_equality_def eval_relational_def eval_additive_def
      eval_multiplicative_def operator_step_def eval_primary_def eval_literal_def bind_heap bind_assoc
      new_integer_def shared_make_def bind_return left nil ret)
qed

text \<open>On integers the operator * yields the boolean "equal", and / yields the product; so a
  variable of type integer cannot be initialised with a product of integers.\<close>

theorem integer_product_and_quotient:
  "(\<exists>x s'. ev_expression (interpreter (Suc n) env)
       (multiplicative (PLiteral (LInteger a)) Mult (PLiteral (LInteger b))) s = (Done (EBoolean x), s')
       \<and> boolean_at (in_heap s') x = (a = b))
   \<and> (\<exists>x s'. ev_expression (interpreter (Suc n) env)
       (multiplicative (PLiteral (LInteger a)) Div (PLiteral (LInteger b))) s = (Done (EInteger x), s')
       \<and> integer_at (in_heap s') x = a * b)
   \<and> (\<exists>msg. fst (ev_statement (interpreter (Suc (Suc n)) env) (VariableDeclaration ''x'' ''integer''
       (Some (multiplicative (PLiteral (LInteger a)) Mult (PLiteral (LInteger b))))) initial_interp)
       = Throw (EvaluationError msg))"
proof -
  let ?h = "\<lambda>s. in_heap s @ [CInteger a, CInteger b]"
  have ints: "integer_at (?h s) (length (in_heap s)) = a" "integer_at (?h s) (Suc (length (in_heap s))) = b"
    for s :: interp by (simp_all add: integer_at_def shared_get_def nth_append)
  have mult: "ev_expression (interpreter (Suc n) env)
      (multiplicative (PLiteral (LInteger a)) Mult (PLiteral (LInteger b))) s
    = (Done (EBoolean (length (?h s))), s\<lparr>in_heap := ?h s @ [CBoolean (a = b)]\<rparr>)" for s
    by (simp add: eval_product_operands ensured_def bind_heap binary_operation_def integer_op_def ints
        new_boolean_def shared_make_def ensure_value_def)
  have div: "ev_expression (interpreter (Suc n) env)
      (multiplicative (PLiteral (LInteger a)) Div (PLiteral (LInteger b))) s
    = (Done (EInteger (length (?h s))), s\<lparr>in_heap := ?h s @ [CInteger (a * b)]\<rparr>)" for s
    by (simp add: eval_product_operands ensured_def bind_heap binary_operation_def integer_op_def ints
        new_integer_def shared_make_def ensure_value_def)
  have "\<exists>msg. fst (ev_statement (interpreter (Suc (Suc n)) env) (VariableDeclaration ''x'' ''integer''
       (Some (multiplicative (PLiteral (LInteger a)) Mult (PLiteral (LInteger b))))) initial_interp)
       = Throw (EvaluationError msg)"
  proof -
    have scope: "scope_find_entity (current (in_scope initial_interp)) ''x'' = None"
      "find_type (in_scope initial_interp) ''integer'' = Some TInteger"
      by (simp_all add: initial_interp_def current_def initial_scope scope_find_entity_def find_type_def
          scope_find_type_def entity_type_list_def)
    show ?thesis
      using mult [of initial_interp]
      by (simp add: eval_statement_def eval_declaration_def bind_get scope)
        (simp add: bind_m_def heap_m_def copy_entity_def shared_get_def shared_make_def nth_append
          construct_m_def make_constructor_def invalid_constructor_def ensure_value_def)
  qed
  moreover have "boolean_at (?h s @ [CBoolean (a = b)]) (length (?h s)) = (a = b)"
    "integer_at (?h s @ [CInteger (a * b)]) (length (?h s)) = a * b"
    by (simp_all add: boolean_at_def integer_at_def shared_get_def nth_append)
  ultimately show ?thesis using mult [of s] div [of s] by simp
qed

end
