(* ===== verification/Flow_Effects.thy ===== *)
theory Flow_Effects
  imports Flow_Behaviour
begin

text \<open>
  Effects of the interpreter on shared cells, on the caller's scopes and on the outside:
  assignments, default values, timeouts, dictionary insertion and requests to delegates.
\<close>

section \<open>Assignment\<close>

text \<open>An assignment to anything but an integer or an array has no effect beyond evaluating
  both sides, and an ill-typed assignment of any kind is silently ignored.\<close>

theorem assignment_without_effect:
  assumes "eval_path (path_names p) s = (Done lhs, s1)" and "ev_expression ev e s1 = (Done v, s2)"
    and "entity_type_of lhs \<notin> {TInteger, TArray} \<or>
      (entity_type_of lhs = TInteger \<and> entity_type_of v \<notin> {TInteger, TReal}) \<or>
      (entity_type_of lhs = TArray \<and> entity_type_of v \<noteq> TArray)"
  shows "eval_assignment env ev p e s = (Done (), s2)"
proof -
  have "\<exists>r l'. assign (ev_runtime env) lhs v (in_heap s2) = (r, l', in_heap s2)"
    using assms(3)
    by (cases lhs; cases v) (auto simp: assign_def integer_assign_def array_assign_def default_assign_def)
  then obtain r l' where "assign (ev_runtime env) lhs v (in_heap s2) = (r, l', in_heap s2)" by blast
  with assms(1,2) show ?thesis by (simp add: eval_assignment_def bind_m_def heap_m_def)
qed

lemma find_initial: "x \<notin> {''println'', ''panic'', ''str_format''} \<Longrightarrow> find_entity initial_evaluation_scope x = None"
  by (auto simp: find_entity_def initial_scope scope_find_entity_def)

definition with_variable :: "ident \<Rightarrow> entity \<Rightarrow> cell list \<Rightarrow> interp" where
  "with_variable x e cs =
     initial_interp\<lparr>in_scope := add_entity initial_evaluation_scope x e, in_heap := initial_heap @ cs\<rparr>"

lemma find_with_variable [simp]: "find_entity (in_scope (with_variable x e cs)) x = Some e"
  by (simp add: with_variable_def find_entity_add initial_scope)

lemma eval_single_path:
  "find_entity (in_scope s) x = Some e \<Longrightarrow> eval_path (path_names (path_of [x])) s = (Done e, s)"
  by (simp add: eval_path_def path_of_def bind_get)

theorem assignment_without_effect_witness:
  "\<forall>rt. eval_assignment (no_environment rt) (interpreter 3 (no_environment rt)) (path_of [''x'']) (int_literal 5)
      (with_variable ''x'' (EString 6) [CString ''old''])
    = (Done (), snd (ev_expression (interpreter 3 (no_environment rt)) (int_literal 5)
        (with_variable ''x'' (EString 6) [CString ''old''])))"
proof
  fix rt
  let ?s = "with_variable ''x'' (EString 6) [CString ''old'']" and ?ev = "interpreter 3 (no_environment rt)"
  have e: "ev_expression ?ev (int_literal 5) ?s = (Done (EInteger (length (in_heap ?s))), ?s\<lparr>in_heap := in_heap ?s @ [CInteger 5]\<rparr>)"
    by (simp add: numeral_3_eq_3 eval_int_literal)
  from assignment_without_effect [OF eval_single_path [OF find_with_variable] e, of "no_environment rt"]
  show "eval_assignment (no_environment rt) ?ev (path_of [''x'']) (int_literal 5) ?s
    = (Done (), snd (ev_expression ?ev (int_literal 5) ?s))"
    by (simp add: e)
qed

text \<open>An integer assignment writes the cell: the assigned value is seen by every variable that
  denotes the same cell, and by no other cell.\<close>

theorem integer_assignment_writes_the_cell:
  assumes "eval_path (path_names p) s = (Done (EInteger a), s1)" and "ev_expression ev e s1 = (Done (EInteger b), s2)"
    and "wt_entity (in_heap s2) (EInteger a)"
  shows "\<exists>s'. eval_assignment env ev p e s = (Done (), s')
    \<and> integer_at (in_heap s') a = integer_at (in_heap s2) b
    \<and> (\<forall>c. c \<noteq> a \<longrightarrow> shared_get (in_heap s') c = shared_get (in_heap s2) c)
    \<and> in_scope s' = in_scope s2"
proof -
  have a: "a < length (in_heap s2)" using assms(3) by (simp add: has_cell_def)
  have run: "eval_assignment env ev p e s =
      (Done (), s2\<lparr>in_heap := shared_set (in_heap s2) a (CInteger (integer_at (in_heap s2) b))\<rparr>)"
    using assms(1,2) by (simp add: eval_assignment_def bind_m_def heap_m_def assign_def integer_assign_def)
  show ?thesis
    by (rule exI, intro conjI, rule run) (use a in \<open>auto simp: integer_at_def shared_get_def shared_set_def\<close>)
qed

theorem integer_assignment_writes_the_cell_witness:
  "\<forall>rt. \<exists>s'. eval_assignment (no_environment rt) (interpreter 3 (no_environment rt)) (path_of [''x'']) (int_literal 5)
      (with_variable ''x'' (EInteger 1) []) = (Done (), s') \<and> integer_at (in_heap s') 1 = 5"
proof
  fix rt
  let ?s = "with_variable ''x'' (EInteger 1) []" and ?ev = "interpreter 3 (no_environment rt)"
  let ?s2 = "?s\<lparr>in_heap := in_heap ?s @ [CInteger 5]\<rparr>"
  have e: "ev_expression ?ev (int_literal 5) ?s = (Done (EInteger (length (in_heap ?s))), ?s2)"
    by (simp add: numeral_3_eq_3 eval_int_literal)
  have wt: "wt_entity (in_heap ?s2) (EInteger 1)"
    by (simp add: with_variable_def initial_heap_def has_cell_def)
  have five: "integer_at (in_heap ?s2) (length (in_heap ?s)) = 5"
    by (simp add: integer_at_def shared_get_def with_variable_def initial_heap_def)
  from integer_assignment_writes_the_cell [OF eval_single_path [OF find_with_variable] e wt, of "no_environment rt"]
  show "\<exists>s'. eval_assignment (no_environment rt) ?ev (path_of [''x'']) (int_literal 5) ?s = (Done (), s')
      \<and> integer_at (in_heap s') 1 = 5"
    unfolding five by blast
qed

text \<open>Variables of one type declared without a value all denote one and the same cell, so an
  assignment to one of them changes the others.\<close>

theorem default_declared_variables_share:
  assumes "es_scopes (in_scope s) \<noteq> []" and "x \<noteq> y"
    and "scope_find_entity (current (in_scope s)) x = None" and "scope_find_entity (current (in_scope s)) y = None"
    and "find_type (in_scope s) ''integer'' = Some TInteger"
  shows "\<exists>s'. eval_statements (interpreter (Suc (Suc n)) env)
      [VariableDeclaration x ''integer'' None, VariableDeclaration y ''integer'' None] s = (Done (), s')
    \<and> (sc_policy (current (in_scope s)) = Stay \<longrightarrow> find_entity (in_scope s') x = Some (EInteger 1)
         \<and> find_entity (in_scope s') y = Some (EInteger 1))"
proof -
  let ?ev = "interpreter (Suc (Suc n)) env"
  have decl: "ev_statement ?ev (VariableDeclaration z ''integer'' None) u
      = (Done (), u\<lparr>in_scope := add_entity (in_scope u) z (EInteger 1)\<rparr>)"
    if "scope_find_entity (current (in_scope u)) z = None" "find_type (in_scope u) ''integer'' = Some TInteger" for u z
    using that
    by (simp add: eval_statement_def eval_declaration_def bind_get bind_return bind_heap copy_entity_def)
      (simp add: bind_m_def construct_m_def make_constructor_def ensure_value_def modify_scope_def)
  define s1 where "s1 = s\<lparr>in_scope := add_entity (in_scope s) x (EInteger 1)\<rparr>"
  define s2 where "s2 = s1\<lparr>in_scope := add_entity (in_scope s1) y (EInteger 1)\<rparr>"
  obtain t ss where t: "es_scopes (in_scope s) = t # ss" using assms(1) by (cases "es_scopes (in_scope s)") auto
  have cur: "current (in_scope s1) = scope_add t x (EInteger 1)" "sc_policy (current (in_scope s1)) = sc_policy (current (in_scope s))"
    using t by (simp_all add: s1_def current_def add_entity_def update_current_def scope_add_def)
  have y: "scope_find_entity (current (in_scope s1)) y = None"
    using assms(2,4) t by (simp add: cur scope_table.look_add) (simp add: current_def)
  have ty: "find_type (in_scope s1) ''integer'' = Some TInteger" using assms(5) by (simp add: s1_def find_type_add)
  have r1: "ev_statement ?ev (VariableDeclaration x ''integer'' None) s = (Done (), s1)"
    using decl [OF assms(3,5)] by (simp add: s1_def)
  have r2: "ev_statement ?ev (VariableDeclaration y ''integer'' None) s1 = (Done (), s2)"
    using decl [OF y ty] by (simp add: s2_def)
  have "eval_statements ?ev [VariableDeclaration x ''integer'' None, VariableDeclaration y ''integer'' None] s
      = (Done (), if sc_policy (current (in_scope s)) = Stay then s2 else s1)"
    using r1 r2 cur(2) by (simp add: bind_m_def [of "ev_statement e st" for e st] bind_get del: interpreter.simps)
  moreover have "find_entity (in_scope s2) x = Some (EInteger 1)" "find_entity (in_scope s2) y = Some (EInteger 1)"
    using assms(1,2) by (simp_all add: s2_def s1_def find_entity_add)
  ultimately show ?thesis by simp
qed

theorem default_declared_variables_share_witness:
  "\<forall>env. \<exists>s'. eval_statements (interpreter 2 env)
      [VariableDeclaration ''a'' ''integer'' None, VariableDeclaration ''b'' ''integer'' None] initial_interp = (Done (), s')
    \<and> find_entity (in_scope s') ''a'' = find_entity (in_scope s') ''b''"
proof
  fix env
  have "es_scopes (in_scope initial_interp) \<noteq> []" "''a'' \<noteq> ''b''"
    "scope_find_entity (current (in_scope initial_interp)) ''a'' = None"
    "scope_find_entity (current (in_scope initial_interp)) ''b'' = None"
    "find_type (in_scope initial_interp) ''integer'' = Some TInteger"
    "sc_policy (current (in_scope initial_interp)) = Stay"
    by (simp_all add: initial_interp_def current_def initial_scope scope_find_entity_def find_type_def
        scope_find_type_def entity_type_list_def)
  from default_declared_variables_share [OF this(1-5), of 0 env] this(6)
  show "\<exists>s'. eval_statements (interpreter 2 env)
      [VariableDeclaration ''a'' ''integer'' None, VariableDeclaration ''b'' ''integer'' None] initial_interp = (Done (), s')
    \<and> find_entity (in_scope s') ''a'' = find_entity (in_scope s') ''b''"
    by (auto simp: numeral_2_eq_2)
qed

section \<open>Timeouts\<close>

lemma with_timeout_None:
  assumes "with_timeout d m s = (Done None, s')"
  shows "\<exists>dl u. m (s\<lparr>in_deadline := Some dl\<rparr>) = (Cut, u) \<and> s' = u\<lparr>in_deadline := in_deadline s\<rparr>"
proof -
  define dl where "dl = (case in_deadline s of None \<Rightarrow> in_clock s + d | Some t \<Rightarrow> min (in_clock s + d) t)"
  obtain r1 u where u: "m (s\<lparr>in_deadline := Some dl\<rparr>) = (r1, u)" by fastforce
  have "r1 = Cut \<and> s' = u\<lparr>in_deadline := in_deadline s\<rparr>"
    using assms u unfolding with_timeout_def Let_def dl_def [symmetric]
    by (cases r1) (simp_all split: if_splits)
  with u show ?thesis by blast
qed

lemma invocation_cut:
  assumes "eval_invocation ev w inst args s = (Cut, u)"
  shows "\<exists>expected. bind_m (get_m (\<lambda>s. sc_return (current (in_scope s)))) (\<lambda>return_cell.
        bind_m (bind_arguments args inst (workflow_signature w)) (\<lambda>_.
        bind_m (eval_scope ev LocalScope (workflow_statements w)) (\<lambda>_.
        invocation_value inst expected return_cell))) (s\<lparr>in_scope := push FunctionScope (in_scope s)\<rparr>) = (Cut, u)"
proof -
  let ?body = "\<lambda>expected. bind_m (get_m (\<lambda>s. sc_return (current (in_scope s)))) (\<lambda>return_cell.
        bind_m (bind_arguments args inst (workflow_signature w)) (\<lambda>_.
        bind_m (eval_scope ev LocalScope (workflow_statements w)) (\<lambda>_.
        invocation_value inst expected return_cell)))"
  define type_m where "type_m = (case return_type_of (workflow_signature w) of
         None \<Rightarrow> return_m TVoid
       | Some name \<Rightarrow> bind_m (get_m (\<lambda>s. find_type (in_scope s) name)) (\<lambda>t. case t of
               None \<Rightarrow> throw_m (EvaluationError (''Unknown return type '' @ name @ '' not found''))
             | Some t \<Rightarrow> return_m t))"
  have type: "\<exists>r. type_m s = (r, s) \<and> ((\<exists>t. r = Done t) \<or> (\<exists>e. r = Throw e))"
    by (auto simp: type_m_def bind_get split: option.split)
  have run: "bind_m type_m (\<lambda>expected. bind_m (modify_scope (push FunctionScope)) (\<lambda>_.
      bind_m (?body expected) (\<lambda>result. bind_m (modify_scope pop_scope) (\<lambda>_. return_m result)))) s = (Cut, u)"
    using assms by (simp only: eval_invocation_def type_m_def)
  then obtain expected where "bind_m (?body expected)
      (\<lambda>result. bind_m (modify_scope pop_scope) (\<lambda>_. return_m result))
      (s\<lparr>in_scope := push FunctionScope (in_scope s)\<rparr>) = (Cut, u)"
    using type by (auto simp: bind_m_def [of type_m] bind_modify)
  then have "?body expected (s\<lparr>in_scope := push FunctionScope (in_scope s)\<rparr>) = (Cut, u)"
    by (simp add: bind_m_def [of "?body expected"] bind_modify split: prod.splits outcome.splits)
  then show ?thesis by blast
qed

text \<open>A workflow invocation that is cut short by its timeout leaves its function scope (and
  whatever was above it) on the scope stack: the awaiting workflow goes on in the scope of the
  workflow that was given up.\<close>

theorem timed_out_invocation_leaves_its_scope:
  assumes "wt_interp s" and "\<forall>(k, e) \<in> set args. wt_entity (in_heap s) e"
    and "with_timeout d (eval_invocation (interpreter n env) w inst args) s = (Done None, s')"
  shows "scope_count (in_scope s) < scope_count (in_scope s')"
proof -
  let ?ev = "interpreter n env"
  from with_timeout_None [OF assms(3)] obtain dl u where
    u: "eval_invocation ?ev w inst args (s\<lparr>in_deadline := Some dl\<rparr>) = (Cut, u)"
    and s': "s' = u\<lparr>in_deadline := in_deadline s\<rparr>" by blast
  define s0 where "s0 = s\<lparr>in_deadline := Some dl\<rparr>"
  have s0: "wt_interp s0" using assms(1) by (simp add: s0_def)
  obtain t ss where t: "es_scopes (in_scope s0) = t # ss" using s0 by (rule wt_interp_scope)
  from wt_push [OF s0 t, of FunctionScope] obtain p where
    p: "es_scopes (push FunctionScope (in_scope s0)) = p # t # ss"
    and wt: "wt_interp (s0\<lparr>in_scope := push FunctionScope (in_scope s0)\<rparr>)" by auto
  from invocation_cut [OF u [folded s0_def]] obtain expected where
    run: "bind_m (get_m (\<lambda>s. sc_return (current (in_scope s)))) (\<lambda>return_cell.
        bind_m (bind_arguments args inst (workflow_signature w)) (\<lambda>_.
        bind_m (eval_scope ?ev LocalScope (workflow_statements w)) (\<lambda>_.
        invocation_value inst expected return_cell))) (s0\<lparr>in_scope := push FunctionScope (in_scope s0)\<rparr>) = (Cut, u)"
    by blast
  have good: "good (snd ` set args) (\<lambda>x. {x}) (bind_m (get_m (\<lambda>s. sc_return (current (in_scope s)))) (\<lambda>return_cell.
        bind_m (bind_arguments args inst (workflow_signature w)) (\<lambda>_.
        bind_m (eval_scope ?ev LocalScope (workflow_statements w)) (\<lambda>_.
        invocation_value inst expected return_cell))))"
    using good_interpreter
    by (intro good_start good_bind [OF good_bind_arguments] good_bind [OF good_eval_scope] good_invocation_value) auto
  have args: "\<forall>e \<in> snd ` set args. wt_entity (in_heap (s0\<lparr>in_scope := push FunctionScope (in_scope s0)\<rparr>)) e"
    using assms(2) by (auto simp: s0_def)
  have "stack_le (p # t # ss) (es_scopes (in_scope u))"
    using evolves_fields(2) [OF goodD(2) [OF good wt args run]] p by simp
  then have "Suc (Suc (length ss)) \<le> length (es_scopes (in_scope u))" by (auto simp: stack_le_def)
  then show ?thesis using t by (simp add: scope_count_def s' s0_def)
qed

lemma eval_ms_literal:
  "eval_expression env ev (ms_literal n) s = (Done (EDuration (length (in_heap s))),
     s\<lparr>in_heap := in_heap s @ [CDuration \<lparr>dur_count = n, dur_unit = Ms\<rparr>]\<rparr>)"
  by (simp add: ms_literal_def eval_primary_def eval_literal_def heap_m_def shared_make_def)

text \<open>A workflow that waits for longer than it is given.\<close>

lemma slow_invocation:
  assumes "es_scopes (in_scope s) \<noteq> []" and "in_deadline s = None"
  shows "with_timeout 5 (eval_invocation (interpreter (Suc (Suc n)) env)
      (WorkflowDef ''slow'' None [DelayStatement (ms_literal 9)]) inst []) s =
    (Done None, s\<lparr>in_scope := push FunctionScope (in_scope s), in_clock := max (in_clock s) (in_clock s + 5),
       in_heap := in_heap s @ [CDuration \<lparr>dur_count = 9, dur_unit = Ms\<rparr>]\<rparr>)"
  using assms
  by (simp add: with_timeout_def Let_def eval_invocation_def return_type_of_def bind_return bind_modify bind_get
      bind_arguments_def bind_assoc)
    (simp add: bind_m_def eval_scope_def modify_scope_def on_scope_exit_def eval_statement_def eval_delay_def
      eval_ms_literal get_m_def delay_def wait_until_def duration_at_def shared_get_def to_std_duration_def
      shared_make_def new_scope_def current_def pop_scope_def Let_def)

theorem timed_out_invocation_leaves_its_scope_witness:
  "\<forall>env inst. \<exists>s'. with_timeout 5 (eval_invocation (interpreter 2 env)
      (WorkflowDef ''slow'' None [DelayStatement (ms_literal 9)]) inst []) initial_interp = (Done None, s')
    \<and> scope_count (in_scope initial_interp) < scope_count (in_scope s')"
proof (intro allI)
  fix env inst
  have "es_scopes (in_scope initial_interp) \<noteq> []" "in_deadline initial_interp = None"
    by (simp_all add: initial_interp_def initial_scope)
  from slow_invocation [OF this, of 0 env inst] obtain s' where
    run: "with_timeout 5 (eval_invocation (interpreter 2 env)
      (WorkflowDef ''slow'' None [DelayStatement (ms_literal 9)]) inst []) initial_interp = (Done None, s')"
    by (simp add: numeral_2_eq_2)
  with timed_out_invocation_leaves_its_scope [OF wt_initial_interp _ run]
  show "\<exists>s'. with_timeout 5 (eval_invocation (interpreter 2 env)
      (WorkflowDef ''slow'' None [DelayStatement (ms_literal 9)]) inst []) initial_interp = (Done None, s')
    \<and> scope_count (in_scope initial_interp) < scope_count (in_scope s')" by auto
qed

definition slow_workflow :: workflow_definition where
  "slow_workflow = WorkflowDef ''slow'' None [DelayStatement (ms_literal 9)]"

definition await_slow :: expression where
  "await_slow = primary (PAwait (variable ''slow'') (ms_literal 5))"

lemma eval_await_slow:
  assumes "es_scopes (in_scope s) \<noteq> []" and "in_deadline s = None"
    and "find_entity (in_scope s) ''slow'' = Some (EWorkflowDefinition slow_workflow)"
  shows "\<exists>c cs. eval_expression env (interpreter (Suc (Suc n)) env) await_slow s =
    (Done timeout_error, s\<lparr>in_scope := push FunctionScope (in_scope s), in_clock := c, in_heap := in_heap s @ cs\<rparr>)"
proof -
  let ?ev = "interpreter (Suc (Suc n)) env"
  let ?s1 = "s\<lparr>in_heap := in_heap s @ [CDuration \<lparr>dur_count = 5, dur_unit = Ms\<rparr>]\<rparr>"
  have path: "ev_expression ?ev (variable ''slow'') s = (Done (EWorkflowDefinition slow_workflow), s)"
    using eval_single_path [OF assms(3)] by (simp add: variable_def eval_primary_def)
  have timeout: "eval_timeout ?ev (ms_literal 5) s = (Done \<lparr>dur_count = 5, dur_unit = Ms\<rparr>, ?s1)"
    by (simp add: eval_timeout_def bind_m_def eval_ms_literal get_m_def duration_at_def shared_get_def)
  have "with_timeout 5 (eval_invocation ?ev slow_workflow (ExpressionInstance (variable ''slow'')) []) ?s1 =
    (Done None, ?s1\<lparr>in_scope := push FunctionScope (in_scope ?s1), in_clock := max (in_clock ?s1) (in_clock ?s1 + 5),
       in_heap := in_heap ?s1 @ [CDuration \<lparr>dur_count = 9, dur_unit = Ms\<rparr>]\<rparr>)"
    unfolding slow_workflow_def by (rule slow_invocation) (use assms(1,2) in simp_all)
  then have "eval_await_workflow ?ev (ms_literal 5) slow_workflow (ExpressionInstance (variable ''slow'')) [] s =
    (Done timeout_error, ?s1\<lparr>in_scope := push FunctionScope (in_scope ?s1), in_clock := max (in_clock ?s1) (in_clock ?s1 + 5),
       in_heap := in_heap ?s1 @ [CDuration \<lparr>dur_count = 9, dur_unit = Ms\<rparr>]\<rparr>)"
    unfolding eval_await_workflow_def
    by (simp add: bind_m_def [of "eval_timeout e d" for e d] timeout to_std_duration_def del: interpreter.simps)
      (simp add: bind_m_def del: interpreter.simps)
  then have "eval_await env ?ev (variable ''slow'') (ms_literal 5) s =
    (Done timeout_error, ?s1\<lparr>in_scope := push FunctionScope (in_scope ?s1), in_clock := max (in_clock ?s1) (in_clock ?s1 + 5),
       in_heap := in_heap ?s1 @ [CDuration \<lparr>dur_count = 9, dur_unit = Ms\<rparr>]\<rparr>)"
    unfolding eval_await_def
    by (simp add: bind_m_def [of "ev_expression ev e" for ev e] path del: interpreter.simps)
  then show ?thesis
    by (intro exI [of _ "max (in_clock s) (in_clock s + 5)"]
        exI [of _ "[CDuration \<lparr>dur_count = 5, dur_unit = Ms\<rparr>, CDuration \<lparr>dur_count = 9, dur_unit = Ms\<rparr>]"])
      (simp add: await_slow_def eval_primary_def)
qed

text \<open>After an await that timed out, a return statement of the awaiting workflow writes the
  return value of the workflow that was given up: the awaiting one has not returned, neither by
  value nor by policy.\<close>

theorem return_after_timeout_is_lost:
  assumes "es_scopes (in_scope s) = t # ss" and "in_deadline s = None"
    and "find_entity (in_scope s) ''slow'' = Some (EWorkflowDefinition slow_workflow)"
  shows "\<exists>s' leaked v. eval_statements (interpreter (Suc (Suc (Suc (Suc n)))) env)
      [ExpressionStatement await_slow, ReturnStatement (int_literal i)] s = (Done (), s')
    \<and> es_scopes (in_scope s') = leaked # t # ss \<and> sc_policy leaked = Return
    \<and> es_returns (in_scope s') = es_returns (in_scope s) @ [Some v]"
proof -
  let ?ev = "interpreter (Suc (Suc (Suc (Suc n)))) env"
  from eval_await_slow [of s env n] assms obtain c cs where
    run: "eval_expression env (interpreter (Suc (Suc n)) env) await_slow s =
      (Done timeout_error, s\<lparr>in_scope := push FunctionScope (in_scope s), in_clock := c, in_heap := in_heap s @ cs\<rparr>)"
    by auto
  let ?s1 = "s\<lparr>in_scope := push FunctionScope (in_scope s), in_clock := c, in_heap := in_heap s @ cs\<rparr>"
  have r1: "ev_statement ?ev (ExpressionStatement await_slow) s = (Done (), ?s1)"
    using run by (simp add: eval_statement_def bind_m_def del: push.simps)
  have pol: "sc_policy (current (in_scope ?s1)) = Stay"
    by (simp add: shared_make_def current_def new_scope_def)
  have r2: "ev_statement ?ev (ReturnStatement (int_literal i)) ?s1 =
      (Done (), ?s1\<lparr>in_heap := in_heap ?s1 @ [CInteger i],
        in_scope := return_value (EInteger (length (in_heap ?s1))) (in_scope ?s1)\<rparr>)"
    by (simp add: eval_statement_def eval_return_def bind_m_def eval_int_literal modify_scope_def
        del: push.simps)
  have "eval_statements ?ev [ExpressionStatement await_slow, ReturnStatement (int_literal i)] s =
      (Done (), ?s1\<lparr>in_heap := in_heap ?s1 @ [CInteger i],
        in_scope := return_value (EInteger (length (in_heap ?s1))) (in_scope ?s1)\<rparr>)"
    using pol
    by (simp add: bind_m_def [of "ev_statement e st" for e st] r1 r2 bind_get del: push.simps interpreter.simps)
  then show ?thesis
    using assms(1)
    by (simp add: return_value_def update_current_def shared_make_def shared_set_def current_def new_scope_def)
qed

theorem return_after_timeout_is_lost_witness:
  "\<forall>env. \<exists>s' t. eval_statements (interpreter 4 env) [ExpressionStatement await_slow, ReturnStatement (int_literal 1)]
      (with_variable ''slow'' (EWorkflowDefinition slow_workflow) []) = (Done (), s')
    \<and> (\<exists>leaked. es_scopes (in_scope s') = [leaked, t] \<and> sc_policy t = Stay)"
proof
  fix env
  let ?s = "with_variable ''slow'' (EWorkflowDefinition slow_workflow) []"
  obtain t where t: "es_scopes (in_scope ?s) = [t]" "sc_policy t = Stay"
    by (simp add: with_variable_def add_entity_def update_current_def initial_scope scope_add_def)
  have "in_deadline ?s = None" by (simp add: with_variable_def initial_interp_def)
  from return_after_timeout_is_lost [OF t(1) this find_with_variable, of 0 env 1] t(2)
  show "\<exists>s' t. eval_statements (interpreter 4 env) [ExpressionStatement await_slow, ReturnStatement (int_literal 1)] ?s = (Done (), s')
    \<and> (\<exists>leaked. es_scopes (in_scope s') = [leaked, t] \<and> sc_policy t = Stay)"
    by (auto simp: numeral_eq_Suc)
qed

end
