(* ===== verification/Flow_Delegates.thy ===== *)
theory Flow_Delegates
  imports Flow_Effects
begin

text \<open>
  Dictionaries as the language builds them, and the protocol with the delegates of the engine: a
  dictionary goes out as JSON, the answer comes back as a reply dictionary or as a timeout error.
\<close>

section \<open>Insertion\<close>

text \<open>insert on a dictionary stores the value under the text of the key unless the key is
  already there, in which case the old value stays. The key is moved out of its cell, so every
  variable that shares the key's cell is left with the text of a moved-from string. All other cells
  keep their content. Called with named arguments insert always fails and changes nothing, although
  its code looks for arguments named key and value.\<close>

theorem dictionary_insert_effect:
  assumes "wt_heap h" and "has_cell h 6 a" and "has_cell h 3 s"
  shows "\<exists>h'. dictionary_insert rt kind a [(None, EString s), (None, v)] h = (Inr EVoid, h')
    \<and> (\<forall>k. map_lookup (dictionary_at h' a) k =
        (if k = string_at h s then (case map_lookup (dictionary_at h a) k of Some w \<Rightarrow> Some w | None \<Rightarrow> Some v)
         else map_lookup (dictionary_at h a) k))
    \<and> string_at h' s = rt_moved_from rt (string_at h s)
    \<and> (\<forall>c. c \<noteq> a \<and> c \<noteq> s \<longrightarrow> shared_get h' c = shared_get h c)
    \<and> (\<exists>m. dictionary_insert rt kind a [(Some ''key'', EString s), (Some ''value'', v)] h = (Inl m, h))"
proof -
  let ?t = "string_at h s"
  have as: "a \<noteq> s" "a < length h" "s < length h" using assms(2,3) by (auto simp: has_cell_def)
  define h1 where "h1 = shared_set h s (CString (rt_moved_from rt ?t))"
  have d1: "dictionary_at h1 a = dictionary_at h a"
    using as by (simp add: dictionary_at_def h1_def shared_get_def shared_set_def)
  define h2 where "h2 = shared_set h1 a (CDictionary (map_insert ?t v (dictionary_at h a)))"
  have ins: "dictionary_insert rt kind a [(None, EString s), (None, v)] h = (Inr EVoid, h2)"
    by (simp add: dictionary_insert_def args_is_array_def Let_def h2_def d1 [symmetric] flip: h1_def)
  have d2: "dictionary_at h2 a = map_insert ?t v (dictionary_at h a)"
    using as by (simp add: dictionary_at_def h2_def h1_def shared_get_def shared_set_def)
  have look: "\<forall>k. map_lookup (dictionary_at h2 a) k =
      (if k = ?t then (case map_lookup (dictionary_at h a) k of Some w \<Rightarrow> Some w | None \<Rightarrow> Some v)
       else map_lookup (dictionary_at h a) k)"
    using map_insert_lookup [of "dictionary_at h a" ?t v] dictionary_at_wt [OF assms(1), of a]
    by (auto simp: d2 sorted_keys_def split: option.split)
  have key: "string_at h2 s = rt_moved_from rt ?t"
    using as by (simp add: string_at_def h2_def h1_def shared_get_def shared_set_def)
  have frame: "\<forall>c. c \<noteq> a \<and> c \<noteq> s \<longrightarrow> shared_get h2 c = shared_get h c"
    using as by (simp add: h2_def h1_def shared_get_def shared_set_def)
  have named: "\<exists>m. dictionary_insert rt kind a [(Some ''key'', EString s), (Some ''value'', v)] h = (Inl m, h)"
    by (simp add: dictionary_insert_def args_is_array_def invalid_function_call_def)
  show ?thesis using ins look key frame named by blast
qed

theorem dictionary_insert_effect_witness:
  "\<forall>rt. \<exists>h'. dictionary_insert rt Dictionary 1 [(None, EString 0), (None, EVoid)] [CString ''k'', CDictionary []]
      = (Inr EVoid, h') \<and> map_lookup (dictionary_at h' 1) ''k'' = Some EVoid"
proof
  fix rt
  let ?h = "[CString ''k'', CDictionary []]"
  have h: "wt_heap ?h" "has_cell ?h 6 1" "has_cell ?h 3 0"
    by (simp_all add: wt_heap_def has_cell_def sorted_keys_def)
  have "string_at ?h 0 = ''k''" "dictionary_at ?h 1 = []"
    by (simp_all add: string_at_def dictionary_at_def shared_get_def)
  with dictionary_insert_effect [OF h, of rt Dictionary EVoid]
  show "\<exists>h'. dictionary_insert rt Dictionary 1 [(None, EString 0), (None, EVoid)] ?h
      = (Inr EVoid, h') \<and> map_lookup (dictionary_at h' 1) ''k'' = Some EVoid"
    by (auto simp: map_lookup_def simp del: One_nat_def)
qed

section \<open>Requests\<close>

lemma await_reply_in_time:
  assumes "0 \<le> t" and "t \<le> d" and "\<forall>dl. in_deadline s = Some dl \<longrightarrow> in_clock s + t \<le> dl"
  shows "with_timeout d (await_reply (Reply t j)) s = (Done (Some j), s\<lparr>in_clock := in_clock s + t\<rparr>)"
proof -
  define dl where "dl = (case in_deadline s of None \<Rightarrow> in_clock s + d | Some t \<Rightarrow> min (in_clock s + d) t)"
  have dl: "in_clock s + t \<le> dl" using assms(2,3) by (auto simp: dl_def split: option.split)
  have "await_reply (Reply t j) (s\<lparr>in_deadline := Some dl\<rparr>) =
      (Done j, s\<lparr>in_deadline := Some dl, in_clock := in_clock s + t\<rparr>)"
    using dl assms(1) by (simp add: await_reply_def bind_m_def delay_def wait_until_def)
  then show ?thesis unfolding with_timeout_def Let_def dl_def [symmetric] by simp
qed

lemma await_reply_late:
  assumes "0 \<le> d" and "in_deadline s = None" and "r = NoReply \<or> (\<exists>t j. r = Reply t j \<and> d < t)"
  shows "with_timeout d (await_reply r) s = (Done None, s\<lparr>in_clock := in_clock s + d\<rparr>)"
  using assms
  by (auto simp: with_timeout_def await_reply_def bind_m_def delay_def wait_until_def Let_def)

text \<open>One request goes out; then the answer is awaited within the duration.\<close>

lemma await_request_run:
  assumes "ev_expression ev duration s = (Done (EDuration b), s1)"
    and "duration_at (in_heap s1) b = \<lparr>dur_count = n, dur_unit = u\<rparr>" and "n \<noteq> 0"
    and "to_json (ev_depth ev) (in_heap s1) a = Some request"
    and "delegate_of (ev_extensions env) k = Some delegate"
  shows "eval_await_request env ev duration k a s =
      bind_m (with_timeout (to_std_duration \<lparr>dur_count = n, dur_unit = u\<rparr>) (await_reply (delegate request)))
        (\<lambda>result. case result of None \<Rightarrow> return_m timeout_error | Some j \<Rightarrow> heap_m (from_json j (reply_kind k)))
        (s1\<lparr>in_output := in_output s1 @ [Request k request]\<rparr>)"
proof -
  have timeout: "eval_timeout ev duration s = (Done \<lparr>dur_count = n, dur_unit = u\<rparr>, s1)"
    using assms(1-3) by (simp add: eval_timeout_def bind_m_def get_m_def)
  then show ?thesis
    using assms(4,5)
    by (simp add: eval_await_request_def bind_m_def [of "eval_timeout e d" for e d] bind_get of_option_def
        bind_return)
      (simp add: bind_m_def [of "emit e" for e] emit_def)
qed

lemma await_request_in_time:
  assumes "ev_expression ev duration s = (Done (EDuration b), s1)"
    and "duration_at (in_heap s1) b = \<lparr>dur_count = n, dur_unit = u\<rparr>" and "n \<noteq> 0"
    and "to_json (ev_depth ev) (in_heap s1) a = Some request"
    and "delegate_of (ev_extensions env) k = Some delegate" and "in_deadline s1 = None"
    and "clean_json (JObject m)" and "delegate request = Reply t (JObject m)"
    and "0 \<le> t" and "t \<le> to_std_duration \<lparr>dur_count = n, dur_unit = u\<rparr>"
  shows "\<exists>c s'. eval_await_request env ev duration k a s = (Done (EDictionary (reply_kind k) c), s')
        \<and> to_json (json_depth (JObject m)) (in_heap s') c = Some (JObject m)
        \<and> in_clock s' = in_clock s1 + t \<and> in_output s' = in_output s1 @ [Request k request]"
proof -
  let ?d = "to_std_duration \<lparr>dur_count = n, dur_unit = u\<rparr>"
  let ?s2 = "s1\<lparr>in_output := in_output s1 @ [Request k request]\<rparr>"
  have "with_timeout ?d (await_reply (Reply t (JObject m))) ?s2 =
      (Done (Some (JObject m)), ?s2\<lparr>in_clock := in_clock ?s2 + t\<rparr>)"
    using assms(6,9,10) by (intro await_reply_in_time) simp_all
  moreover from json_reads_back [OF assms(7), of "reply_kind k" "in_heap s1"] obtain c cs where
    "from_json (JObject m) (reply_kind k) (in_heap s1) = (EDictionary (reply_kind k) c, in_heap s1 @ cs)"
    "to_json (json_depth (JObject m)) (in_heap s1 @ cs) c = Some (JObject m)" by auto
  ultimately show ?thesis
    using await_request_run [OF assms(1-5)] assms(8) by (simp add: bind_m_def heap_m_def)
qed


definition echo_environment :: "runtime \<Rightarrow> environment" where
  "echo_environment rt = (no_environment rt)
     \<lparr>ev_extensions := (ev_extensions (no_environment rt))\<lparr>run_action_delegate := Some (\<lambda>j. Reply 3 j)\<rparr>\<rparr>"


end
