(* ===== verification/Flow_Export.thy ===== *)
theory Flow_Export
  imports Flow_Json
begin

text \<open>
  libs/flow/src/exporter/exporter.cpp: the JSON form of a program's syntax tree. Expressions are
  exported as their source text.
\<close>

section \<open>The exporter\<close>

definition as_str :: "located \<Rightarrow> program \<Rightarrow> json" where
  "as_str item p = JString (get_code p item)"

definition as_str_option :: "located option \<Rightarrow> program \<Rightarrow> json" where
  "as_str_option item p = (case item of Some loc \<Rightarrow> as_str loc p | None \<Rightarrow> JString ''null'')"

text \<open>An object filled by a sequence of object[key] = value.\<close>

definition filled :: "(string \<times> json) list \<Rightarrow> (string \<times> json) list" where
  "filled kvs = foldl (\<lambda>m (k, v). object_set m k v) [] kvs"

definition import_to_json :: "program \<Rightarrow> identifier_path \<Rightarrow> json" where
  "import_to_json p path = JObject (filled [(''import'', as_str (path_loc path) p)])"

definition dictionary_literal_to_json :: "program \<Rightarrow> (ident \<times> expression) list \<Rightarrow> json" where
  "dictionary_literal_to_json p item =
     JObject (filled (map (\<lambda>(name, value). (name, as_str (expression_loc value) p)) item))"

definition expression_to_json :: "program \<Rightarrow> expression \<Rightarrow> json" where
  "expression_to_json p e = JObject (filled [(''expression'', as_str (expression_loc e) p)])"

definition declaration_to_json :: "program \<Rightarrow> ident \<Rightarrow> ident \<Rightarrow> expression option \<Rightarrow> json" where
  "declaration_to_json p name type expr =
     (let self = filled ([(''name'', JString name), (''type'', JString type)] @
          (case expr of None \<Rightarrow> [] | Some e \<Rightarrow> [(''arguments'', expression_to_json p e)]))
      in JObject (filled [(''object'', JObject self)]))"

definition return_to_json :: "program \<Rightarrow> expression \<Rightarrow> json" where
  "return_to_json p e = JObject (filled [(''return'', as_str (expression_loc e) p)])"

definition raise_to_json :: "program \<Rightarrow> expression \<Rightarrow> json" where
  "raise_to_json p e = JObject (filled [(''raise'', as_str (expression_loc e) p)])"

definition delay_to_json :: "program \<Rightarrow> expression \<Rightarrow> json" where
  "delay_to_json p e = JObject (filled [(''delay'', as_str (expression_loc e) p)])"

definition assignment_to_json :: "program \<Rightarrow> identifier_path \<Rightarrow> expression \<Rightarrow> json" where
  "assignment_to_json p path e =
     JObject (filled [(''assigment'', JObject (filled
       [(''name'', as_str (path_loc path) p), (''expression'', as_str (expression_loc e) p)]))])"

text \<open>
  The object of a conditional, given the JSON of its blocks. The statements of every elif block are
  taken from the if block, and the else block is stored under the key elif.
\<close>

definition condition_to_json :: "program \<Rightarrow> expression \<Rightarrow> json list \<Rightarrow> json" where
  "condition_to_json p cond sts =
     JObject (filled [(''condition'', as_str (expression_loc cond) p), (''statements'', JArray sts)])"

definition conditional_to_json ::
  "program \<Rightarrow> condition_block \<Rightarrow> json list \<Rightarrow> condition_block list \<Rightarrow> json list \<Rightarrow> json" where
  "conditional_to_json p if_block if_json elif_blocks else_json =
     JObject (filled [(''conditional'', JObject (filled
       ([(''if'', condition_to_json p (condition if_block) if_json)] @
        (if elif_blocks \<noteq> []
         then [(''elif'', JArray (map (\<lambda>b. condition_to_json p (condition b) if_json) elif_blocks))]
         else []) @
        (if else_json \<noteq> []
         then [(''elif'', JObject (filled [(''statements'', JArray else_json)]))]
         else []))))])"

fun statement_to_json :: "program \<Rightarrow> workflow_statement \<Rightarrow> json"
  and scope_to_json :: "program \<Rightarrow> workflow_statement list \<Rightarrow> json list"
  and workflow_to_json :: "program \<Rightarrow> workflow_definition \<Rightarrow> json"
where
  "statement_to_json p (ImportStatement path) = import_to_json p path"
| "statement_to_json p (VariableDeclaration name type expr) = declaration_to_json p name type expr"
| "statement_to_json p (AssignmentStatement path e) = assignment_to_json p path e"
| "statement_to_json p (DelayStatement e) = delay_to_json p e"
| "statement_to_json p (ReturnStatement e) = return_to_json p e"
| "statement_to_json p (RaiseStatement e) = raise_to_json p e"
| "statement_to_json p BreakStatement = JString ''break''"
| "statement_to_json p (ExpressionStatement e) = expression_to_json p e"
| "statement_to_json p (IfBlock (ConditionBlock cond sts) bs els) =
     conditional_to_json p (ConditionBlock cond sts) (scope_to_json p sts) bs (scope_to_json p els)"
| "statement_to_json p (RepeatBlock sts) = JObject (filled [(''repeat'', JArray (scope_to_json p sts))])"
| "statement_to_json p (WorkflowStatement w) = workflow_to_json p w"
| "scope_to_json p [] = []"
| "scope_to_json p (st # sts) = statement_to_json p st # scope_to_json p sts"
| "workflow_to_json p (WorkflowDef name sg sts) =
     JObject (filled [(''workflow'', JObject (filled
       [(''name'', JString name), (''signature'', as_str_option (map_option signature_loc sg) p),
        (''statements'', JArray (scope_to_json p sts))]))])"

definition exporter_run :: "program \<Rightarrow> json" where
  "exporter_run p = JArray (scope_to_json p (ast p))"

section \<open>Properties\<close>

lemma scope_to_json_map: "scope_to_json p sts = map (statement_to_json p) sts"
  by (induction sts) simp_all

lemma object_set_other: "map_of m k' = v \<Longrightarrow> k' \<noteq> k \<Longrightarrow> map_of (object_set m k x) k' = v"
  by (induction m k x rule: object_set.induct) (auto split: if_splits)

lemma object_set_lookup: "map_of (object_set m k x) k = Some x"
  by (induction m k x rule: object_set.induct) auto

text \<open>The objects the exporter fills behave like maps: the last assignment to a key counts.\<close>

lemma filled_lookup: "map_of (filled kvs) k = map_of (rev kvs) k"
proof -
  have "map_of (foldl (\<lambda>m (k, v). object_set m k v) m kvs) k =
      (case map_of (rev kvs) k of Some v \<Rightarrow> Some v | None \<Rightarrow> map_of m k)" for m
  proof (induction kvs arbitrary: m)
    case (Cons e kvs)
    obtain k1 v1 where e: "e = (k1, v1)" by fastforce
    show ?case
      using Cons.IH [of "object_set m k1 v1"] object_set_lookup [of m k1 v1] object_set_other [of m k _ k1 v1]
      by (cases "k = k1") (auto simp: e map_of_append map_add_def split: option.split)
  qed simp
  from this [of "[]"] show ?thesis by (simp add: filled_def split: option.split)
qed

text \<open>The exported form of a conditional does not contain the bodies of its elif blocks:
  conditionals that agree on the if block, the else block and the texts of the elif conditions are
  exported alike. With an else block the elif conditions are lost too, and the else block itself is
  found under the key elif, never under else.\<close>

theorem export_loses_elif_blocks:
  assumes "map (\<lambda>b. get_code p (expression_loc (condition b))) bs =
      map (\<lambda>b. get_code p (expression_loc (condition b))) bs' \<or> els \<noteq> [] \<and> bs \<noteq> [] \<and> bs' \<noteq> []"
  shows "statement_to_json p (IfBlock b bs els) = statement_to_json p (IfBlock b bs' els)
    \<and> (els \<noteq> [] \<longrightarrow> (\<exists>m. statement_to_json p (IfBlock b bs els) = JObject [(''conditional'', JObject m)]
        \<and> map_of m ''else'' = None
        \<and> map_of m ''elif'' = Some (JObject [(''statements'', JArray (scope_to_json p els))])))"
proof -
  obtain cond sts where b: "b = ConditionBlock cond sts" by (cases b)
  have conds: "map (\<lambda>b. condition_to_json p (condition b) js) bs = map (\<lambda>b. condition_to_json p (condition b) js) bs'"
    if "map (\<lambda>b. get_code p (expression_loc (condition b))) bs =
      map (\<lambda>b. get_code p (expression_loc (condition b))) bs'" for js
  proof -
    have f: "(\<lambda>b. condition_to_json p (condition b) js) =
      (\<lambda>t. JObject (filled [(''condition'', JString t), (''statements'', JArray js)])) \<circ>
        (\<lambda>b. get_code p (expression_loc (condition b)))"
      by (simp add: fun_eq_iff condition_to_json_def as_str_def)
    show ?thesis unfolding f using that by (simp only: flip: map_map)
  qed
  from assms have "statement_to_json p (IfBlock b bs els) = statement_to_json p (IfBlock b bs' els)"
  proof
    assume same: "map (\<lambda>b. get_code p (expression_loc (condition b))) bs =
      map (\<lambda>b. get_code p (expression_loc (condition b))) bs'"
    then have "bs = [] \<longleftrightarrow> bs' = []" by (metis map_is_Nil_conv)
    then show ?thesis using conds [OF same] by (simp add: b conditional_to_json_def)
  next
    assume "els \<noteq> [] \<and> bs \<noteq> [] \<and> bs' \<noteq> []"
    then show ?thesis by (simp add: b conditional_to_json_def scope_to_json_map filled_def)
  qed
  moreover have "\<exists>m. statement_to_json p (IfBlock b bs els) = JObject [(''conditional'', JObject m)]
        \<and> map_of m ''else'' = None
        \<and> map_of m ''elif'' = Some (JObject [(''statements'', JArray (scope_to_json p els))])"
    if "els \<noteq> []"
    using that
    by (auto simp: b conditional_to_json_def filled_lookup scope_to_json_map filled_def [of "[(''conditional'', x)]" for x]
        filled_def [of "[(''statements'', x)]" for x])
  ultimately show ?thesis by blast
qed

theorem export_loses_elif_blocks_witness:
  "\<forall>p e. statement_to_json p (IfBlock (ConditionBlock e []) [ConditionBlock e [BreakStatement]] [])
    = statement_to_json p (IfBlock (ConditionBlock e []) [ConditionBlock e [ReturnStatement e]] [])"
proof (intro allI)
  fix p e
  show "statement_to_json p (IfBlock (ConditionBlock e []) [ConditionBlock e [BreakStatement]] [])
    = statement_to_json p (IfBlock (ConditionBlock e []) [ConditionBlock e [ReturnStatement e]] [])"
    by (rule conjunct1 [OF export_loses_elif_blocks]) simp
qed

end
