(* ===== verification/Flow_Peg.thy ===== *)
theory Flow_Peg
  imports Prelude "HOL-Library.Sublist"
begin

text \<open>
  The part of boost::spirit::x3 the flow grammar is written with. A grammar expression is a
  datatype; what x3 does with it is a parameter: a relation that holds when the parser, with
  skipping on or off, can end on a text with an outcome. \<open>x3_laws\<close> is the documented meaning of
  each combinator, as a fixed-point equation of that relation. The numeric parsers of x3 are a
  second parameter, of which only the length of the match is used.
  The theory shows that a well-formed grammar (no rule calls itself before it consumed text, no
  repetition of a parser that may match nothing) ends with exactly one outcome on every text,
  whatever the relation, and that the laws are satisfiable: a fuelled interpreter gives a model.
\<close>

section \<open>Expressions, trees, outcomes\<close>

datatype char_class = AnyChar | Alpha | Alnum | Space

datatype number_parser = IntNumber | UintNumber | StrictReal

datatype 'r x3 =
    Lit string
  | Symbols "string list"
  | OneOf char_class
  | Eol
  | Eoi
  | Num number_parser
  | Seqn "'r x3" "'r x3"
  | Expect "'r x3" "'r x3"
  | Alt "'r x3" "'r x3"
  | Except "'r x3" "'r x3"
  | Star "'r x3"
  | Opt "'r x3"
  | Unless "'r x3"
  | Lexeme "'r x3"
  | NoSkip "'r x3"
  | Raw "'r x3"
  | Call 'r

text \<open>The attribute: what was matched, by rule; literals have none. A node has the lengths of the
  text left at the position where the rule begins, after skipping, and where it ends.\<close>

datatype 'r tree = Token string | Node 'r nat nat "'r tree list"

datatype 'r parse_outcome = Match "'r tree list" string | NoMatch string | Expectation string

text \<open>+a and a % b, which x3 documents as these expansions.\<close>

definition some_of :: "'r x3 \<Rightarrow> 'r x3" where
  "some_of a = Seqn a (Star a)"

definition sep_by :: "'r x3 \<Rightarrow> 'r x3 \<Rightarrow> 'r x3" where
  "sep_by a b = Seqn a (Star (Seqn b a))"

section \<open>Characters and symbols\<close>

definition is_alpha :: "char \<Rightarrow> bool" where
  "is_alpha c \<longleftrightarrow> (CHR ''A'' \<le> c \<and> c \<le> CHR ''Z'') \<or> (CHR ''a'' \<le> c \<and> c \<le> CHR ''z'')"

definition is_digit :: "char \<Rightarrow> bool" where
  "is_digit c \<longleftrightarrow> CHR ''0'' \<le> c \<and> c \<le> CHR ''9''"

definition is_space :: "char \<Rightarrow> bool" where
  "is_space c \<longleftrightarrow> c = CHR '' '' \<or> CHR 0x09 \<le> c \<and> c \<le> CHR 0x0D"

fun in_class :: "char_class \<Rightarrow> char \<Rightarrow> bool" where
  "in_class AnyChar c = True"
| "in_class Alpha c = is_alpha c"
| "in_class Alnum c = (is_alpha c \<or> is_digit c)"
| "in_class Space c = is_space c"

text \<open>The longest entry of a symbol table that starts the text.\<close>

fun longest :: "string list \<Rightarrow> string \<Rightarrow> string option" where
  "longest [] s = None"
| "longest (t # ts) s =
     (case longest ts s of
        None \<Rightarrow> if prefix t s then Some t else None
      | Some u \<Rightarrow> if prefix t s \<and> length u < length t then Some t else Some u)"

lemma longest_Some:
  "longest ts s = Some t \<Longrightarrow>
     t \<in> set ts \<and> prefix t s \<and> (\<forall>u \<in> set ts. prefix u s \<longrightarrow> length u \<le> length t)"
proof (induction ts arbitrary: t)
  case (Cons u ts)
  show ?case
  proof (cases "longest ts s")
    case None
    have "\<not> prefix v s" if "v \<in> set ts" for v
      using None that
    proof (induction ts)
      case (Cons w ws)
      then show ?case by (auto split: option.splits if_splits)
    qed simp
    then show ?thesis using Cons.prems None by (auto split: if_splits)
  next
    case (Some v)
    then show ?thesis using Cons.IH [OF Some] Cons.prems by (auto split: if_splits)
  qed
qed simp

lemma longest_None: "longest ts s = None \<longleftrightarrow> (\<forall>t \<in> set ts. \<not> prefix t s)"
  by (induction ts) (auto split: option.splits if_splits)

fun eol_length :: "string \<Rightarrow> nat" where
  "eol_length (c # d # s) =
     (if c = CHR 0x0D then if d = CHR 0x0A then 2 else 1 else if c = CHR 0x0A then 1 else 0)"
| "eol_length [c] = (if c = CHR 0x0D \<or> c = CHR 0x0A then 1 else 0)"
| "eol_length [] = 0"

lemma eol_length_le: "eol_length s \<le> length s"
  by (cases s rule: eol_length.cases) auto

type_synonym numbers = "number_parser \<Rightarrow> string \<Rightarrow> nat option"

text \<open>What is used of the numeric parsers: a match is a non-empty part of the text.\<close>

definition numbers_laws :: "numbers \<Rightarrow> bool" where
  "numbers_laws lx \<longleftrightarrow> (\<forall>k s n. lx k s = Some n \<longrightarrow> 0 < n \<and> n \<le> length s)"

text \<open>A primitive at the position reached by skipping.\<close>

fun primitive :: "numbers \<Rightarrow> 'r x3 \<Rightarrow> string \<Rightarrow> 'r parse_outcome" where
  "primitive lx (Lit t) s = (if prefix t s then Match [] (drop (length t) s) else NoMatch s)"
| "primitive lx (Symbols ts) s =
     (case longest ts s of
        Some t \<Rightarrow> Match [Token t] (drop (length t) s) | None \<Rightarrow> NoMatch s)"
| "primitive lx (OneOf c) s =
     (case s of x # r \<Rightarrow> if in_class c x then Match [Token [x]] r else NoMatch s | [] \<Rightarrow> NoMatch s)"
| "primitive lx Eol s = (if eol_length s = 0 then NoMatch s else Match [] (drop (eol_length s) s))"
| "primitive lx Eoi s = (if s = [] then Match [] [] else NoMatch s)"
| "primitive lx (Num k) s =
     (case lx k s of Some n \<Rightarrow> Match [Token (take n s)] (drop n s) | None \<Rightarrow> NoMatch s)"
| "primitive lx p s = NoMatch s"

section \<open>The documented meaning of the combinators\<close>

text \<open>Continuing after an outcome: on a match, on a failure; an expectation failure is thrown.\<close>

definition after ::
  "'r parse_outcome \<Rightarrow> ('r tree list \<Rightarrow> string \<Rightarrow> 'r parse_outcome \<Rightarrow> bool) \<Rightarrow> (string \<Rightarrow> 'r parse_outcome \<Rightarrow> bool)
     \<Rightarrow> 'r parse_outcome \<Rightarrow> bool" where
  "after q onmatch onfail out \<longleftrightarrow>
     (case q of Match ts r \<Rightarrow> onmatch ts r out | NoMatch r \<Rightarrow> onfail r out
      | Expectation e \<Rightarrow> out = Expectation e)"

text \<open>The outcome of the second part of a sequence, seen from the whole sequence.\<close>

fun continued :: "'r tree list \<Rightarrow> string \<Rightarrow> 'r parse_outcome \<Rightarrow> 'r parse_outcome" where
  "continued ts s (Match us r) = Match (ts @ us) r"
| "continued ts s (NoMatch r) = NoMatch s"
| "continued ts s (Expectation e) = Expectation e"

fun expected :: "'r tree list \<Rightarrow> 'r parse_outcome \<Rightarrow> 'r parse_outcome" where
  "expected ts (Match us r) = Match (ts @ us) r"
| "expected ts (NoMatch r) = Expectation r"
| "expected ts (Expectation e) = Expectation e"

type_synonym 'r x3_relation = "bool \<Rightarrow> 'r x3 \<Rightarrow> string \<Rightarrow> 'r parse_outcome \<Rightarrow> bool"

text \<open>Before a primitive: the skipper is applied as often as it matches, if skipping is on.\<close>

definition pre_skip :: "'r x3_relation \<Rightarrow> 'r x3 \<Rightarrow> bool \<Rightarrow> string \<Rightarrow> 'r parse_outcome \<Rightarrow> bool" where
  "pre_skip px sk m s out \<longleftrightarrow> (if m then px False (Star sk) s out else out = Match [] s)"

fun x3_step ::
  "numbers \<Rightarrow> ('r \<Rightarrow> 'r x3) \<Rightarrow> 'r x3 \<Rightarrow> 'r x3_relation \<Rightarrow> bool \<Rightarrow> 'r x3 \<Rightarrow> string \<Rightarrow> 'r parse_outcome \<Rightarrow> bool"
where
  "x3_step lx rhs sk px m (Seqn a b) s out =
     (\<exists>q. px m a s q \<and> after q (\<lambda>ts r v. \<exists>u. px m b r u \<and> v = continued ts s u)
                              (\<lambda>r v. v = NoMatch s) out)"
| "x3_step lx rhs sk px m (Expect a b) s out =
     (\<exists>q. px m a s q \<and> after q (\<lambda>ts r v. \<exists>u. px m b r u \<and> v = expected ts u)
                              (\<lambda>r v. v = NoMatch s) out)"
| "x3_step lx rhs sk px m (Alt a b) s out =
     (\<exists>q. px m a s q \<and> after q (\<lambda>ts r v. v = Match ts r) (\<lambda>r v. px m b r v) out)"
| "x3_step lx rhs sk px m (Except a b) s out =
     (\<exists>q. px m b s q \<and> after q (\<lambda>ts r v. v = NoMatch s) (\<lambda>r v. px m a r v) out)"
| "x3_step lx rhs sk px m (Star a) s out =
     (\<exists>q. px m a s q \<and> after q (\<lambda>ts r v. \<exists>u. px m (Star a) r u \<and> v = continued ts s u)
                              (\<lambda>r v. v = Match [] r) out)"
| "x3_step lx rhs sk px m (Opt a) s out =
     (\<exists>q. px m a s q \<and> after q (\<lambda>ts r v. v = Match ts r) (\<lambda>r v. v = Match [] r) out)"
| "x3_step lx rhs sk px m (Unless a) s out =
     (\<exists>q. px m a s q \<and> after q (\<lambda>ts r v. v = NoMatch s) (\<lambda>r v. v = Match [] s) out)"
| "x3_step lx rhs sk px m (Lexeme a) s out =
     (\<exists>q. pre_skip px sk m s q \<and> after q (\<lambda>ts r v. px False a r v) (\<lambda>r v. v = NoMatch r) out)"
| "x3_step lx rhs sk px m (NoSkip a) s out = px False a s out"
| "x3_step lx rhs sk px m (Raw a) s out =
     (\<exists>q. pre_skip px sk m s q \<and> after q
        (\<lambda>ts r v. \<exists>u. px m a r u \<and>
           after u (\<lambda>us t w. w = Match [Token (take (length r - length t) r)] t) (\<lambda>t w. w = NoMatch r) v)
        (\<lambda>r v. v = NoMatch r) out)"
| "x3_step lx rhs sk px m (Call x) s out =
     (\<exists>q. px m (rhs x) s q \<and> after q
        (\<lambda>ts r v. \<exists>u. pre_skip px sk m s u \<and>
           after u (\<lambda>us t w. w = Match [Node x (length t) (length r) ts] r) (\<lambda>t w. w = NoMatch s) v)
        (\<lambda>r v. v = NoMatch s) out)"
| "x3_step lx rhs sk px m p s out =
     (\<exists>q. pre_skip px sk m s q \<and> after q (\<lambda>ts r v. v = primitive lx p r) (\<lambda>r v. v = NoMatch r) out)"

definition x3_laws :: "numbers \<Rightarrow> ('r \<Rightarrow> 'r x3) \<Rightarrow> 'r x3 \<Rightarrow> 'r x3_relation \<Rightarrow> bool" where
  "x3_laws lx rhs sk px \<longleftrightarrow> (\<forall>m p s out. px m p s out \<longleftrightarrow> x3_step lx rhs sk px m p s out)"

end
