(* ===== verification/Flow_Peg_Wf.thy ===== *)
theory Flow_Peg_Wf
  imports Flow_Peg
begin

text \<open>
  Well-formed grammars, in the sense of parsing expression grammars: every rule has a rank, a rule
  reaches only rules of smaller rank before it has consumed text, and no repetition has a body
  that may match nothing. On such a grammar every relation that satisfies the laws of x3 gives
  each text exactly one outcome, and a match leaves a suffix of the text.
\<close>

section \<open>The check\<close>

fun nullable :: "('r \<Rightarrow> bool) \<Rightarrow> 'r x3 \<Rightarrow> bool" where
  "nullable nul (Lit t) = (t = [])"
| "nullable nul (Symbols ts) = ([] \<in> set ts)"
| "nullable nul (OneOf c) = False"
| "nullable nul Eol = False"
| "nullable nul Eoi = True"
| "nullable nul (Num k) = False"
| "nullable nul (Seqn a b) = (nullable nul a \<and> nullable nul b)"
| "nullable nul (Expect a b) = (nullable nul a \<and> nullable nul b)"
| "nullable nul (Alt a b) = (nullable nul a \<or> nullable nul b)"
| "nullable nul (Except a b) = nullable nul a"
| "nullable nul (Star a) = True"
| "nullable nul (Opt a) = True"
| "nullable nul (Unless a) = True"
| "nullable nul (Lexeme a) = nullable nul a"
| "nullable nul (NoSkip a) = nullable nul a"
| "nullable nul (Raw a) = nullable nul a"
| "nullable nul (Call x) = nul x"

text \<open>A bound on the ranks reachable before text is consumed, and after.\<close>

fun wf_at :: "('r \<Rightarrow> bool) \<Rightarrow> ('r \<Rightarrow> nat) \<Rightarrow> nat \<Rightarrow> nat \<Rightarrow> 'r x3 \<Rightarrow> bool" where
  "wf_at nul rk hi n (Seqn a b) =
     (wf_at nul rk hi n a \<and> wf_at nul rk hi (if nullable nul a then n else hi) b)"
| "wf_at nul rk hi n (Expect a b) =
     (wf_at nul rk hi n a \<and> wf_at nul rk hi (if nullable nul a then n else hi) b)"
| "wf_at nul rk hi n (Alt a b) = (wf_at nul rk hi n a \<and> wf_at nul rk hi n b)"
| "wf_at nul rk hi n (Except a b) = (wf_at nul rk hi n a \<and> wf_at nul rk hi n b)"
| "wf_at nul rk hi n (Star a) = (\<not> nullable nul a \<and> wf_at nul rk hi n a)"
| "wf_at nul rk hi n (Opt a) = wf_at nul rk hi n a"
| "wf_at nul rk hi n (Unless a) = wf_at nul rk hi n a"
| "wf_at nul rk hi n (Lexeme a) = wf_at nul rk hi n a"
| "wf_at nul rk hi n (NoSkip a) = wf_at nul rk hi n a"
| "wf_at nul rk hi n (Raw a) = wf_at nul rk hi n a"
| "wf_at nul rk hi n (Call x) = (rk x < n)"
| "wf_at nul rk hi n p = True"

definition wf_rules :: "('r \<Rightarrow> bool) \<Rightarrow> ('r \<Rightarrow> nat) \<Rightarrow> nat \<Rightarrow> ('r \<Rightarrow> 'r x3) \<Rightarrow> 'r x3 \<Rightarrow> bool" where
  "wf_rules nul rk hi rhs sk \<longleftrightarrow>
     (\<forall>x. rk x < hi \<and> wf_at nul rk hi (rk x) (rhs x) \<and> (nullable nul (rhs x) \<longrightarrow> nul x)) \<and>
     wf_at nul rk hi hi (Star sk)"

lemma wf_at_mono: "wf_at nul rk hi n p \<Longrightarrow> n \<le> k \<Longrightarrow> wf_at nul rk hi k p"
  by (induction nul rk hi n p arbitrary: k rule: wf_at.induct) (auto split: if_splits)

section \<open>One outcome\<close>

text \<open>What a parser may leave: a suffix, shorter if it cannot match nothing.\<close>

fun leaves :: "('r \<Rightarrow> bool) \<Rightarrow> 'r x3 \<Rightarrow> string \<Rightarrow> 'r parse_outcome \<Rightarrow> bool" where
  "leaves nul p s (Match ts r) = (suffix r s \<and> (r = s \<longrightarrow> nullable nul p))"
| "leaves nul p s (NoMatch r) = suffix r s"
| "leaves nul p s (Expectation r) = suffix r s"

definition settles :: "('r \<Rightarrow> bool) \<Rightarrow> 'r x3_relation \<Rightarrow> bool \<Rightarrow> 'r x3 \<Rightarrow> string \<Rightarrow> 'r parse_outcome \<Rightarrow> bool" where
  "settles nul px m p s v \<longleftrightarrow> (\<forall>out. px m p s out \<longleftrightarrow> out = v) \<and> leaves nul p s v"

lemma after_simps [simp]:
  "after (Match ts r) f g out = f ts r out"
  "after (NoMatch r) f g out = g r out"
  "after (Expectation e) f g out = (out = Expectation e)"
  by (simp_all add: after_def)

lemma settles_px: "settles nul px m p s v \<Longrightarrow> px m p s = (\<lambda>out. out = v)"
  by (auto simp: settles_def)

lemma settles_leaves: "settles nul px m p s v \<Longrightarrow> leaves nul p s v"
  by (simp add: settles_def)

lemma settles_by_laws:
  assumes "x3_laws lx rhs sk px"
    and "\<And>out. x3_step lx rhs sk px m p s out \<longleftrightarrow> out = v" and "leaves nul p s v"
  shows "settles nul px m p s v"
  using assms by (simp add: settles_def x3_laws_def)

lemma suffix_shorter: "suffix r s \<Longrightarrow> r \<noteq> s \<Longrightarrow> length r < length s"
  by (auto simp: suffix_def)

lemma drop_neq: "0 < n \<Longrightarrow> n \<le> length s \<Longrightarrow> drop n s \<noteq> s"
  by (metis diff_less length_drop less_irrefl_nat less_le_trans)

lemma prefix_drop_neq: "prefix t s \<Longrightarrow> t \<noteq> [] \<Longrightarrow> drop (length t) s \<noteq> s"
  by (rule drop_neq) (auto simp: prefix_length_le)

lemma primitive_leaves:
  assumes "numbers_laws lx"
  shows "leaves nul p s (primitive lx p s)"
proof (cases p)
  case (Lit t)
  then show ?thesis
    using prefix_drop_neq [of t s] by (auto simp: suffix_drop)
next
  case (Symbols ts)
  show ?thesis
  proof (cases "longest ts s")
    case (Some t)
    then have "t \<in> set ts" "prefix t s" by (auto dest: longest_Some)
    with Some Symbols show ?thesis using prefix_drop_neq [of t s] by (auto simp: suffix_drop)
  qed (simp add: Symbols)
next
  case (OneOf c)
  then show ?thesis by (cases s) (auto simp: suffix_Cons)
next
  case Eol
  then show ?thesis using eol_length_le [of s] drop_neq [of "eol_length s" s] by (auto simp: suffix_drop)
next
  case (Num k)
  have "drop n s \<noteq> s" if "lx k s = Some n" for n
    using assms that drop_neq [of n s] unfolding numbers_laws_def by blast
  with Num show ?thesis by (cases "lx k s") (auto simp: suffix_drop)
qed auto


lemma suffix_trans2: "suffix t r \<Longrightarrow> suffix r s \<Longrightarrow> suffix t s"
  by (rule suffix_order.trans)

lemma leaves_continued:
  assumes "leaves nul b r v" and "suffix r s" and "r = s \<Longrightarrow> nullable nul a" and "p = Seqn a b"
  shows "leaves nul p s (continued ts s v)"
proof (cases v)
  case (Match us t)
  have "suffix t s" using assms(1,2) Match by (auto intro: suffix_trans2)
  moreover have "nullable nul a \<and> nullable nul b" if "t = s"
  proof -
    have "r = s" using assms(1,2) Match that suffix_order.antisym by auto
    with assms(1,3) Match that show ?thesis by simp
  qed
  ultimately show ?thesis using assms(4) Match by simp
next
  case (Expectation e)
  with assms(1,2) show ?thesis by (auto intro: suffix_trans2)
qed simp

lemma leaves_expected:
  assumes "leaves nul b r v" and "suffix r s" and "r = s \<Longrightarrow> nullable nul a"
  shows "leaves nul (Expect a b) s (expected ts v)"
proof (cases v)
  case (Match us t)
  then show ?thesis using leaves_continued [of nul b r v s a "Seqn a b" ts] assms by simp
qed (use assms in \<open>auto intro: suffix_trans2\<close>)

lemma leaves_weaken:
  assumes "leaves nul b r v" and "suffix r s" and "nullable nul b \<Longrightarrow> nullable nul p"
  shows "leaves nul p s v"
proof (cases v)
  case (Match us t)
  have "r = s" if "t = s" using assms(1,2) Match that suffix_order.antisym by auto
  with assms Match show ?thesis by (auto intro: suffix_trans2)
qed (use assms in \<open>auto intro: suffix_trans2\<close>)

definition settled :: "('r \<Rightarrow> bool) \<Rightarrow> 'r x3_relation \<Rightarrow> bool \<Rightarrow> 'r x3 \<Rightarrow> string \<Rightarrow> bool" where
  "settled nul px m p s \<longleftrightarrow> (\<exists>v. settles nul px m p s v)"

lemma settledE:
  assumes "settled nul px m p s"
  obtains v where "px m p s = (\<lambda>out. out = v)" and "leaves nul p s v"
  using assms settles_px settles_leaves unfolding settled_def by metis

lemma settled_by_laws:
  assumes "x3_laws lx rhs sk px"
    and "\<And>out. x3_step lx rhs sk px m p s out \<longleftrightarrow> out = v" and "leaves nul p s v"
  shows "settled nul px m p s"
  using settles_by_laws [OF assms] by (auto simp: settled_def)

text \<open>One unfolding of the laws, given the parts at this position and everything further on.\<close>

lemma settled_seqn:
  assumes laws: "x3_laws lx rhs sk px" and a: "settled nul px m a s"
    and b: "\<And>r. suffix r s \<Longrightarrow> (r = s \<Longrightarrow> nullable nul a) \<Longrightarrow> settled nul px m b r"
  shows "settled nul px m (Seqn a b) s" and "settled nul px m (Expect a b) s"
proof -
  from a obtain v where v: "px m a s = (\<lambda>out. out = v)" "leaves nul a s v" by (rule settledE)
  show "settled nul px m (Seqn a b) s"
  proof (cases v)
    case (Match ts r)
    with v b have "settled nul px m b r" by simp
    then obtain u where u: "px m b r = (\<lambda>out. out = u)" "leaves nul b r u" by (rule settledE)
    from u v Match show ?thesis
      by (intro settled_by_laws [OF laws, where v = "continued ts s u"]) (auto intro: leaves_continued)
  next
    case (NoMatch r)
    then show ?thesis by (intro settled_by_laws [OF laws, where v = "NoMatch s"]) (simp_all add: v)
  next
    case (Expectation e)
    with v show ?thesis by (intro settled_by_laws [OF laws, where v = "Expectation e"]) simp_all
  qed
  show "settled nul px m (Expect a b) s"
  proof (cases v)
    case (Match ts r)
    with v b have "settled nul px m b r" by simp
    then obtain u where u: "px m b r = (\<lambda>out. out = u)" "leaves nul b r u" by (rule settledE)
    from u v Match show ?thesis
      by (intro settled_by_laws [OF laws, where v = "expected ts u"]) (auto intro: leaves_expected)
  next
    case (NoMatch r)
    then show ?thesis by (intro settled_by_laws [OF laws, where v = "NoMatch s"]) (simp_all add: v)
  next
    case (Expectation e)
    with v show ?thesis by (intro settled_by_laws [OF laws, where v = "Expectation e"]) simp_all
  qed
qed

lemma settled_choice:
  assumes laws: "x3_laws lx rhs sk px" and a: "settled nul px m a s"
    and b: "\<And>r. suffix r s \<Longrightarrow> settled nul px m b r"
  shows "settled nul px m (Alt a b) s" and "settled nul px m (Except b a) s"
proof -
  from a obtain v where v: "px m a s = (\<lambda>out. out = v)" "leaves nul a s v" by (rule settledE)
  show "settled nul px m (Alt a b) s"
  proof (cases v)
    case (Match ts r)
    with v show ?thesis
      by (intro settled_by_laws [OF laws, where v = v]) (auto intro: leaves_weaken [of nul a s])
  next
    case (NoMatch r)
    with v b have "settled nul px m b r" by simp
    then obtain u where u: "px m b r = (\<lambda>out. out = u)" "leaves nul b r u" by (rule settledE)
    with v NoMatch show ?thesis
      by (intro settled_by_laws [OF laws, where v = u]) (auto intro: leaves_weaken [of nul b r])
  next
    case (Expectation e)
    with v show ?thesis by (intro settled_by_laws [OF laws, where v = "Expectation e"]) simp_all
  qed
  show "settled nul px m (Except b a) s"
  proof (cases v)
    case (Match ts r)
    with v show ?thesis by (intro settled_by_laws [OF laws, where v = "NoMatch s"]) auto
  next
    case (NoMatch r)
    with v b have "settled nul px m b r" by simp
    then obtain u where u: "px m b r = (\<lambda>out. out = u)" "leaves nul b r u" by (rule settledE)
    with v NoMatch show ?thesis
      by (intro settled_by_laws [OF laws, where v = u]) (auto intro: leaves_weaken [of nul b r])
  next
    case (Expectation e)
    with v show ?thesis by (intro settled_by_laws [OF laws, where v = "Expectation e"]) simp_all
  qed
qed

lemma settled_star:
  assumes laws: "x3_laws lx rhs sk px" and a: "settled nul px m a s" and "\<not> nullable nul a"
    and more: "\<And>r. suffix r s \<Longrightarrow> r \<noteq> s \<Longrightarrow> settled nul px m (Star a) r"
  shows "settled nul px m (Star a) s"
proof -
  from a obtain v where v: "px m a s = (\<lambda>out. out = v)" "leaves nul a s v" by (rule settledE)
  show ?thesis
  proof (cases v)
    case (Match ts r)
    with v assms(3) have r: "suffix r s" "r \<noteq> s" by auto
    with more have "settled nul px m (Star a) r" by simp
    then obtain u where u: "px m (Star a) r = (\<lambda>out. out = u)" "leaves nul (Star a) r u"
      by (rule settledE)
    have "leaves nul (Star a) s (continued ts s u)"
      using u(2) r by (cases u) (auto intro: suffix_trans2)
    with u v Match show ?thesis
      by (intro settled_by_laws [OF laws, where v = "continued ts s u"]) simp_all
  next
    case (NoMatch r)
    with v show ?thesis by (intro settled_by_laws [OF laws, where v = "Match [] r"]) simp_all
  next
    case (Expectation e)
    with v show ?thesis by (intro settled_by_laws [OF laws, where v = "Expectation e"]) simp_all
  qed
qed

lemma settled_option:
  assumes laws: "x3_laws lx rhs sk px" and a: "settled nul px m a s"
  shows "settled nul px m (Opt a) s" and "settled nul px m (Unless a) s"
proof -
  from a obtain v where v: "px m a s = (\<lambda>out. out = v)" "leaves nul a s v" by (rule settledE)
  show "settled nul px m (Opt a) s"
    using v by (intro settled_by_laws [OF laws, where
          v = "case v of NoMatch r \<Rightarrow> Match [] r | _ \<Rightarrow> v"]) (auto split: parse_outcome.split)
  show "settled nul px m (Unless a) s"
    using v by (intro settled_by_laws [OF laws, where
          v = "case v of Match ts r \<Rightarrow> NoMatch s | NoMatch r \<Rightarrow> Match [] s | Expectation e \<Rightarrow> v"])
      (auto split: parse_outcome.split)
qed

text \<open>The position after skipping.\<close>

definition skips_to :: "'r x3_relation \<Rightarrow> 'r x3 \<Rightarrow> bool \<Rightarrow> string \<Rightarrow> bool" where
  "skips_to px sk m s \<longleftrightarrow>
     (\<exists>v. pre_skip px sk m s = (\<lambda>out. out = v) \<and> leaves (\<lambda>_. True) Eoi s v)"

lemma skips_toE:
  assumes "skips_to px sk m s"
  obtains v where "pre_skip px sk m s = (\<lambda>out. out = v)" and "leaves (\<lambda>_. True) Eoi s v"
  using assms unfolding skips_to_def by (auto intro: that)

lemma skips_to_off: "skips_to px sk False s"
proof -
  have "pre_skip px sk False s = (\<lambda>out. out = Match [] s)" by (simp add: pre_skip_def fun_eq_iff)
  then show ?thesis unfolding skips_to_def by (intro exI [of _ "Match [] s"]) simp
qed

lemma skips_to_on:
  assumes "settled nul px False (Star sk) s"
  shows "skips_to px sk True s"
proof -
  from assms obtain v where v: "px False (Star sk) s = (\<lambda>out. out = v)" "leaves nul (Star sk) s v"
    by (rule settledE)
  have "pre_skip px sk True s = (\<lambda>out. out = v)" by (simp add: pre_skip_def fun_eq_iff v)
  moreover have "leaves (\<lambda>_. True) Eoi s v" using v(2) by (cases v) auto
  ultimately show ?thesis by (auto simp: skips_to_def)
qed

lemma settled_primitive:
  assumes laws: "x3_laws lx rhs sk px" and num: "numbers_laws lx" and skip: "skips_to px sk m s"
    and step: "\<And>out. x3_step lx rhs sk px m p s out \<longleftrightarrow> (\<exists>q. pre_skip px sk m s q \<and>
      after q (\<lambda>ts r v. v = primitive lx p r) (\<lambda>r v. v = NoMatch r) out)"
  shows "settled nul px m p s"
proof -
  from skip obtain v where v: "pre_skip px sk m s = (\<lambda>out. out = v)" "leaves (\<lambda>_. True) Eoi s v"
    by (rule skips_toE)
  have "leaves nul p s (primitive lx p r)" if "suffix r s" for r
    using primitive_leaves [OF num, of nul p r] that by (rule leaves_weaken)
  with v show ?thesis
    by (intro settled_by_laws [OF laws, where
          v = "case v of Match ts r \<Rightarrow> primitive lx p r | _ \<Rightarrow> v"]) (auto simp: step split: parse_outcome.split)
qed

lemma settled_lexeme:
  assumes laws: "x3_laws lx rhs sk px" and skip: "skips_to px sk m s"
    and a: "\<And>r. suffix r s \<Longrightarrow> settled nul px False a r"
  shows "settled nul px m (Lexeme a) s" and "settled nul px m (NoSkip a) s"
proof -
  from skip obtain v where v: "pre_skip px sk m s = (\<lambda>out. out = v)" "leaves (\<lambda>_. True) Eoi s v"
    by (rule skips_toE)
  show "settled nul px m (Lexeme a) s"
  proof (cases v)
    case (Match ts r)
    with v a have "settled nul px False a r" by simp
    then obtain u where u: "px False a r = (\<lambda>out. out = u)" "leaves nul a r u" by (rule settledE)
    with v Match show ?thesis
      by (intro settled_by_laws [OF laws, where v = u]) (auto intro: leaves_weaken [of nul a r])
  qed (use v in \<open>auto intro: settled_by_laws [OF laws, where v = v]\<close>)
  from a [of s] obtain u where "px False a s = (\<lambda>out. out = u)" "leaves nul a s u"
    using settledE [of nul px False a s] by auto
  then show "settled nul px m (NoSkip a) s"
    by (intro settled_by_laws [OF laws, where v = u]) (auto intro: leaves_weaken [of nul a s])
qed

lemma settled_raw:
  assumes laws: "x3_laws lx rhs sk px" and skip: "skips_to px sk m s"
    and a: "\<And>r. suffix r s \<Longrightarrow> settled nul px m a r"
  shows "settled nul px m (Raw a) s"
proof -
  from skip obtain v where v: "pre_skip px sk m s = (\<lambda>out. out = v)" "leaves (\<lambda>_. True) Eoi s v"
    by (rule skips_toE)
  show ?thesis
  proof (cases v)
    case (Match ts r)
    with v a have "settled nul px m a r" and r: "suffix r s" by simp_all
    then obtain u where u: "px m a r = (\<lambda>out. out = u)" "leaves nul a r u" using settledE by blast
    let ?w = "case u of Match us t \<Rightarrow> Match [Token (take (length r - length t) r)] t
      | NoMatch t \<Rightarrow> NoMatch r | Expectation e \<Rightarrow> u"
    have "leaves nul (Raw a) s ?w"
    proof (rule leaves_weaken [OF _ r])
      show "leaves nul a r ?w" using u(2) by (auto split: parse_outcome.split)
    qed simp
    with u v Match show ?thesis
      by (intro settled_by_laws [OF laws, where v = ?w]) (auto split: parse_outcome.split)
  qed (use v in \<open>auto intro: settled_by_laws [OF laws, where v = v]\<close>)
qed

lemma settled_call:
  assumes laws: "x3_laws lx rhs sk px" and skip: "skips_to px sk m s" and a: "settled nul px m (rhs x) s"
    and "nullable nul (rhs x) \<Longrightarrow> nul x"
  shows "settled nul px m (Call x) s"
proof -
  from a obtain v where v: "px m (rhs x) s = (\<lambda>out. out = v)" "leaves nul (rhs x) s v"
    by (rule settledE)
  from skip obtain u where u: "pre_skip px sk m s = (\<lambda>out. out = u)" "leaves (\<lambda>_. True) Eoi s u"
    by (rule skips_toE)
  show ?thesis
    using u v assms(4) by (intro settled_by_laws [OF laws, where
          v = "case v of
              Match ts r \<Rightarrow> (case u of Match us t \<Rightarrow> Match [Node x (length t) (length r) ts] r | NoMatch t \<Rightarrow> NoMatch s | Expectation e \<Rightarrow> u)
            | NoMatch r \<Rightarrow> NoMatch s | Expectation e \<Rightarrow> v"])
      (auto split: parse_outcome.split)
qed

section \<open>Well-formed grammars\<close>

lemma settled_mode:
  assumes laws: "x3_laws lx rhs sk px" and num: "numbers_laws lx"
    and rules: "wf_rules nul rk hi rhs sk"
    and skip: "\<And>s. skips_to px sk m s"
    and off: "\<And>p s. m \<Longrightarrow> wf_at nul rk hi hi p \<Longrightarrow> settled nul px False p s"
  shows "n \<le> hi \<Longrightarrow> wf_at nul rk hi n p \<Longrightarrow> settled nul px m p s"
proof (induction s arbitrary: n p rule: measure_induct_rule [of length])
  case (less s)
  have shorter: "settled nul px m p r"
    if "suffix r s" "r \<noteq> s" "k \<le> hi" "wf_at nul rk hi k p" for r k p
    using less.IH [OF suffix_shorter [OF that(1,2)] that(3,4)] .
  from less.prems show ?case
  proof (induction n arbitrary: p rule: less_induct)
    case (less n)
    note lower = less.IH
    from less.prems show ?case
    proof (induction p)
      case (Seqn a b)
      have "settled nul px m b r" if "suffix r s" "r = s \<Longrightarrow> nullable nul a" for r
        using Seqn that shorter [of r hi b] wf_at_mono [of nul rk hi n b hi]
        by (cases "r = s") (auto split: if_splits)
      with Seqn show ?case by (intro settled_seqn(1) [OF laws]) auto
    next
      case (Expect a b)
      have "settled nul px m b r" if "suffix r s" "r = s \<Longrightarrow> nullable nul a" for r
        using Expect that shorter [of r hi b] wf_at_mono [of nul rk hi n b hi]
        by (cases "r = s") (auto split: if_splits)
      with Expect show ?case by (intro settled_seqn(2) [OF laws]) auto
    next
      case (Alt a b)
      have "settled nul px m b r" if "suffix r s" for r
        using Alt that shorter [of r n b] by (cases "r = s") auto
      with Alt show ?case by (intro settled_choice(1) [OF laws]) auto
    next
      case (Except a b)
      have "settled nul px m a r" if "suffix r s" for r
        using Except that shorter [of r n a] by (cases "r = s") auto
      with Except show ?case by (intro settled_choice(2) [OF laws]) auto
    next
      case (Star a)
      have "settled nul px m (Star a) r" if "suffix r s" "r \<noteq> s" for r
        using shorter [OF that Star.prems] .
      moreover from Star have "settled nul px m a s" "\<not> nullable nul a" by simp_all
      ultimately show ?case using settled_star [OF laws] by blast
    next
      case (Opt a)
      then show ?case by (intro settled_option(1) [OF laws]) auto
    next
      case (Unless a)
      then show ?case by (intro settled_option(2) [OF laws]) auto
    next
      case (Lexeme a)
      have "settled nul px False a r" if r: "suffix r s" for r
      proof (cases m)
        case True
        from Lexeme.prems have "wf_at nul rk hi hi a" using wf_at_mono [of nul rk hi n a hi] by simp
        with off True show ?thesis by simp
      next
        case False
        with Lexeme r shorter [of r n a] show ?thesis by (cases "r = s") auto
      qed
      then show ?case by (intro settled_lexeme(1) [OF laws skip])
    next
      case (NoSkip a)
      have "settled nul px False a r" if r: "suffix r s" for r
      proof (cases m)
        case True
        from NoSkip.prems have "wf_at nul rk hi hi a" using wf_at_mono [of nul rk hi n a hi] by simp
        with off True show ?thesis by simp
      next
        case False
        with NoSkip r shorter [of r n a] show ?thesis by (cases "r = s") auto
      qed
      then show ?case by (intro settled_lexeme(2) [OF laws skip])
    next
      case (Raw a)
      have "settled nul px m a r" if "suffix r s" for r
        using Raw that shorter [of r n a] by (cases "r = s") auto
      then show ?case by (intro settled_raw [OF laws skip])
    next
      case (Call x)
      then have "rk x < n" by simp
      moreover have x: "wf_at nul rk hi (rk x) (rhs x)" "nullable nul (rhs x) \<Longrightarrow> nul x"
        using rules unfolding wf_rules_def by blast+
      ultimately have "settled nul px m (rhs x) s"
        using lower [of "rk x" "rhs x"] Call.prems by simp
      then show ?case by (rule settled_call [OF laws skip]) (rule x(2))
    qed (rule settled_primitive [OF laws num skip], simp)+
  qed
qed

theorem well_formed_grammar_settles:
  assumes "x3_laws lx rhs sk px" and "numbers_laws lx" and "wf_rules nul rk hi rhs sk"
    and "wf_at nul rk hi hi p"
  shows "settled nul px m p s"
proof -
  have off: "settled nul px False q s" if "wf_at nul rk hi hi q" for q s
    by (rule settled_mode [OF assms(1-3) skips_to_off _ order.refl that]) simp
  have "skips_to px sk True s" for s
    using off assms(3) unfolding wf_rules_def by (blast intro: skips_to_on)
  then have on: "settled nul px True p s"
    using off by (intro settled_mode [OF assms(1-3) _ _ order.refl assms(4)])
  show ?thesis
  proof (cases m)
    case True
    with on show ?thesis by simp
  next
    case False
    with off [OF assms(4)] show ?thesis by simp
  qed
qed

lemma settled_unique:
  assumes "settled nul px m p s"
  shows "\<exists>!out. px m p s out"
proof -
  from assms obtain v where "px m p s = (\<lambda>out. out = v)" by (rule settledE)
  then show ?thesis by simp
qed

end
