(* ===== verification/Flow_Peg_Run.thy ===== *)
theory Flow_Peg_Run
  imports Flow_Peg_Wf
begin

text \<open>
  A reference interpreter for the grammar expressions, with fuel for the nesting of calls. It
  satisfies the laws of x3 when "some fuel gives the outcome" is read as the parser's relation,
  so the laws are not contradictory; on a well-formed grammar every parser that satisfies the
  laws agrees with it, and some fuel is always enough.
\<close>

fun on_outcome ::
  "('r tree list \<Rightarrow> string \<Rightarrow> 'r parse_outcome option) \<Rightarrow> (string \<Rightarrow> 'r parse_outcome option) \<Rightarrow> 'r parse_outcome
     \<Rightarrow> 'r parse_outcome option" where
  "on_outcome f g (Match ts r) = f ts r"
| "on_outcome f g (NoMatch r) = g r"
| "on_outcome f g (Expectation e) = Some (Expectation e)"

type_synonym 'r x3_function = "bool \<Rightarrow> 'r x3 \<Rightarrow> string \<Rightarrow> 'r parse_outcome option"

definition run_skip :: "'r x3_function \<Rightarrow> 'r x3 \<Rightarrow> bool \<Rightarrow> string \<Rightarrow> 'r parse_outcome option" where
  "run_skip f sk m s = (if m then f False (Star sk) s else Some (Match [] s))"

fun run_step ::
  "numbers \<Rightarrow> ('r \<Rightarrow> 'r x3) \<Rightarrow> 'r x3 \<Rightarrow> 'r x3_function \<Rightarrow> bool \<Rightarrow> 'r x3 \<Rightarrow> string \<Rightarrow> 'r parse_outcome option"
where
  "run_step lx rhs sk f m (Seqn a b) s =
     Option.bind (f m a s)
       (on_outcome (\<lambda>ts r. map_option (continued ts s) (f m b r)) (\<lambda>r. Some (NoMatch s)))"
| "run_step lx rhs sk f m (Expect a b) s =
     Option.bind (f m a s)
       (on_outcome (\<lambda>ts r. map_option (expected ts) (f m b r)) (\<lambda>r. Some (NoMatch s)))"
| "run_step lx rhs sk f m (Alt a b) s =
     Option.bind (f m a s) (on_outcome (\<lambda>ts r. Some (Match ts r)) (\<lambda>r. f m b r))"
| "run_step lx rhs sk f m (Except a b) s =
     Option.bind (f m b s) (on_outcome (\<lambda>ts r. Some (NoMatch s)) (\<lambda>r. f m a r))"
| "run_step lx rhs sk f m (Star a) s =
     Option.bind (f m a s)
       (on_outcome (\<lambda>ts r. map_option (continued ts s) (f m (Star a) r)) (\<lambda>r. Some (Match [] r)))"
| "run_step lx rhs sk f m (Opt a) s =
     Option.bind (f m a s) (on_outcome (\<lambda>ts r. Some (Match ts r)) (\<lambda>r. Some (Match [] r)))"
| "run_step lx rhs sk f m (Unless a) s =
     Option.bind (f m a s) (on_outcome (\<lambda>ts r. Some (NoMatch s)) (\<lambda>r. Some (Match [] s)))"
| "run_step lx rhs sk f m (Lexeme a) s =
     Option.bind (run_skip f sk m s) (on_outcome (\<lambda>ts r. f False a r) (\<lambda>r. Some (NoMatch r)))"
| "run_step lx rhs sk f m (NoSkip a) s = f False a s"
| "run_step lx rhs sk f m (Raw a) s =
     Option.bind (run_skip f sk m s) (on_outcome
       (\<lambda>ts r. Option.bind (f m a r) (on_outcome
          (\<lambda>us t. Some (Match [Token (take (length r - length t) r)] t)) (\<lambda>t. Some (NoMatch r))))
       (\<lambda>r. Some (NoMatch r)))"
| "run_step lx rhs sk f m (Call x) s =
     Option.bind (f m (rhs x) s) (on_outcome
       (\<lambda>ts r. Option.bind (run_skip f sk m s) (on_outcome
          (\<lambda>us t. Some (Match [Node x (length t) (length r) ts] r)) (\<lambda>t. Some (NoMatch s))))
       (\<lambda>r. Some (NoMatch s)))"
| "run_step lx rhs sk f m p s =
     Option.bind (run_skip f sk m s)
       (on_outcome (\<lambda>ts r. Some (primitive lx p r)) (\<lambda>r. Some (NoMatch r)))"

primrec x3_run ::
  "numbers \<Rightarrow> ('r \<Rightarrow> 'r x3) \<Rightarrow> 'r x3 \<Rightarrow> nat \<Rightarrow> bool \<Rightarrow> 'r x3 \<Rightarrow> string \<Rightarrow> 'r parse_outcome option" where
  "x3_run lx rhs sk 0 m p s = None"
| "x3_run lx rhs sk (Suc n) m p s = run_step lx rhs sk (x3_run lx rhs sk n) m p s"

text \<open>The interpreter's relation.\<close>

definition x3_reference :: "numbers \<Rightarrow> ('r \<Rightarrow> 'r x3) \<Rightarrow> 'r x3 \<Rightarrow> 'r x3_relation" where
  "x3_reference lx rhs sk m p s out \<longleftrightarrow> (\<exists>n. x3_run lx rhs sk n m p s = Some out)"

section \<open>Any parser with the laws does what the interpreter does\<close>

lemma bind_on_outcome:
  "Option.bind q (on_outcome f g) = Some v \<longleftrightarrow>
     (\<exists>w. q = Some w \<and> after w (\<lambda>ts r u. f ts r = Some u) (\<lambda>r u. g r = Some u) v)"
  by (cases q) (auto simp: after_def split: parse_outcome.split)

lemma after_mono:
  assumes "after w f g v" and "\<And>ts r u. f ts r u \<Longrightarrow> f' ts r u" and "\<And>r u. g r u \<Longrightarrow> g' r u"
  shows "after w f' g' v"
  using assms by (cases w) auto

lemma map_option_Some: "map_option h q = Some v \<longleftrightarrow> (\<exists>u. q = Some u \<and> v = h u)"
  by auto

lemma Some_rev: "Some x = Some v \<longleftrightarrow> v = x"
  by auto

lemma run_skip_iff: "run_skip f sk m s = Some v \<longleftrightarrow> pre_skip (\<lambda>m p s v. f m p s = Some v) sk m s v"
  by (auto simp: run_skip_def pre_skip_def)

lemma run_step_iff:
  "run_step lx rhs sk f m p s = Some v \<longleftrightarrow> x3_step lx rhs sk (\<lambda>m p s v. f m p s = Some v) m p s v"
  by (cases p) (simp_all add: bind_on_outcome run_skip_iff map_option_Some Some_rev
      del: option.inject map_option_eq_Some primitive.simps)

lemma pre_skip_mono:
  "pre_skip px sk m s v \<Longrightarrow> (\<And>m p s v. px m p s v \<Longrightarrow> py m p s v) \<Longrightarrow> pre_skip py sk m s v"
  by (auto simp: pre_skip_def split: if_splits)

lemma x3_step_mono:
  assumes px: "\<And>m p s v. px m p s v \<Longrightarrow> py m p s v" and "x3_step lx rhs sk px m p s v"
  shows "x3_step lx rhs sk py m p s v"
proof -
  have skip: "pre_skip px sk m s q \<Longrightarrow> pre_skip py sk m s q" for m s q
    by (erule pre_skip_mono) (rule px)
  show ?thesis
    using assms(2) by (cases p) (auto 0 3 simp del: primitive.simps elim!: after_mono intro: px skip)
qed

lemma x3_run_sound:
  assumes "x3_laws lx rhs sk px"
  shows "x3_run lx rhs sk n m p s = Some v \<Longrightarrow> px m p s v"
proof (induction n arbitrary: m p s v)
  case (Suc n)
  from Suc.prems have "x3_step lx rhs sk (\<lambda>m p s v. x3_run lx rhs sk n m p s = Some v) m p s v"
    by (simp add: run_step_iff)
  then have "x3_step lx rhs sk px m p s v" by (rule x3_step_mono [rotated]) (rule Suc.IH)
  with assms show ?case by (simp add: x3_laws_def)
qed simp

section \<open>The interpreter satisfies the laws\<close>

text \<open>More fuel keeps an outcome.\<close>

definition lasting :: "(nat \<Rightarrow> 'a option) \<Rightarrow> bool" where
  "lasting F \<longleftrightarrow> (\<forall>n k v. F n = Some v \<longrightarrow> n \<le> k \<longrightarrow> F k = Some v)"

lemma lastingD: "lasting F \<Longrightarrow> F n = Some v \<Longrightarrow> n \<le> k \<Longrightarrow> F k = Some v"
  unfolding lasting_def by blast

lemma run_step_mono:
  assumes f: "\<And>m p s v. f m p s = Some v \<Longrightarrow> g m p s = Some v"
    and "run_step lx rhs sk f m p s = Some v"
  shows "run_step lx rhs sk g m p s = Some v"
  using assms unfolding run_step_iff by (rule x3_step_mono)

lemma lasting_run: "lasting (\<lambda>n. x3_run lx rhs sk n m p s)"
proof -
  have suc: "x3_run lx rhs sk n m p s = Some v \<Longrightarrow> x3_run lx rhs sk (Suc n) m p s = Some v" for n m p s v
  proof (induction n arbitrary: m p s v)
    case (Suc n)
    from Suc.prems have "run_step lx rhs sk (x3_run lx rhs sk n) m p s = Some v" by simp
    then have "run_step lx rhs sk (x3_run lx rhs sk (Suc n)) m p s = Some v"
      by (rule run_step_mono [rotated]) (rule Suc.IH)
    then show ?case by simp
  qed simp
  have "x3_run lx rhs sk k m p s = Some v" if "x3_run lx rhs sk n m p s = Some v" "n \<le> k" for n k v
    using that(2)
  proof (induction k rule: dec_induct)
    case (step j)
    then show ?case by (intro suc)
  qed (rule that(1))
  then show ?thesis unfolding lasting_def by blast
qed

lemma lasting_const: "lasting (\<lambda>n. c)"
  by (simp add: lasting_def)

lemma lasting_skip: "lasting (\<lambda>n. run_skip (x3_run lx rhs sk n) sk m s)"
  by (cases m) (simp_all add: run_skip_def lasting_run lasting_const)

lemma lasting_map: "lasting F \<Longrightarrow> lasting (\<lambda>n. map_option h (F n))"
  unfolding lasting_def map_option_Some by blast

lemma lasting_bind:
  assumes "lasting F" and "\<And>ts r. lasting (\<lambda>n. f n ts r)" and "\<And>r. lasting (\<lambda>n. g n r)"
  shows "lasting (\<lambda>n. Option.bind (F n) (on_outcome (f n) (g n)))"
  unfolding lasting_def
proof (intro allI impI)
  fix n k v
  assume "Option.bind (F n) (on_outcome (f n) (g n)) = Some v" and k: "n \<le> k"
  then obtain w where w: "F n = Some w" "after w (\<lambda>ts r u. f n ts r = Some u) (\<lambda>r u. g n r = Some u) v"
    unfolding bind_on_outcome by blast
  have "F k = Some w" using lastingD [OF assms(1) w(1) k] .
  moreover have "after w (\<lambda>ts r u. f k ts r = Some u) (\<lambda>r u. g k r = Some u) v"
    using w(2) by (rule after_mono) (auto intro: lastingD [OF assms(2) _ k] lastingD [OF assms(3) _ k])
  ultimately show "Option.bind (F k) (on_outcome (f k) (g k)) = Some v"
    unfolding bind_on_outcome by blast
qed

lemmas lasting_intros = lasting_run lasting_skip lasting_const lasting_map lasting_bind

lemma reach_bind:
  assumes "\<exists>q. P q \<and> after q A B v" and "\<And>q. P q \<Longrightarrow> \<exists>n. F n = Some q" and "lasting F"
    and "\<And>ts r u. A ts r u \<Longrightarrow> \<exists>n. f n ts r = Some u" and "\<And>r u. B r u \<Longrightarrow> \<exists>n. g n r = Some u"
    and "\<And>ts r. lasting (\<lambda>n. f n ts r)" and "\<And>r. lasting (\<lambda>n. g n r)"
  shows "\<exists>n. Option.bind (F n) (on_outcome (f n) (g n)) = Some v"
proof -
  from assms(1,2) obtain q i where q: "after q A B v" and i: "F i = Some q" by blast
  have "\<exists>j. after q (\<lambda>ts r u. f j ts r = Some u) (\<lambda>r u. g j r = Some u) v"
    using q by (cases q) (auto dest: assms(4,5))
  then obtain j where j: "after q (\<lambda>ts r u. f j ts r = Some u) (\<lambda>r u. g j r = Some u) v" by blast
  have le: "j \<le> max i j" by simp
  have "F (max i j) = Some q" using i lastingD [OF assms(3) i] by simp
  moreover have "after q (\<lambda>ts r u. f (max i j) ts r = Some u) (\<lambda>r u. g (max i j) r = Some u) v"
    using j by (rule after_mono) (auto intro: lastingD [OF assms(6) _ le] lastingD [OF assms(7) _ le])
  ultimately show ?thesis unfolding bind_on_outcome by blast
qed

lemma x3_reference_laws: "x3_laws lx rhs sk (x3_reference lx rhs sk)"
  unfolding x3_laws_def
proof (intro allI iffI)
  fix m p s v
  assume "x3_reference lx rhs sk m p s v"
  then obtain n where n: "x3_run lx rhs sk n m p s = Some v" by (auto simp: x3_reference_def)
  then obtain k where "n = Suc k" by (cases n) auto
  with n have "x3_step lx rhs sk (\<lambda>m p s v. x3_run lx rhs sk k m p s = Some v) m p s v"
    by (simp add: run_step_iff)
  then show "x3_step lx rhs sk (x3_reference lx rhs sk) m p s v"
    by (rule x3_step_mono [rotated]) (auto simp: x3_reference_def)
next
  fix m p s v
  let ?R = "x3_reference lx rhs sk" and ?f = "\<lambda>n. x3_run lx rhs sk n"
  assume step: "x3_step lx rhs sk ?R m p s v"
  have skip: "\<exists>n. run_skip (?f n) sk m s = Some q" if "pre_skip ?R sk m s q" for q
    using that by (cases m) (auto simp: pre_skip_def run_skip_def x3_reference_def)
  have "\<exists>n. run_step lx rhs sk (?f n) m p s = Some v"
  proof (cases p)
    case (NoSkip a)
    with step show ?thesis by (simp add: x3_reference_def)
  next
    case (Raw a)
    have inner: "\<exists>n. Option.bind (?f n m a r) (on_outcome
          (\<lambda>us t. Some (Match [Token (take (length r - length t) r)] t)) (\<lambda>t. Some (NoMatch r))) = Some u"
      if "\<exists>w. ?R m a r w \<and> after w (\<lambda>us t v. v = Match [Token (take (length r - length t) r)] t)
        (\<lambda>t v. v = NoMatch r) u" for r u
      by (rule reach_bind [OF that]) (auto simp: x3_reference_def intro: lasting_intros)
    from step show ?thesis unfolding Raw x3_step.simps run_step.simps
      by (rule reach_bind) (auto intro: skip inner lasting_intros)
  next
    case (Call x)
    have inner: "\<exists>n. Option.bind (run_skip (?f n) sk m s) (on_outcome
          (\<lambda>us t. Some (Match [Node x (length t) (length r) ts] r)) (\<lambda>t. Some (NoMatch s))) = Some u"
      if "\<exists>w. pre_skip ?R sk m s w \<and> after w (\<lambda>us t v. v = Match [Node x (length t) (length r) ts] r)
        (\<lambda>t v. v = NoMatch s) u" for ts r u
      by (rule reach_bind [OF that]) (auto intro: skip lasting_intros)
    from step show ?thesis unfolding Call x3_step.simps run_step.simps
      by (rule reach_bind) (auto simp: x3_reference_def intro: inner lasting_intros)
  qed (insert step, simp only: x3_step.simps run_step.simps, erule reach_bind,
      (auto simp: x3_reference_def map_option_Some simp del: primitive.simps
         intro: skip lasting_intros)[6])+
  then obtain n where "?f (Suc n) m p s = Some v" by auto
  then show "?R m p s v" unfolding x3_reference_def by blast
qed

section \<open>Agreement and enough fuel\<close>

theorem parser_agrees_with_reference:
  assumes "x3_laws lx rhs sk px" and "numbers_laws lx" and "wf_rules nul rk hi rhs sk"
    and "wf_at nul rk hi hi p"
  shows "px m p s v \<longleftrightarrow> x3_reference lx rhs sk m p s v"
proof -
  have "settled nul (x3_reference lx rhs sk) m p s"
    using well_formed_grammar_settles [OF x3_reference_laws assms(2-4)] .
  then obtain w where w: "x3_reference lx rhs sk m p s = (\<lambda>out. out = w)" by (rule settledE)
  then obtain n where "x3_run lx rhs sk n m p s = Some w" by (auto simp: x3_reference_def fun_eq_iff)
  then have "px m p s w" by (rule x3_run_sound [OF assms(1)])
  moreover have "\<exists>!out. px m p s out"
    by (rule settled_unique [OF well_formed_grammar_settles [OF assms]])
  ultimately show ?thesis by (auto simp: w)
qed

theorem enough_fuel:
  assumes "numbers_laws lx" and "wf_rules nul rk hi rhs sk" and "wf_at nul rk hi hi p"
  shows "\<exists>n v. x3_run lx rhs sk n m p s = Some v"
proof -
  have "\<exists>!v. x3_reference lx rhs sk m p s v"
    by (rule settled_unique [OF well_formed_grammar_settles [OF x3_reference_laws assms]])
  then show ?thesis unfolding x3_reference_def by blast
qed

end
