(* ===== verification/Flow_Grammar.thy ===== *)
theory Flow_Grammar
  imports Flow_Peg_Run
begin

text \<open>
  libs/flow/src/parser/grammar: the flow grammar, rule by rule, in the order of the files
  (common.hpp, symbols.hpp, literals.hpp, expression.hpp, workflow.hpp, grammar.hpp). Every
  EZ_FLOW_RULE is a constructor of \<open>rule\<close>; its EZ_FLOW_DEF is the definition of the same name ending
  in \<open>_rhs\<close>.
\<close>

datatype rule =
    R_block_comment
  | R_identifier | R_identifier_path
  | R_string | R_integer | R_real | R_duration | R_literal
  | R_declaration | R_declaration_list | R_signature | R_assignment | R_dictionary | R_array
  | R_function_argument | R_function_call | R_primary_expr
  | R_multiplicative_expr | R_additive_expr | R_relational_expr | R_equality_expr
  | R_unary_expr | R_logical_expr | R_expression | R_await_expression | R_try_expression
  | R_import_statement | R_variable_declaration | R_assignment_statement | R_workflow_definition
  | R_workflow_statement | R_if_block | R_repeat_block | R_condition_block
  | R_delay_statement | R_return_statement | R_raise_statement | R_break_statement
  | R_program

type_synonym parser = "rule x3"

section \<open>common.hpp\<close>

definition single_line_comment :: parser where
  "single_line_comment =
     Seqn (Seqn (Lit ''//'') (Star (Except (OneOf AnyChar) Eol))) (Alt Eol Eoi)"

definition block_comment_rhs :: parser where
  "block_comment_rhs =
     Seqn (Seqn (Lit ''/*'')
       (Star (Alt (Call R_block_comment) (Except (OneOf AnyChar) (Lit ''*/'')))))
       (Lit ''*/'')"

definition comment :: parser where
  "comment = Alt single_line_comment (Call R_block_comment)"

definition skipper :: parser where
  "skipper = Alt (OneOf Space) comment"

section \<open>symbols.hpp\<close>

definition semicolon :: parser where
  "semicolon = Lexeme (Lit '';'')"

definition semicolons :: parser where
  "semicolons = some_of semicolon"

definition optional_semicolons :: parser where
  "optional_semicolons = Star semicolon"

definition boolean :: parser where
  "boolean = Symbols [''true'', ''false'']"

definition duration_unit_symbols :: parser where
  "duration_unit_symbols = Symbols [''ms'', ''sec'', ''mn'', ''day'', ''week'']"

definition logical_op :: parser where
  "logical_op = Symbols [''and'', ''or'']"

definition equality_op :: parser where
  "equality_op = Symbols [''=='', ''!='', ''in'', ''is'']"

definition relational_op :: parser where
  "relational_op = Symbols [''<'', ''<='', ''>'', ''>='']"

definition additive_op :: parser where
  "additive_op = Symbols [''+'', ''-'']"

definition multiplicative_op :: parser where
  "multiplicative_op = Symbols [''*'', ''/'']"

definition unary_op :: parser where
  "unary_op = Symbols [''+'', ''-'', ''not'']"

definition keyword_list :: "string list" where
  "keyword_list = [''import'', ''module'', ''delay'', ''return'', ''raise'', ''break'', ''try'', ''repeat'',
     ''if'', ''await'', ''try'', ''elif'', ''else'', ''in'', ''is'', ''for'', ''and'', ''or'', ''not'']"

definition keyword :: parser where
  "keyword = Symbols keyword_list"

definition builtin_types :: parser where
  "builtin_types = Symbols [''workflow'', ''workflow_reply'', ''campaign'', ''campaign_reply'', ''action'',
     ''action_reply'', ''http_request'', ''http_reply'', ''device_info_request'', ''device_info_reply'']"

definition identifier_base :: parser where
  "identifier_base =
     Raw (Lexeme (Seqn (Alt (OneOf Alpha) (Lit ''_'')) (Star (Alt (OneOf Alnum) (Lit ''_'')))))"

definition reserved :: parser where
  "reserved = Lexeme (Seqn keyword (Unless identifier_base))"

definition identifier_rhs :: parser where
  "identifier_rhs = Except (Lexeme identifier_base) reserved"

definition identifier_path_rhs :: parser where
  "identifier_path_rhs =
     Seqn (Call R_identifier) (Star (Seqn (Lit ''.'') (Call R_identifier)))"

section \<open>literals.hpp\<close>

definition single_quote_string :: parser where
  "single_quote_string =
     Lexeme (Seqn (Seqn (Lit [CHR 0x27]) (Star (Except (OneOf AnyChar) (Lit [CHR 0x27])))) (Lit [CHR 0x27]))"

definition double_quote_string :: parser where
  "double_quote_string =
     Lexeme (Seqn (Seqn (Lit [CHR 0x22]) (Star (Except (OneOf AnyChar) (Lit [CHR 0x22])))) (Lit [CHR 0x22]))"

definition string_rhs :: parser where
  "string_rhs = Alt single_quote_string double_quote_string"

definition integer_rhs :: parser where
  "integer_rhs = Num IntNumber"

definition real_rhs :: parser where
  "real_rhs = Num StrictReal"

definition duration_rhs :: parser where
  "duration_rhs = NoSkip (Seqn (Num UintNumber) duration_unit_symbols)"

definition literal_rhs :: parser where
  "literal_rhs =
     Alt (Alt (Alt (Alt (Call R_string) boolean) (Call R_duration)) (Call R_real)) (Call R_integer)"

section \<open>expression.hpp\<close>

definition declaration_rhs :: parser where
  "declaration_rhs = Seqn (Seqn (Call R_identifier) (Lit '':'')) (Call R_identifier)"

definition declaration_list_rhs :: parser where
  "declaration_list_rhs = sep_by (Call R_declaration) (Lit '','')"

definition signature_rhs :: parser where
  "signature_rhs =
     Seqn (Seqn (Seqn (Lit ''('') (Opt (Call R_declaration_list))) (Lit '')''))
       (Opt (Expect (Lit ''->'') (Call R_identifier)))"

definition assignment_rhs :: parser where
  "assignment_rhs = Seqn (Seqn (Call R_identifier) (Lit ''='')) (Call R_expression)"

definition dictionary_rhs :: parser where
  "dictionary_rhs =
     Seqn (Seqn (Lit ''('') (Opt (sep_by (Call R_assignment) (Lit '','')))) (Lit '')'')"

definition array_rhs :: parser where
  "array_rhs =
     Seqn (Seqn (Lit ''['') (Opt (sep_by (Call R_expression) (Lit '','')))) (Lit '']'')"

definition function_argument_rhs :: parser where
  "function_argument_rhs =
     Seqn (Opt (Seqn (Call R_identifier) (Lit ''=''))) (Call R_expression)"

definition function_call_rhs :: parser where
  "function_call_rhs =
     Seqn (Seqn (Seqn (Call R_identifier_path) (Lit ''(''))
       (Opt (sep_by (Call R_function_argument) (Lit '','')))) (Lit '')'')"

definition primary_expr_rhs :: parser where
  "primary_expr_rhs =
     Alt (Alt (Alt (Alt (Alt (Alt (Alt
       (Call R_await_expression)
       (Call R_try_expression))
       (Call R_literal))
       (Call R_function_call))
       (Call R_identifier_path))
       (Call R_array))
       (Call R_dictionary))
       (Expect (Expect (Lit ''('') (Call R_expression)) (Lit '')''))"

definition await_expression_rhs :: parser where
  "await_expression_rhs =
     Seqn (Seqn (Seqn (Lit ''await'') (Call R_expression)) (Lit ''for'')) (Call R_expression)"

definition try_expression_rhs :: parser where
  "try_expression_rhs = Seqn (Lit ''try'') (Call R_expression)"

definition unary_expr_rhs :: parser where
  "unary_expr_rhs = Seqn (Opt unary_op) (Call R_primary_expr)"

definition multiplicative_expr_rhs :: parser where
  "multiplicative_expr_rhs =
     Seqn (Call R_unary_expr) (Star (Expect multiplicative_op (Call R_unary_expr)))"

definition additive_expr_rhs :: parser where
  "additive_expr_rhs =
     Seqn (Call R_multiplicative_expr) (Star (Expect additive_op (Call R_multiplicative_expr)))"

definition relational_expr_rhs :: parser where
  "relational_expr_rhs =
     Seqn (Call R_additive_expr) (Star (Expect relational_op (Call R_additive_expr)))"

definition equality_expr_rhs :: parser where
  "equality_expr_rhs =
     Seqn (Call R_relational_expr) (Star (Expect equality_op (Call R_relational_expr)))"

definition logical_expr_rhs :: parser where
  "logical_expr_rhs =
     Seqn (Call R_equality_expr) (Star (Expect logical_op (Call R_equality_expr)))"

definition expression_rhs :: parser where
  "expression_rhs = Call R_logical_expr"

section \<open>workflow.hpp\<close>

definition break_keyword :: parser where
  "break_keyword = Symbols [''break'']"

definition workflow_statements :: parser where
  "workflow_statements = Star (Call R_workflow_statement)"

definition import_statement_rhs :: parser where
  "import_statement_rhs = Seqn (Lit ''import'') (Call R_identifier_path)"

definition delay_statement_rhs :: parser where
  "delay_statement_rhs = Seqn (Lit ''delay'') (Call R_expression)"

definition return_statement_rhs :: parser where
  "return_statement_rhs = Seqn (Lit ''return'') (Call R_expression)"

definition raise_statement_rhs :: parser where
  "raise_statement_rhs = Seqn (Lit ''raise'') (Call R_expression)"

definition break_statement_rhs :: parser where
  "break_statement_rhs = break_keyword"

definition variable_declaration_rhs :: parser where
  "variable_declaration_rhs =
     Seqn (Seqn (Seqn (Call R_identifier) (Lit '':'')) (Call R_identifier))
       (Opt (Seqn (Lit ''='') (Call R_expression)))"

definition assignment_statement_rhs :: parser where
  "assignment_statement_rhs = Seqn (Seqn (Call R_identifier_path) (Lit ''='')) (Call R_expression)"

definition scope_block :: parser where
  "scope_block = Seqn (Seqn (Lit ''{'') workflow_statements) (Lit ''}'')"

definition repeat_block_rhs :: parser where
  "repeat_block_rhs = Seqn (Lit ''repeat'') scope_block"

definition condition_block_rhs :: parser where
  "condition_block_rhs = Seqn (Call R_expression) scope_block"

definition if_block_rhs :: parser where
  "if_block_rhs =
     Seqn (Seqn (Seqn (Lit ''if'') (Call R_condition_block))
       (Star (Seqn (Lit ''elif'') (Call R_condition_block))))
       (Opt (Seqn (Lit ''else'') scope_block))"

definition workflow_statement_rhs :: parser where
  "workflow_statement_rhs =
     Alt (Alt (Alt (Alt (Alt (Alt (Alt (Alt (Alt (Alt
       (Seqn (Call R_import_statement) semicolons)
       (Seqn (Call R_workflow_definition) optional_semicolons))
       (Seqn (Call R_return_statement) semicolons))
       (Seqn (Call R_raise_statement) semicolons))
       (Seqn (Call R_delay_statement) semicolons))
       (Seqn (Call R_break_statement) semicolons))
       (Seqn (Call R_if_block) optional_semicolons))
       (Seqn (Call R_repeat_block) optional_semicolons))
       (Seqn (Call R_variable_declaration) semicolons))
       (Seqn (Call R_assignment_statement) semicolons))
       (Seqn (Call R_expression) semicolons)"

definition workflow_definition_rhs :: parser where
  "workflow_definition_rhs =
     Seqn (Seqn (Seqn (Seqn (Seqn (Call R_identifier) (Lit '':'')) (Lit ''workflow'')) (Lit ''=''))
       (Opt (Call R_signature))) scope_block"

section \<open>grammar.hpp\<close>

definition program_rhs :: parser where
  "program_rhs = Star (Call R_workflow_statement)"

text \<open>The definitions the rules are bound to (BOOST_SPIRIT_DEFINE).\<close>

fun rule_def :: "rule \<Rightarrow> parser" where
  "rule_def R_block_comment = block_comment_rhs"
| "rule_def R_identifier = identifier_rhs"
| "rule_def R_identifier_path = identifier_path_rhs"
| "rule_def R_string = string_rhs"
| "rule_def R_integer = integer_rhs"
| "rule_def R_real = real_rhs"
| "rule_def R_duration = duration_rhs"
| "rule_def R_literal = literal_rhs"
| "rule_def R_declaration = declaration_rhs"
| "rule_def R_declaration_list = declaration_list_rhs"
| "rule_def R_signature = signature_rhs"
| "rule_def R_assignment = assignment_rhs"
| "rule_def R_dictionary = dictionary_rhs"
| "rule_def R_array = array_rhs"
| "rule_def R_function_argument = function_argument_rhs"
| "rule_def R_function_call = function_call_rhs"
| "rule_def R_primary_expr = primary_expr_rhs"
| "rule_def R_multiplicative_expr = multiplicative_expr_rhs"
| "rule_def R_additive_expr = additive_expr_rhs"
| "rule_def R_relational_expr = relational_expr_rhs"
| "rule_def R_equality_expr = equality_expr_rhs"
| "rule_def R_unary_expr = unary_expr_rhs"
| "rule_def R_logical_expr = logical_expr_rhs"
| "rule_def R_expression = expression_rhs"
| "rule_def R_await_expression = await_expression_rhs"
| "rule_def R_try_expression = try_expression_rhs"
| "rule_def R_import_statement = import_statement_rhs"
| "rule_def R_variable_declaration = variable_declaration_rhs"
| "rule_def R_assignment_statement = assignment_statement_rhs"
| "rule_def R_workflow_definition = workflow_definition_rhs"
| "rule_def R_workflow_statement = workflow_statement_rhs"
| "rule_def R_if_block = if_block_rhs"
| "rule_def R_repeat_block = repeat_block_rhs"
| "rule_def R_condition_block = condition_block_rhs"
| "rule_def R_delay_statement = delay_statement_rhs"
| "rule_def R_return_statement = return_statement_rhs"
| "rule_def R_raise_statement = raise_statement_rhs"
| "rule_def R_break_statement = break_statement_rhs"
| "rule_def R_program = program_rhs"

section \<open>The grammar is well-formed\<close>

text \<open>
  The rank of a rule: a rule comes after those it may call before any text is consumed. Only the
  repetition of statements, and what is built from it alone, may match nothing.
\<close>

fun rule_rank :: "rule \<Rightarrow> nat" where
  "rule_rank R_identifier_path = 1"
| "rule_rank R_literal = 1"
| "rule_rank R_declaration = 1"
| "rule_rank R_declaration_list = 2"
| "rule_rank R_assignment = 1"
| "rule_rank R_function_call = 2"
| "rule_rank R_primary_expr = 3"
| "rule_rank R_unary_expr = 4"
| "rule_rank R_multiplicative_expr = 5"
| "rule_rank R_additive_expr = 6"
| "rule_rank R_relational_expr = 7"
| "rule_rank R_equality_expr = 8"
| "rule_rank R_logical_expr = 9"
| "rule_rank R_expression = 10"
| "rule_rank R_function_argument = 11"
| "rule_rank R_condition_block = 11"
| "rule_rank R_variable_declaration = 1"
| "rule_rank R_assignment_statement = 2"
| "rule_rank R_workflow_definition = 1"
| "rule_rank R_workflow_statement = 12"
| "rule_rank R_program = 13"
| "rule_rank _ = 0"

definition may_be_empty :: "rule \<Rightarrow> bool" where
  "may_be_empty x \<longleftrightarrow> x = R_program"

lemmas grammar_defs =
  single_line_comment_def block_comment_rhs_def comment_def skipper_def semicolon_def semicolons_def
  optional_semicolons_def boolean_def duration_unit_symbols_def logical_op_def equality_op_def
  relational_op_def additive_op_def multiplicative_op_def unary_op_def keyword_def
  identifier_base_def reserved_def identifier_rhs_def identifier_path_rhs_def
  single_quote_string_def double_quote_string_def string_rhs_def integer_rhs_def real_rhs_def
  duration_rhs_def literal_rhs_def declaration_rhs_def declaration_list_rhs_def signature_rhs_def
  assignment_rhs_def dictionary_rhs_def array_rhs_def function_argument_rhs_def
  function_call_rhs_def primary_expr_rhs_def await_expression_rhs_def try_expression_rhs_def
  unary_expr_rhs_def multiplicative_expr_rhs_def additive_expr_rhs_def relational_expr_rhs_def
  equality_expr_rhs_def logical_expr_rhs_def expression_rhs_def break_keyword_def
  workflow_statements_def import_statement_rhs_def delay_statement_rhs_def
  return_statement_rhs_def raise_statement_rhs_def break_statement_rhs_def
  variable_declaration_rhs_def assignment_statement_rhs_def scope_block_def repeat_block_rhs_def
  condition_block_rhs_def if_block_rhs_def workflow_statement_rhs_def
  workflow_definition_rhs_def program_rhs_def some_of_def sep_by_def

lemma flow_grammar_well_formed: "wf_rules may_be_empty rule_rank 14 rule_def skipper"
proof -
  have "rule_rank x < 14 \<and> wf_at may_be_empty rule_rank 14 (rule_rank x) (rule_def x) \<and>
      (nullable may_be_empty (rule_def x) \<longrightarrow> may_be_empty x)" for x
    by (cases x) (simp_all add: grammar_defs may_be_empty_def keyword_list_def)
  then show ?thesis
    by (simp add: wf_rules_def skipper_def comment_def single_line_comment_def may_be_empty_def)
qed

end
