(* ===== verification/Flow_Parser.thy ===== *)
theory Flow_Parser
  imports Flow_Grammar
begin

text \<open>
  libs/flow/src/parser/generic_parser.hpp: parse_using, with the parser library as a parameter,
  and how the tokens of the language are read, derived rule by rule from the laws of x3:
  identifiers and reserved words, string literals. The offset at which an error is reported
  (HandlerData::end_position) is left out.
\<close>

section \<open>parse_using\<close>

datatype parse_message = ExpectingStatement | ExpectingToken

record parse_result =
  pr_valid :: bool
  pr_trees :: "rule tree list"
  pr_message :: "parse_message option"

definition text_end :: "bool \<Rightarrow> rule tree list \<Rightarrow> string \<Rightarrow> parse_result" where
  "text_end r ts rest =
     (if rest \<noteq> [] then \<lparr>pr_valid = False, pr_trees = ts, pr_message = Some ExpectingStatement\<rparr>
      else \<lparr>pr_valid = r, pr_trees = ts, pr_message = None\<rparr>)"

text \<open>x3::phrase_parse: the rule, then, if it matched, the skipper.\<close>

definition phrase_parse ::
  "rule x3_relation \<Rightarrow> rule \<Rightarrow> string \<Rightarrow> bool \<times> rule parse_outcome \<Rightarrow> bool" where
  "phrase_parse px x text res \<longleftrightarrow>
     (\<exists>q. px True (Call x) text q \<and>
        after q (\<lambda>ts r v. \<exists>u. px False (Star skipper) r u \<and>
                   after u (\<lambda>_ r' w. w = Match ts r') (\<lambda>r' w. w = Match ts r') v)
                (\<lambda>r v. v = NoMatch r) (snd res) \<and>
        fst res = (case snd res of Match ts r \<Rightarrow> True | _ \<Rightarrow> False))"

definition parse_using :: "rule x3_relation \<Rightarrow> rule \<Rightarrow> string \<Rightarrow> parse_result \<Rightarrow> bool" where
  "parse_using px x text res \<longleftrightarrow>
     (\<exists>b q. phrase_parse px x text (b, q) \<and>
        res = (case q of
                 Match ts r \<Rightarrow> text_end b ts r
               | NoMatch r \<Rightarrow> text_end b [] r
               | Expectation e \<Rightarrow> \<lparr>pr_valid = False, pr_trees = [], pr_message = Some ExpectingToken\<rparr>))"

section \<open>Evaluation rules of any parser with the laws\<close>

definition evaluates :: "'r x3_relation \<Rightarrow> bool \<Rightarrow> 'r x3 \<Rightarrow> string \<Rightarrow> 'r parse_outcome \<Rightarrow> bool" where
  "evaluates px m p s v \<longleftrightarrow> (\<forall>out. px m p s out \<longleftrightarrow> out = v)"

lemma evaluates_px: "evaluates px m p s v \<Longrightarrow> px m p s = (\<lambda>out. out = v)"
  by (auto simp: evaluates_def)

lemma evaluates_step:
  assumes "x3_laws lx rhs sk px" and "\<And>out. x3_step lx rhs sk px m p s out \<longleftrightarrow> out = v"
  shows "evaluates px m p s v"
  using assms by (simp add: evaluates_def x3_laws_def)

lemma evaluates_unique: "evaluates px m p s v \<Longrightarrow> px m p s out \<longleftrightarrow> out = v"
  by (simp add: evaluates_def)

lemma pre_skip_off: "pre_skip px sk False s = (\<lambda>out. out = Match [] s)"
  by (auto simp: pre_skip_def)

lemma pre_skip_on: "evaluates px False (Star sk) s v \<Longrightarrow> pre_skip px sk True s = (\<lambda>out. out = v)"
  by (auto simp: pre_skip_def evaluates_def)

lemma evaluates_primitive:
  assumes "x3_laws lx rhs sk px"
  shows "evaluates px False (Lit t) s (primitive lx (Lit t) s)"
    and "evaluates px False (OneOf c) s (primitive lx (OneOf c) s)"
    and "evaluates px False (Symbols ts) s (primitive lx (Symbols ts) s)"
    and "evaluates px False (Num k) s (primitive lx (Num k) s)"
  by (rule evaluates_step [OF assms], simp add: pre_skip_off)+

lemma evaluates_seqn:
  assumes "x3_laws lx rhs sk px" and "evaluates px m a s (Match ts r)" and "evaluates px m b r u"
  shows "evaluates px m (Seqn a b) s (continued ts s u)"
  by (rule evaluates_step [OF assms(1)])
    (simp add: evaluates_px [OF assms(2)] evaluates_px [OF assms(3)])

lemma evaluates_seqn_fail:
  assumes "x3_laws lx rhs sk px" and "evaluates px m a s (NoMatch r)"
  shows "evaluates px m (Seqn a b) s (NoMatch s)"
  by (rule evaluates_step [OF assms(1)]) (simp add: evaluates_px [OF assms(2)])

lemma evaluates_alt_left:
  assumes "x3_laws lx rhs sk px" and "evaluates px m a s (Match ts r)"
  shows "evaluates px m (Alt a b) s (Match ts r)"
  by (rule evaluates_step [OF assms(1)]) (simp add: evaluates_px [OF assms(2)])

lemma evaluates_alt_right:
  assumes "x3_laws lx rhs sk px" and "evaluates px m a s (NoMatch r)" and "evaluates px m b r u"
  shows "evaluates px m (Alt a b) s u"
  by (rule evaluates_step [OF assms(1)])
    (simp add: evaluates_px [OF assms(2)] evaluates_px [OF assms(3)])

lemma evaluates_except_fail:
  assumes "x3_laws lx rhs sk px" and "evaluates px m b s (Match ts r)"
  shows "evaluates px m (Except a b) s (NoMatch s)"
  by (rule evaluates_step [OF assms(1)]) (simp add: evaluates_px [OF assms(2)])

lemma evaluates_except:
  assumes "x3_laws lx rhs sk px" and "evaluates px m b s (NoMatch r)" and "evaluates px m a r u"
  shows "evaluates px m (Except a b) s u"
  by (rule evaluates_step [OF assms(1)])
    (simp add: evaluates_px [OF assms(2)] evaluates_px [OF assms(3)])

lemma evaluates_star_stop:
  assumes "x3_laws lx rhs sk px" and "evaluates px m a s (NoMatch r)"
  shows "evaluates px m (Star a) s (Match [] r)"
  by (rule evaluates_step [OF assms(1)]) (simp add: evaluates_px [OF assms(2)])

lemma evaluates_star_more:
  assumes "x3_laws lx rhs sk px" and "evaluates px m a s (Match ts r)" and "evaluates px m (Star a) r u"
  shows "evaluates px m (Star a) s (continued ts s u)"
  by (rule evaluates_step [OF assms(1)])
    (simp add: evaluates_px [OF assms(2)] evaluates_px [OF assms(3)])

lemma evaluates_unless:
  assumes "x3_laws lx rhs sk px"
  shows "evaluates px m a s (Match ts r) \<Longrightarrow> evaluates px m (Unless a) s (NoMatch s)"
    and "evaluates px m a s (NoMatch r) \<Longrightarrow> evaluates px m (Unless a) s (Match [] s)"
  by (rule evaluates_step [OF assms], simp add: evaluates_px)+

lemma evaluates_lexeme:
  assumes "x3_laws lx rhs sk px" and "evaluates px False a r u"
    and "pre_skip px sk m s = (\<lambda>out. out = Match ts r)"
  shows "evaluates px m (Lexeme a) s u"
  by (rule evaluates_step [OF assms(1)]) (simp add: evaluates_px [OF assms(2)] assms(3))

lemma evaluates_raw:
  assumes "x3_laws lx rhs sk px" and "evaluates px m a r u"
    and "pre_skip px sk m s = (\<lambda>out. out = Match ts r)"
  shows "u = Match us t \<Longrightarrow>
      evaluates px m (Raw a) s (Match [Token (take (length r - length t) r)] t)"
    and "u = NoMatch t \<Longrightarrow> evaluates px m (Raw a) s (NoMatch r)"
  by (rule evaluates_step [OF assms(1)], simp add: evaluates_px [OF assms(2)] assms(3))+

lemma evaluates_call:
  assumes "x3_laws lx rhs sk px" and "evaluates px m (rhs x) s u"
  shows "u = Match ts r \<Longrightarrow> pre_skip px sk m s = (\<lambda>out. out = Match us t) \<Longrightarrow>
      evaluates px m (Call x) s (Match [Node x (length t) (length r) ts] r)"
    and "u = NoMatch r \<Longrightarrow> evaluates px m (Call x) s (NoMatch s)"
  by (rule evaluates_step [OF assms(1)], simp add: evaluates_px [OF assms(2)])+

section \<open>Skipping\<close>

lemma flow_settled:
  assumes "x3_laws lx rule_def skipper px" and "numbers_laws lx"
    and "wf_at may_be_empty rule_rank 14 14 p"
  obtains v where "evaluates px m p s v" and "leaves may_be_empty p s v"
proof -
  have "settled may_be_empty px m p s"
    by (rule well_formed_grammar_settles [OF assms(1,2) flow_grammar_well_formed assms(3)])
  then obtain v where "px m p s = (\<lambda>out. out = v)" and "leaves may_be_empty p s v" by (rule settledE)
  with that show thesis by (auto simp: evaluates_def)
qed

lemma wf_skipper:
  "wf_at may_be_empty rule_rank 14 14 skipper" "wf_at may_be_empty rule_rank 14 14 (Star skipper)"
  "\<not> nullable may_be_empty skipper"
  by (simp_all add: grammar_defs may_be_empty_def)

lemma after_Fail_cases:
  assumes "after q f g (NoMatch r)"
  obtains ts t where "q = Match ts t" "f ts t (NoMatch r)" | t where "q = NoMatch t" "g t (NoMatch r)"
  using assms by (cases q) auto

text \<open>Without skipping, a failing skipper leaves the position as it was.\<close>

lemma skipper_Fail_position:
  assumes laws: "x3_laws lx rule_def skipper px" and "px False skipper s (NoMatch r)"
  shows "r = s"
proof -
  have step: "x3_step lx rule_def skipper px m p s out" if "px m p s out" for m p s out
    using laws that unfolding x3_laws_def by blast
  from step [OF assms(2)] obtain t where "px False (OneOf Space) s (NoMatch t)" "px False comment t (NoMatch r)"
    unfolding skipper_def by (auto elim: after_Fail_cases)
  moreover from step [OF this(1)] have "t = s"
    by (auto simp: pre_skip_def split: list.splits if_splits)
  ultimately obtain u where u: "px False single_line_comment s (NoMatch u)"
      "px False (Call R_block_comment) u (NoMatch r)"
    using step [of False comment s "NoMatch r"] unfolding comment_def by (auto elim: after_Fail_cases)
  have cont: "continued ts x w = NoMatch y \<Longrightarrow> y = x" for ts x and w :: "rule parse_outcome" and y
    by (cases w) auto
  from step [OF u(1)] have "u = s"
    unfolding single_line_comment_def by (auto elim!: after_Fail_cases dest: cont [OF sym])
  moreover from step [OF u(2)] have "r = u" by (auto elim!: after_Fail_cases)
  ultimately show ?thesis by simp
qed

text \<open>Where skipping stops, nothing more is skipped.\<close>

lemma skip_again:
  assumes laws: "x3_laws lx rule_def skipper px" and num: "numbers_laws lx"
  shows "px False (Star skipper) s (Match us t) \<Longrightarrow> evaluates px False (Star skipper) t (Match [] t)"
proof (induction s arbitrary: us rule: measure_induct_rule [of length])
  case (less s)
  obtain v where v: "evaluates px False skipper s v" "leaves may_be_empty skipper s v"
    using flow_settled [OF laws num wf_skipper(1)] .
  show ?case
  proof (cases v)
    case (Match ts r)
    obtain u where u: "evaluates px False (Star skipper) r u"
      using flow_settled [OF laws num wf_skipper(2)] .
    have "evaluates px False (Star skipper) s (continued ts s u)"
      by (rule evaluates_star_more [OF laws v(1) [unfolded Match] u])
    then have "Match us t = continued ts s u" using less.prems by (simp add: evaluates_def)
    then obtain us' where "u = Match us' t" by (cases u) auto
    with u have "px False (Star skipper) r (Match us' t)" by (simp add: evaluates_def)
    moreover have "length r < length s"
      using v(2) Match wf_skipper(3) suffix_shorter by auto
    ultimately show ?thesis using less.IH by blast
  next
    case (NoMatch r)
    with v have "r = s" using skipper_Fail_position [OF laws] by (simp add: evaluates_def)
    with v NoMatch have stop: "evaluates px False (Star skipper) s (Match [] s)"
      using evaluates_star_stop [OF laws] by simp
    with less.prems have "t = s" by (simp add: evaluates_def)
    with stop show ?thesis by simp
  next
    case (Expectation e)
    have "x3_step lx rule_def skipper px False (Star skipper) s (Match us t)"
      using laws less.prems unfolding x3_laws_def by blast
    with v Expectation show ?thesis by (auto simp: evaluates_def)
  qed
qed

lemma skip_unique:
  assumes "x3_laws lx rule_def skipper px" and "numbers_laws lx"
    and "px False (Star skipper) s (Match us t)"
  shows "evaluates px False (Star skipper) s (Match us t)"
proof -
  obtain v where "evaluates px False (Star skipper) s v"
    using flow_settled [OF assms(1,2) wf_skipper(2)] .
  with assms(3) show ?thesis by (simp add: evaluates_def)
qed

section \<open>Identifiers and reserved words\<close>

definition word_start :: "char \<Rightarrow> bool" where
  "word_start c \<longleftrightarrow> is_alpha c \<or> c = CHR ''_''"

definition word_char :: "char \<Rightarrow> bool" where
  "word_char c \<longleftrightarrow> is_alpha c \<or> is_digit c \<or> c = CHR ''_''"

definition starts :: "(char \<Rightarrow> bool) \<Rightarrow> string \<Rightarrow> bool" where
  "starts P s \<longleftrightarrow> (case s of c # _ \<Rightarrow> P c | [] \<Rightarrow> False)"

lemma starts_simps [simp]: "starts P [] = False" "starts P (c # s) = P c"
  by (simp_all add: starts_def)

lemma take_dropWhile: "take (length s - length (dropWhile P s)) s = takeWhile P s"
  by (metis add_diff_cancel_right' append_eq_conv_conj length_append takeWhile_dropWhile_id)

lemma word_tail:
  assumes laws: "x3_laws lx rhs sk px"
  shows "\<exists>ts. evaluates px False (Star (Alt (OneOf Alnum) (Lit ''_''))) s (Match ts (dropWhile word_char s))"
proof (induction s)
  case Nil
  have "evaluates px False (Alt (OneOf Alnum) (Lit ''_'')) [] (NoMatch [])"
    using evaluates_alt_right [OF laws, of False "OneOf Alnum" "[]" "[]" "Lit ''_''" "NoMatch []"]
      evaluates_primitive(2) [OF laws, of Alnum "[]"] evaluates_primitive(1) [OF laws, of "''_''" "[]"]
    by simp
  from evaluates_star_stop [OF laws this] show ?case by auto
next
  case (Cons c s)
  have alnum: "evaluates px False (OneOf Alnum) (c # s)
      (if is_alpha c \<or> is_digit c then Match [Token [c]] s else NoMatch (c # s))"
    using evaluates_primitive(2) [OF laws, of Alnum "c # s"] by simp
  have underscore: "evaluates px False (Lit ''_'') (c # s)
      (if c = CHR ''_'' then Match [] s else NoMatch (c # s))"
    using evaluates_primitive(1) [OF laws, of "''_''" "c # s"] by (simp split: if_splits)
  have "\<exists>ts. evaluates px False (Alt (OneOf Alnum) (Lit ''_'')) (c # s)
      (if word_char c then Match ts s else NoMatch (c # s))"
  proof (cases "is_alpha c \<or> is_digit c")
    case True
    with alnum have "evaluates px False (OneOf Alnum) (c # s) (Match [Token [c]] s)" by simp
    from evaluates_alt_left [OF laws this] True show ?thesis by (auto simp: word_char_def)
  next
    case False
    with alnum have "evaluates px False (OneOf Alnum) (c # s) (NoMatch (c # s))" by simp
    from evaluates_alt_right [OF laws this underscore] False show ?thesis
      by (auto simp: word_char_def)
  qed
  then obtain ts where one: "evaluates px False (Alt (OneOf Alnum) (Lit ''_'')) (c # s)
      (if word_char c then Match ts s else NoMatch (c # s))" by blast
  from Cons.IH obtain us where
    "evaluates px False (Star (Alt (OneOf Alnum) (Lit ''_''))) s (Match us (dropWhile word_char s))" by blast
  with one show ?case
    using evaluates_star_more [OF laws, of False _ "c # s" ts s "Match us (dropWhile word_char s)"]
      evaluates_star_stop [OF laws, of False _ "c # s" "c # s"]
    by (cases "word_char c") auto
qed

lemma word_start_char: "word_start c \<Longrightarrow> word_char c"
  by (auto simp: word_start_def word_char_def)

lemma identifier_base_off:
  assumes laws: "x3_laws lx rhs sk px"
  shows "evaluates px False identifier_base t
    (if starts word_start t then Match [Token (takeWhile word_char t)] (dropWhile word_char t)
     else NoMatch t)"
proof -
  let ?head = "Alt (OneOf Alpha) (Lit ''_'')" and ?tail = "Star (Alt (OneOf Alnum) (Lit ''_''))"
  have alpha: "evaluates px False (OneOf Alpha) t (primitive lx (OneOf Alpha) t)"
    and underscore: "evaluates px False (Lit ''_'') t (primitive lx (Lit ''_'') t)"
    by (rule evaluates_primitive [OF laws])+
  have "\<exists>ts. evaluates px False (Seqn ?head ?tail) t
      (if starts word_start t then Match ts (dropWhile word_char t) else NoMatch t)"
  proof (cases "starts word_start t")
    case True
    then obtain c r where t: "t = c # r" and c: "word_start c" by (cases t) auto
    have "\<exists>ts. evaluates px False ?head t (Match ts r)"
    proof (cases "is_alpha c")
      case True
      with alpha t evaluates_alt_left [OF laws, of False "OneOf Alpha" t "[Token [c]]" r] show ?thesis by auto
    next
      case False
      with c have "c = CHR ''_''" by (simp add: word_start_def)
      with False alpha underscore t
        evaluates_alt_right [OF laws, of False "OneOf Alpha" t t "Lit ''_''" "Match [] r"] show ?thesis by auto
    qed
    then obtain ts where ts: "evaluates px False ?head t (Match ts r)" by blast
    obtain us where "evaluates px False ?tail r (Match us (dropWhile word_char r))"
      using word_tail [OF laws] by blast
    from evaluates_seqn [OF laws ts this] True t c word_start_char show ?thesis by auto
  next
    case False
    then have "primitive lx (OneOf Alpha) t = (NoMatch t :: rule parse_outcome)" "primitive lx (Lit ''_'') t = (NoMatch t :: rule parse_outcome)"
      by (cases t; auto simp: word_start_def)+
    then have "evaluates px False ?head t (NoMatch t)"
      using alpha underscore evaluates_alt_right [OF laws, of False "OneOf Alpha" t t "Lit ''_''" "NoMatch t"]
      by (cases t) (auto simp: word_start_def False)
    from evaluates_seqn_fail [OF laws this] False show ?thesis by auto
  qed
  then obtain ts where "evaluates px False (Seqn ?head ?tail) t
      (if starts word_start t then Match ts (dropWhile word_char t) else NoMatch t)" by blast
  from evaluates_lexeme [OF laws this pre_skip_off]
  have "evaluates px False (Lexeme (Seqn ?head ?tail)) t
      (if starts word_start t then Match ts (dropWhile word_char t) else NoMatch t)" .
  from evaluates_raw(1) [OF laws this pre_skip_off] evaluates_raw(2) [OF laws this pre_skip_off]
  show ?thesis unfolding identifier_base_def by (auto simp: take_dropWhile)
qed

text \<open>
  What the rule rejects: a word that is a reserved word, possibly followed by a digit (the
  look-ahead \<open>!identifier_base\<close> only sees letters and underscores).
\<close>

definition rejected_word :: "string \<Rightarrow> bool" where
  "rejected_word t \<longleftrightarrow>
     (case longest keyword_list t of
        None \<Rightarrow> False | Some k \<Rightarrow> \<not> starts word_start (drop (length k) t))"

lemma reserved_at:
  assumes laws: "x3_laws lx rhs sk px" and skip: "pre_skip px sk m s = (\<lambda>out. out = Match us t)"
  shows "\<exists>v. evaluates px m reserved s v \<and> (if rejected_word t then \<exists>ts r. v = Match ts r else v = NoMatch t)"
proof -
  let ?kw = "Symbols keyword_list"
  have kw: "evaluates px False ?kw t (primitive lx ?kw t)" by (rule evaluates_primitive [OF laws])
  have "\<exists>v. evaluates px False (Seqn ?kw (Unless identifier_base)) t v \<and>
      (if rejected_word t then \<exists>ts r. v = Match ts r else v = NoMatch t)"
  proof (cases "longest keyword_list t")
    case None
    with kw have "evaluates px False ?kw t (NoMatch t)" by simp
    from evaluates_seqn_fail [OF laws this] None show ?thesis by (auto simp: rejected_word_def)
  next
    case (Some k)
    let ?r = "drop (length k) t"
    from kw Some have k: "evaluates px False ?kw t (Match [Token k] ?r)" by simp
    have "evaluates px False (Unless identifier_base) ?r
        (if starts word_start ?r then NoMatch ?r else Match [] ?r)"
      using evaluates_unless [OF laws] identifier_base_off [OF laws, of ?r] by auto
    from evaluates_seqn [OF laws k this] Some show ?thesis by (auto simp: rejected_word_def)
  qed
  then show ?thesis
    unfolding reserved_def keyword_def using evaluates_lexeme [OF laws _ skip] by blast
qed

lemma identifier_after_skip:
  assumes laws: "x3_laws lx rule_def skipper px" and on: "pre_skip px skipper m s = (\<lambda>out. out = Match us t)"
    and again: "pre_skip px skipper m t = (\<lambda>out. out = Match [] t)"
  shows "evaluates px m (Call R_identifier) s
    (if starts word_start t \<and> \<not> rejected_word t
     then Match [Node R_identifier (length t) (length (dropWhile word_char t)) [Token (takeWhile word_char t)]]
            (dropWhile word_char t)
     else NoMatch s)"
proof -
  obtain v where v: "evaluates px m reserved s v"
      "if rejected_word t then \<exists>ts r. v = Match ts r else v = NoMatch t"
    using reserved_at [OF laws on] by blast
  have base: "evaluates px m (Lexeme identifier_base) t
      (if starts word_start t then Match [Token (takeWhile word_char t)] (dropWhile word_char t) else NoMatch t)"
    by (rule evaluates_lexeme [OF laws identifier_base_off [OF laws] again])
  have "evaluates px m identifier_rhs s
      (if rejected_word t then NoMatch s
       else if starts word_start t then Match [Token (takeWhile word_char t)] (dropWhile word_char t)
       else NoMatch t)"
  proof (cases "rejected_word t")
    case True
    with v obtain ts r where "evaluates px m reserved s (Match ts r)" by auto
    from evaluates_except_fail [OF laws this] True show ?thesis unfolding identifier_rhs_def by simp
  next
    case False
    with v have "evaluates px m reserved s (NoMatch t)" by simp
    from evaluates_except [OF laws this base] False show ?thesis unfolding identifier_rhs_def by simp
  qed
  then have "evaluates px m (rule_def R_identifier) s
      (if rejected_word t then NoMatch s
       else if starts word_start t then Match [Token (takeWhile word_char t)] (dropWhile word_char t)
       else NoMatch t)" by simp
  from evaluates_call(1) [OF laws this _ on] evaluates_call(2) [OF laws this] show ?thesis
    by (cases "rejected_word t"; cases "starts word_start t") auto
qed

lemma identifier_at:
  assumes laws: "x3_laws lx rule_def skipper px" and num: "numbers_laws lx"
    and skip: "px False (Star skipper) s (Match us t)"
  shows "evaluates px True (Call R_identifier) s
    (if starts word_start t \<and> \<not> rejected_word t
     then Match [Node R_identifier (length t) (length (dropWhile word_char t)) [Token (takeWhile word_char t)]]
            (dropWhile word_char t)
     else NoMatch s)"
  by (rule identifier_after_skip [OF laws pre_skip_on [OF skip_unique [OF laws num skip]] pre_skip_on [OF skip_again [OF laws num skip]]])

lemma keyword_chars:
  assumes "k \<in> set keyword_list"
  shows "list_all is_alpha k"
proof -
  have "list_all (list_all is_alpha) keyword_list" by code_simp
  with assms show ?thesis by (simp add: list_all_iff)
qed

lemma alpha_word_char: "is_alpha c \<Longrightarrow> word_char c \<and> word_start c"
  by (simp add: word_char_def word_start_def)

lemma takeWhile_prefix_all:
  "list_all P k \<Longrightarrow> takeWhile P (k @ r) = k @ takeWhile P r"
  by (induction k) auto

lemma keyword_word_chars: "k \<in> set keyword_list \<Longrightarrow> list_all word_char k"
  using keyword_chars alpha_word_char by (fastforce simp: list_all_iff)

lemma word_char_digit: "word_char c \<Longrightarrow> \<not> word_start c \<Longrightarrow> is_digit c"
  by (auto simp: word_char_def word_start_def)

lemma digit_not_alpha: "is_digit c \<Longrightarrow> \<not> word_start c"
  by (auto simp: is_digit_def word_start_def is_alpha_def less_eq_char_def)

lemma starts_takeWhile: "starts P (takeWhile Q s) \<longleftrightarrow> starts (\<lambda>c. P c \<and> Q c) s"
  by (cases s) auto

lemma dropWhile_not_starts: "(\<And>c. Q c \<Longrightarrow> P c) \<Longrightarrow> \<not> starts Q (dropWhile P s)"
  by (induction s) auto

text \<open>The words the rule rejects: a reserved word, or one followed by a digit.\<close>

lemma rejected_word_iff:
  "rejected_word t \<longleftrightarrow>
     (\<exists>k \<in> set keyword_list. \<exists>d. takeWhile word_char t = k @ d \<and> (d = [] \<or> starts is_digit d))"
proof
  assume "rejected_word t"
  then obtain k where k: "longest keyword_list t = Some k" "\<not> starts word_start (drop (length k) t)"
    by (auto simp: rejected_word_def split: option.splits)
  then have kw: "k \<in> set keyword_list" and "prefix k t" by (auto dest: longest_Some)
  then obtain r where t: "t = k @ r" by (auto simp: prefix_def)
  let ?d = "takeWhile word_char r"
  have "?d = [] \<or> starts is_digit ?d"
    using k(2) t by (cases r) (auto dest: word_char_digit)
  moreover have "takeWhile word_char t = k @ ?d"
    using t keyword_word_chars [OF kw] by (simp add: takeWhile_prefix_all)
  ultimately show "\<exists>k \<in> set keyword_list. \<exists>d. takeWhile word_char t = k @ d \<and> (d = [] \<or> starts is_digit d)"
    using kw by blast
next
  assume "\<exists>k \<in> set keyword_list. \<exists>d. takeWhile word_char t = k @ d \<and> (d = [] \<or> starts is_digit d)"
  then obtain k d where k: "k \<in> set keyword_list" "takeWhile word_char t = k @ d"
      "d = [] \<or> starts is_digit d" by blast
  let ?e = "dropWhile word_char t"
  have t: "t = k @ d @ ?e" using k(2) takeWhile_dropWhile_id [of word_char t] by simp
  then have "prefix k t" by (metis prefixI)
  then obtain k' where k': "longest keyword_list t = Some k'"
    using k(1) longest_None [of keyword_list t] by (cases "longest keyword_list t") auto
  then have p: "k' \<in> set keyword_list" "prefix k' t" "length k \<le> length k'"
    using longest_Some [OF k'] k(1) \<open>prefix k t\<close> by auto
  have "prefix k k'" using prefix_length_prefix \<open>prefix k t\<close> p(2,3) by blast
  then obtain x where x: "k' = k @ x" by (auto simp: prefix_def)
  have "x = []"
  proof (rule ccontr)
    assume "x \<noteq> []"
    then obtain c y where c: "x = c # y" by (cases x) auto
    have alpha: "is_alpha c" using keyword_chars [OF p(1)] x c by simp
    from p(2) x c have "prefix (c # y) (d @ ?e)" using t by (metis append_assoc same_prefix_prefix)
    then have "starts (\<lambda>a. a = c) (d @ ?e)" by (cases "d @ ?e") auto
    then show False
    proof (cases d)
      case Nil
      then have "starts (\<lambda>a. a = c) ?e" using \<open>starts (\<lambda>a. a = c) (d @ ?e)\<close> by simp
      then show False using dropWhile_not_starts [of "\<lambda>a. a = c" word_char t] alpha alpha_word_char by blast
    next
      case (Cons a b)
      with k(3) \<open>starts (\<lambda>a. a = c) (d @ ?e)\<close> alpha show False
        using digit_not_alpha alpha_word_char by auto
    qed
  qed
  then have r: "drop (length k') t = d @ ?e" using t x by (metis append_Nil2 append_eq_conv_conj)
  have "\<not> starts word_start (d @ ?e)"
  proof (cases d)
    case Nil
    with dropWhile_not_starts [of word_start word_char t] word_start_char show ?thesis by simp
  next
    case (Cons a b)
    with k(3) show ?thesis using digit_not_alpha by auto
  qed
  with k' r show "rejected_word t" by (simp add: rejected_word_def)
qed

section \<open>String literals\<close>

lemma not_quote_star:
  assumes laws: "x3_laws lx rhs sk px" and "q \<notin> set w"
  shows "evaluates px False (Star (Except (OneOf AnyChar) (Lit [q]))) (w @ q # r)
    (Match (map (\<lambda>c. Token [c]) w) (q # r))"
  using assms(2)
proof (induction w)
  case Nil
  have "evaluates px False (Lit [q]) (q # r) (Match [] r)"
    using evaluates_primitive(1) [OF laws, of "[q]" "q # r"] by simp
  from evaluates_star_stop [OF laws evaluates_except_fail [OF laws this]] show ?case by simp
next
  case (Cons c w)
  have "evaluates px False (Lit [q]) ((c # w) @ q # r) (NoMatch ((c # w) @ q # r))"
    using evaluates_primitive(1) [OF laws, of "[q]" "(c # w) @ q # r"] Cons.prems by simp
  moreover have "evaluates px False (OneOf AnyChar) ((c # w) @ q # r) (Match [Token [c]] (w @ q # r))"
    using evaluates_primitive(2) [OF laws, of AnyChar "(c # w) @ q # r"] by simp
  ultimately have "evaluates px False (Except (OneOf AnyChar) (Lit [q])) ((c # w) @ q # r)
      (Match [Token [c]] (w @ q # r))" by (rule evaluates_except [OF laws])
  moreover have "evaluates px False (Star (Except (OneOf AnyChar) (Lit [q]))) (w @ q # r)
      (Match (map (\<lambda>c. Token [c]) w) (q # r))" using Cons by simp
  ultimately show ?case using evaluates_star_more [OF laws] by fastforce
qed

lemma quoted_at:
  assumes laws: "x3_laws lx rhs sk px" and "q \<notin> set w"
    and skip: "pre_skip px sk m s = (\<lambda>out. out = Match us (q # w @ q # r))"
  shows "evaluates px m (Lexeme (Seqn (Seqn (Lit [q]) (Star (Except (OneOf AnyChar) (Lit [q])))) (Lit [q]))) s
    (Match (map (\<lambda>c. Token [c]) w) r)"
proof -
  have left_quote: "evaluates px False (Lit [q]) (q # w @ q # r) (Match [] (w @ q # r))"
    using evaluates_primitive(1) [OF laws, of "[q]" "q # w @ q # r"] by simp
  have right_quote: "evaluates px False (Lit [q]) (q # r) (Match [] r)"
    using evaluates_primitive(1) [OF laws, of "[q]" "q # r"] by simp
  have body: "evaluates px False (Seqn (Lit [q]) (Star (Except (OneOf AnyChar) (Lit [q]))))
      (q # w @ q # r) (Match (map (\<lambda>c. Token [c]) w) (q # r))"
    using evaluates_seqn [OF laws left_quote not_quote_star [OF laws assms(2)]] by simp
  from evaluates_seqn [OF laws body right_quote]
  show ?thesis by (intro evaluates_lexeme [OF laws _ skip]) simp
qed

lemma not_quoted_at:
  assumes laws: "x3_laws lx rhs sk px" and "starts (\<lambda>c. c \<noteq> q) t"
    and skip: "pre_skip px sk m s = (\<lambda>out. out = Match us t)"
  shows "evaluates px m (Lexeme (Seqn (Seqn (Lit [q]) (Star (Except (OneOf AnyChar) (Lit [q])))) (Lit [q]))) s
    (NoMatch t)"
proof -
  have "evaluates px False (Lit [q]) t (NoMatch t)"
    using evaluates_primitive(1) [OF laws, of "[q]" t] assms(2) by (cases t) auto
  from evaluates_seqn_fail [OF laws evaluates_seqn_fail [OF laws this]]
  show ?thesis by (rule evaluates_lexeme [OF laws _ skip])
qed

end
