(* ===== verification/Flow_Parser_Props.thy ===== *)
theory Flow_Parser_Props
  imports Flow_Parser
begin

text \<open>
  The properties of the flow parser: it ends with one result on every text, what it takes for an
  identifier and for a string literal, and what it makes of words that begin with an operator or
  a statement word. All of them hold for every parser that satisfies the laws of x3.
\<close>

section \<open>An instance of the parameters\<close>

text \<open>Numbers that are plain digit sequences, and the reference interpreter.\<close>

definition plain_digits :: numbers where
  "plain_digits k s = (let n = length (takeWhile is_digit s) in if k = StrictReal \<or> n = 0 then None else Some n)"

definition flow_x3 :: "rule x3_relation" where
  "flow_x3 = x3_reference plain_digits rule_def skipper"

lemma flow_x3_laws: "x3_laws plain_digits rule_def skipper flow_x3" "numbers_laws plain_digits"
  by (auto simp: flow_x3_def x3_reference_laws numbers_laws_def plain_digits_def Let_def
      length_takeWhile_le split: if_splits)

lemma flow_x3_run: "x3_run plain_digits rule_def skipper n m p s = Some v \<Longrightarrow> flow_x3 m p s v"
  by (auto simp: flow_x3_def x3_reference_def)

lemma digit_word_tree:
  "x3_run plain_digits rule_def skipper 40 False (Star skipper) '' /**/ a1 = 2'' = Some (Match [Token '' '', Node R_block_comment 11 7 [], Token '' ''] ''a1 = 2'')"
  "x3_run plain_digits rule_def skipper 40 False (Star skipper) [CHR 0x27, CHR ''a'', CHR 0x27] =
     Some (Match [] [CHR 0x27, CHR ''a'', CHR 0x27])"
  by code_simp+

section \<open>Every text is parsed\<close>

lemma parsing_result:
  assumes "x3_laws lx rule_def skipper px" and "numbers_laws lx"
  shows "\<exists>!res. parse_using px x text res"
proof -
  have "wf_at may_be_empty rule_rank 14 14 (Call x)" by (cases x) simp_all
  then obtain v where v: "evaluates px True (Call x) text v" by (rule flow_settled [OF assms])
  have skip: "\<exists>u. evaluates px False (Star skipper) r u" for r
    using flow_settled [OF assms wf_skipper(2), of False r] by metis
  have "\<exists>!bq. phrase_parse px x text bq"
  proof (cases v)
    case (Match ts r)
    obtain u where "evaluates px False (Star skipper) r u" using skip by blast
    then show ?thesis
      by (cases u) (auto simp: phrase_parse_def evaluates_px [OF v] Match evaluates_px prod_eq_iff)
  qed (auto simp: phrase_parse_def evaluates_px [OF v] prod_eq_iff)
  then show ?thesis by (auto simp: parse_using_def)
qed

text \<open>C5: On every text and for every rule of the grammar, parse_using ends with exactly one result
  (a parse, a parse that stopped before the end, or an expectation failure): the grammar has no
  left recursion and no loop that does not consume text.\<close>

theorem parsing_ends_with_one_result:
  assumes "x3_laws lx rule_def skipper px" and "numbers_laws lx"
  shows "\<exists>!res. parse_using px x text res"
  by (rule parsing_result [OF assms])

theorem parsing_ends_with_one_result_witness:
  "\<exists>!res. parse_using flow_x3 R_program ''x = 1;'' res"
  by (rule parsing_ends_with_one_result [where px = flow_x3, OF flow_x3_laws])

text \<open>C28: An identifier is the longest word (a letter or an underscore, then letters, digits and
  underscores) at the position after blanks and comments, unless that word is a reserved word or a
  reserved word followed by a digit, in which case nothing is consumed. So no reserved word is an
  identifier, and neither is for instance in1.\<close>

theorem identifiers_are_unreserved_words:
  assumes "x3_laws lx rule_def skipper px" and "numbers_laws lx"
    and "px False (Star skipper) s (Match us t)"
  shows "px True (Call R_identifier) s out \<longleftrightarrow>
    out = (if starts word_start t \<and>
             \<not> (\<exists>k \<in> set keyword_list. \<exists>d. takeWhile word_char t = k @ d \<and> (d = [] \<or> starts is_digit d))
           then Match [Node R_identifier (length t) (length (dropWhile word_char t)) [Token (takeWhile word_char t)]]
             (dropWhile word_char t)
           else NoMatch s)"
  using evaluates_unique [OF identifier_at [OF assms]] unfolding rejected_word_iff by blast

theorem identifiers_are_unreserved_words_witness:
  "flow_x3 True (Call R_identifier) '' /**/ a1 = 2'' (Match [Node R_identifier 6 4 [Token ''a1'']] '' = 2'')"
proof -
  have "flow_x3 False (Star skipper) '' /**/ a1 = 2'' (Match [Token '' '', Node R_block_comment 11 7 [], Token '' ''] ''a1 = 2'')"
    by (rule flow_x3_run [OF digit_word_tree(1)])
  note ident = identifiers_are_unreserved_words [where px = flow_x3, OF flow_x3_laws this]
  have w: "takeWhile word_char ''a1 = 2'' = ''a1''" "dropWhile word_char ''a1 = 2'' = '' = 2''"
      "starts word_start ''a1 = 2''" by code_simp+
  have "list_all (\<lambda>k. \<not> prefix k ''a1'') keyword_list" by code_simp
  then have "\<not> (\<exists>k \<in> set keyword_list. \<exists>d. ''a1'' = k @ d \<and> (d = [] \<or> starts is_digit d))"
    unfolding list_all_iff prefix_def by blast
  with w show ?thesis unfolding ident by simp
qed

text \<open>C29: A string literal in either kind of quotes reads back every text that does not contain that
  quote, character by character, and stops right after the closing quote.\<close>

theorem string_literal_round_trip:
  assumes laws: "x3_laws lx rule_def skipper px" and num: "numbers_laws lx"
    and skip: "px False (Star skipper) s (Match us (q # w @ q # r))"
    and q: "q = CHR 0x27 \<or> q = CHR 0x22" and w: "q \<notin> set w"
  shows "px True (Call R_string) s out \<longleftrightarrow> out = Match [Node R_string (length w + length r + 2) (length r) (map (\<lambda>c. Token [c]) w)] r"
proof -
  have on: "pre_skip px skipper True s = (\<lambda>out. out = Match us (q # w @ q # r))"
    by (rule pre_skip_on [OF skip_unique [OF laws num skip]])
  have again: "pre_skip px skipper True (q # w @ q # r) = (\<lambda>out. out = Match [] (q # w @ q # r))"
    by (rule pre_skip_on [OF skip_again [OF laws num skip]])
  have "evaluates px True string_rhs s (Match (map (\<lambda>c. Token [c]) w) r)"
  proof (cases "q = CHR 0x27")
    case True
    have "evaluates px True single_quote_string s (Match (map (\<lambda>c. Token [c]) w) r)"
      using quoted_at [OF laws w on] True by (simp add: single_quote_string_def)
    then show ?thesis unfolding string_rhs_def by (rule evaluates_alt_left [OF laws])
  next
    case False
    with q have q2: "q = CHR 0x22" by simp
    have "evaluates px True single_quote_string s (NoMatch (q # w @ q # r))"
      unfolding single_quote_string_def by (rule not_quoted_at [OF laws _ on]) (simp add: q2)
    moreover have "evaluates px True double_quote_string (q # w @ q # r) (Match (map (\<lambda>c. Token [c]) w) r)"
      using quoted_at [OF laws w again] q2 by (simp add: double_quote_string_def)
    ultimately show ?thesis unfolding string_rhs_def by (rule evaluates_alt_right [OF laws])
  qed
  then have "evaluates px True (rule_def R_string) s (Match (map (\<lambda>c. Token [c]) w) r)" by simp
  from evaluates_call(1) [OF laws this refl on] show ?thesis by (auto simp: evaluates_def)
qed

theorem string_literal_round_trip_witness:
  "flow_x3 True (Call R_string) [CHR 0x27, CHR ''a'', CHR 0x27] (Match [Node R_string 3 0 [Token ''a'']] [])"
proof -
  have "flow_x3 False (Star skipper) [CHR 0x27, CHR ''a'', CHR 0x27]
      (Match [] (CHR 0x27 # [CHR ''a''] @ CHR 0x27 # []))"
    using flow_x3_run [OF digit_word_tree(2)] by simp
  from string_literal_round_trip [where px = flow_x3, OF flow_x3_laws this] show ?thesis by simp
qed

section \<open>Words that begin with a statement or operator word\<close>

text \<open>The chain of rules from an expression down to a primary expression.\<close>

definition only_primary :: "nat \<Rightarrow> nat \<Rightarrow> rule tree \<Rightarrow> rule tree" where
  "only_primary a b t =
     Node R_expression a b [Node R_logical_expr a b [Node R_equality_expr a b [Node R_relational_expr a b
       [Node R_additive_expr a b [Node R_multiplicative_expr a b [Node R_unary_expr a b
         [Node R_primary_expr a b [t]]]]]]]]"

definition path_tree :: "nat \<Rightarrow> nat \<Rightarrow> string \<Rightarrow> rule tree" where
  "path_tree a b w = Node R_identifier_path a b [Node R_identifier a b [Token w]]"

lemma only_outcome:
  assumes "x3_laws plain_digits rule_def skipper px"
    and "x3_run plain_digits rule_def skipper 60 True (Call x) s = Some v"
  shows "px True (Call x) s out \<longleftrightarrow> out = v"
proof -
  have "wf_at may_be_empty rule_rank 14 14 (Call x)" by (cases x) simp_all
  then obtain w where w: "evaluates px True (Call x) s w"
    using flow_settled [OF assms(1) flow_x3_laws(2)] by blast
  have "px True (Call x) s v" using x3_run_sound [OF assms] .
  with w show ?thesis by (simp add: evaluates_def)
qed

text \<open>The literals of the grammar have no word boundary: the expression tryfoo is read as try
  applied to foo, the statement returned; as return ed, and of trueness only true is read.\<close>

lemma words_are_split_after_try_and_return:
  assumes "x3_laws lx rule_def skipper px" and "lx = plain_digits"
  shows "px True (Call R_expression) ''tryfoo'' out \<longleftrightarrow>
      out = Match [only_primary 6 0 (Node R_try_expression 6 0 [only_primary 3 0 (path_tree 3 0 ''foo'')])] []"
    and "px True (Call R_return_statement) ''returned;'' out \<longleftrightarrow>
      out = Match [Node R_return_statement 9 1 [only_primary 3 1 (path_tree 3 1 ''ed'')]] '';''"
    and "px True (Call R_expression) ''trueness'' out \<longleftrightarrow>
      out = Match [only_primary 8 4 (Node R_literal 8 4 [Token ''true''])] ''ness''"
proof -
  have laws: "x3_laws plain_digits rule_def skipper px" using assms by simp
  show "px True (Call R_expression) ''tryfoo'' out \<longleftrightarrow>
      out = Match [only_primary 6 0 (Node R_try_expression 6 0 [only_primary 3 0 (path_tree 3 0 ''foo'')])] []"
    by (rule only_outcome [OF laws]) code_simp
  show "px True (Call R_return_statement) ''returned;'' out \<longleftrightarrow>
      out = Match [Node R_return_statement 9 1 [only_primary 3 1 (path_tree 3 1 ''ed'')]] '';''"
    by (rule only_outcome [OF laws]) code_simp
  show "px True (Call R_expression) ''trueness'' out \<longleftrightarrow>
      out = Match [only_primary 8 4 (Node R_literal 8 4 [Token ''true''])] ''ness''"
    by (rule only_outcome [OF laws]) code_simp
qed

end
