(* ===== verification/Flow_Positions.thy ===== *)
theory Flow_Positions
  imports Flow_Parser
begin

text \<open>
  The positions of the nodes of a parse: SuccessHandler::on_success gets the position after
  skipping and the position where the rule ended. Every node of a parse begins inside the text and
  does not end before it begins; the rule for a whole program is the only exception, as it can
  match nothing. This needs that a numeric parser does not begin with a blank or a comment, because
  a duration is read without skipping.
\<close>

definition number_starts :: "char set" where
  "number_starts = set ''+-.0123456789iInN''"

definition numbers_start :: "numbers \<Rightarrow> bool" where
  "numbers_start lx \<longleftrightarrow> (\<forall>k s n. lx k s = Some n \<longrightarrow> (\<exists>c r. s = c # r \<and> c \<in> number_starts))"

section \<open>Skipping always ends with a match\<close>

primrec throws_nothing :: "parser \<Rightarrow> bool" where
  "throws_nothing (Lit t) = True"
| "throws_nothing (Symbols ts) = True"
| "throws_nothing (OneOf c) = True"
| "throws_nothing Eol = True"
| "throws_nothing Eoi = True"
| "throws_nothing (Num k) = True"
| "throws_nothing (Seqn a b) = (throws_nothing a \<and> throws_nothing b)"
| "throws_nothing (Expect a b) = False"
| "throws_nothing (Alt a b) = (throws_nothing a \<and> throws_nothing b)"
| "throws_nothing (Except a b) = (throws_nothing a \<and> throws_nothing b)"
| "throws_nothing (Star a) = throws_nothing a"
| "throws_nothing (Opt a) = throws_nothing a"
| "throws_nothing (Unless a) = throws_nothing a"
| "throws_nothing (Lexeme a) = throws_nothing a"
| "throws_nothing (NoSkip a) = throws_nothing a"
| "throws_nothing (Raw a) = throws_nothing a"
| "throws_nothing (Call x) = (x = R_block_comment)"

lemma after_Expectation_cases:
  assumes "after q f g (Expectation e)"
  obtains "q = Expectation e" | ts t where "q = Match ts t" "f ts t (Expectation e)"
  | t where "q = NoMatch t" "g t (Expectation e)"
  using assms by (cases q) auto

lemma continued_Expectation: "Expectation e = continued ts s u \<longleftrightarrow> u = Expectation e"
  by (cases u) auto

lemma primitive_no_throw: "primitive lx p s \<noteq> Expectation e" "Expectation e \<noteq> primitive lx p s"
  by (cases "(lx, p, s)" rule: primitive.cases; auto split: option.split list.split if_splits)+

lemma run_no_throw:
  "x3_run lx rule_def skipper n False p s = Some v \<Longrightarrow> throws_nothing p \<Longrightarrow> v \<noteq> Expectation e"
proof (induction n arbitrary: p s v e)
  case (Suc n)
  let ?R = "\<lambda>m p s v. x3_run lx rule_def skipper n m p s = Some v"
  have step: "x3_step lx rule_def skipper ?R False p s v" using Suc.prems(1) by (simp add: run_step_iff)
  have IH: "\<not> ?R False q t (Expectation e)" if "throws_nothing q" for q t e
    using Suc.IH that by blast
  have skip: "\<not> pre_skip ?R skipper False t (Expectation e)" for t e
    by (simp add: pre_skip_def)
  have comment: "throws_nothing (rule_def R_block_comment)" by (simp add: block_comment_rhs_def)
  show ?case
  proof
    assume v: "v = Expectation e"
    show False
      using step Suc.prems(2) IH skip comment unfolding v
      by (cases p) (auto elim!: after_Expectation_cases simp: continued_Expectation primitive_no_throw
          simp del: primitive.simps)
  qed
qed simp

lemma run_star_matches: "x3_run lx rhs sk n m (Star a) s \<noteq> Some (NoMatch r)"
proof (induction n arbitrary: s r)
  case (Suc n)
  show ?case
  proof
    assume "x3_run lx rhs sk (Suc n) m (Star a) s = Some (NoMatch r)"
    then have "x3_step lx rhs sk (\<lambda>m p s v. x3_run lx rhs sk n m p s = Some v) m (Star a) s (NoMatch r)"
      by (simp only: x3_run.simps run_step_iff)
    then obtain ts t u where "x3_run lx rhs sk n m (Star a) t = Some u" "NoMatch r = continued ts s u"
      by (auto elim: after_Fail_cases)
    with Suc show False by (cases u) auto
  qed
qed simp

lemma call_runs:
  assumes "x3_laws lx rule_def skipper px" and "numbers_laws lx" and "px m (Call x) s v"
  shows "\<exists>n. x3_run lx rule_def skipper n m (Call x) s = Some v"
proof -
  have "wf_at may_be_empty rule_rank 14 14 (Call x)" by (cases x) simp_all
  with assms have "x3_reference lx rule_def skipper m (Call x) s v"
    using parser_agrees_with_reference [OF assms(1,2) flow_grammar_well_formed] by blast
  then show ?thesis by (simp add: x3_reference_def)
qed

lemma skip_matches:
  assumes laws: "x3_laws lx rule_def skipper px" and num: "numbers_laws lx"
  obtains us t where "px False (Star skipper) s (Match us t)" and "suffix t s"
proof -
  obtain v where v: "evaluates px False (Star skipper) s v" "leaves may_be_empty (Star skipper) s v"
    using flow_settled [OF laws num wf_skipper(2)] .
  then have px: "px False (Star skipper) s v" by (simp add: evaluates_def)
  then have "x3_reference lx rule_def skipper False (Star skipper) s v"
    using parser_agrees_with_reference [OF laws num flow_grammar_well_formed wf_skipper(2)] by blast
  then obtain n where n: "x3_run lx rule_def skipper n False (Star skipper) s = Some v"
    by (auto simp: x3_reference_def)
  have "throws_nothing (Star skipper)"
    by (simp add: skipper_def comment_def single_line_comment_def)
  from run_no_throw [OF n this] have "v \<noteq> Expectation e" for e .
  moreover have "v \<noteq> NoMatch r" for r
    using n run_star_matches by blast
  ultimately obtain us t where "v = Match us t" by (cases v) auto
  with px v(2) that show thesis by auto
qed

section \<open>Where parsers stop\<close>

text \<open>Skipping is only switched off in front of a number.\<close>

primrec numbers_unskipped :: "parser \<Rightarrow> bool" where
  "numbers_unskipped (Lit t) = True"
| "numbers_unskipped (Symbols ts) = True"
| "numbers_unskipped (OneOf c) = True"
| "numbers_unskipped Eol = True"
| "numbers_unskipped Eoi = True"
| "numbers_unskipped (Num k) = True"
| "numbers_unskipped (Seqn a b) = (numbers_unskipped a \<and> numbers_unskipped b)"
| "numbers_unskipped (Expect a b) = (numbers_unskipped a \<and> numbers_unskipped b)"
| "numbers_unskipped (Alt a b) = (numbers_unskipped a \<and> numbers_unskipped b)"
| "numbers_unskipped (Except a b) = (numbers_unskipped a \<and> numbers_unskipped b)"
| "numbers_unskipped (Star a) = numbers_unskipped a"
| "numbers_unskipped (Opt a) = numbers_unskipped a"
| "numbers_unskipped (Unless a) = numbers_unskipped a"
| "numbers_unskipped (Lexeme a) = numbers_unskipped a"
| "numbers_unskipped (NoSkip a) = (numbers_unskipped a \<and> (\<exists>k b. a = Seqn (Num k) b))"
| "numbers_unskipped (Raw a) = numbers_unskipped a"
| "numbers_unskipped (Call x) = True"

lemma numbers_unskipped_rules: "numbers_unskipped (rule_def x)"
  by (cases x) (simp_all add: grammar_defs keyword_list_def)

fun positioned :: "nat \<Rightarrow> rule tree \<Rightarrow> bool" where
  "positioned n (Token s) = True"
| "positioned n (Node x a b ts) =
     (a \<le> n \<and> b \<le> n \<and> (b \<le> a \<or> may_be_empty x) \<and> list_all (positioned n) ts)"

lemma positioned_mono: "positioned n t \<Longrightarrow> n \<le> k \<Longrightarrow> positioned k t"
  by (induction n t rule: positioned.induct) (auto simp: list_all_iff)

lemma positioned_suffix:
  "list_all (positioned (length t)) ts \<Longrightarrow> suffix t s \<Longrightarrow> list_all (positioned (length s)) ts"
  unfolding list_all_iff using positioned_mono suffix_length_le by blast

text \<open>t is the position after skipping from s: a failure stops at s or t, a match at s or from t on.\<close>

fun stops_at :: "string \<Rightarrow> string \<Rightarrow> rule parse_outcome \<Rightarrow> bool" where
  "stops_at s t (Match ts r) = ((r = s \<or> suffix r t) \<and> list_all (positioned (length s)) ts)"
| "stops_at s t (NoMatch r) = (r = s \<or> r = t)"
| "stops_at s t (Expectation e) = True"

lemma stops_primitive: "stops_at s t (primitive lx p t)"
  by (cases p) (auto split: option.split list.split intro: suffix_drop suffix_ConsI)

lemma number_not_skipped:
  assumes laws: "x3_laws lx rule_def skipper px" and num: "numbers_laws lx"
    and "c \<in> number_starts"
  shows "evaluates px False (Star skipper) (c # r) (Match [] (c # r))"
proof -
  let ?s = "c # r"
  have c: "\<not> is_space c" "c \<noteq> CHR ''/''"
    using assms(3) by (auto simp: number_starts_def is_space_def)
  have lit: "evaluates px False (Lit (CHR ''/'' # t)) ?s (NoMatch ?s)" for t
    using evaluates_primitive(1) [OF laws, of "CHR ''/'' # t" ?s] c by simp
  have space: "evaluates px False (OneOf Space) ?s (NoMatch ?s)"
    using evaluates_primitive(2) [OF laws, of Space ?s] c by simp
  have line: "evaluates px False single_line_comment ?s (NoMatch ?s)"
    unfolding single_line_comment_def
    by (intro evaluates_seqn_fail [OF laws evaluates_seqn_fail [OF laws lit]])
  have "evaluates px False (rule_def R_block_comment) ?s (NoMatch ?s)"
    using evaluates_seqn_fail [OF laws evaluates_seqn_fail [OF laws lit]] by (simp add: block_comment_rhs_def)
  then have "evaluates px False (Call R_block_comment) ?s (NoMatch ?s)"
    by (rule evaluates_call(2) [OF laws _ refl])
  then have "evaluates px False skipper ?s (NoMatch ?s)"
    unfolding skipper_def comment_def
    by (intro evaluates_alt_right [OF laws space] evaluates_alt_right [OF laws line])
  then show ?thesis by (rule evaluates_star_stop [OF laws])
qed

lemma skip_facts:
  assumes laws: "x3_laws lx rule_def skipper px" and num: "numbers_laws lx"
  shows "\<exists>us t. pre_skip px skipper m s (Match us t) \<and> suffix t s"
    and "pre_skip px skipper m s (Match us t) \<Longrightarrow> pre_skip px skipper m s q \<Longrightarrow> q = Match us t"
    and "pre_skip px skipper m s (Match us t) \<Longrightarrow> pre_skip px skipper m t (Match [] t)"
    and "pre_skip px skipper m s (Match us t) \<Longrightarrow> suffix t s"
proof -
  show ex: "\<exists>us t. pre_skip px skipper m s (Match us t) \<and> suffix t s"
    by (cases m) (auto simp: pre_skip_def intro: skip_matches [OF laws num, of s])
  show det: "pre_skip px skipper m s (Match us t) \<Longrightarrow> pre_skip px skipper m s q \<Longrightarrow> q = Match us t" for us t q
    using skip_unique [OF laws num, of s us t] by (cases m) (auto simp: pre_skip_def evaluates_def)
  show "pre_skip px skipper m s (Match us t) \<Longrightarrow> pre_skip px skipper m t (Match [] t)"
    using skip_again [OF laws num, of s us t] by (cases m) (auto simp: pre_skip_def evaluates_def)
  show "suffix t s" if "pre_skip px skipper m s (Match us t)"
    using ex det [OF that] by auto
qed

text \<open>Going on from where a parser stopped.\<close>

lemma stops_at_later:
  assumes "stops_at r t' v" and "r = s \<and> t' = t \<or> suffix r t \<and> suffix t s \<and> suffix t' r"
  shows "case v of Match ts q \<Rightarrow> (q = s \<or> suffix q t) \<and> list_all (positioned (length s)) ts | _ \<Rightarrow> True"
proof (cases v)
  case (Match ts q)
  have "length r \<le> length s"
    using assms(2) suffix_length_le suffix_order.trans by blast
  then have "list_all (positioned (length s)) ts"
    using assms(1) Match positioned_mono by (auto simp: list_all_iff)
  moreover have "q = s \<or> suffix q t"
    using assms Match suffix_order.trans by auto
  ultimately show ?thesis using Match by simp
qed simp_all

lemma rule_consumes:
  assumes laws: "x3_laws lx rule_def skipper px" and num: "numbers_laws lx"
    and "px m (rule_def x) s (Match ts s)"
  shows "may_be_empty x"
proof -
  have rules: "\<forall>x. rule_rank x < 14 \<and> wf_at may_be_empty rule_rank 14 (rule_rank x) (rule_def x) \<and>
      (nullable may_be_empty (rule_def x) \<longrightarrow> may_be_empty x)"
    by (rule conjunct1 [OF flow_grammar_well_formed [unfolded wf_rules_def]])
  note r = spec [OF rules, of x]
  note wf2 = mp [OF conjunct2 [OF conjunct2 [OF r]]]
  have wf: "wf_at may_be_empty rule_rank 14 14 (rule_def x)"
    by (rule wf_at_mono [OF conjunct1 [OF conjunct2 [OF r]] less_imp_le [OF conjunct1 [OF r]]])
  obtain v where v: "evaluates px m (rule_def x) s v" "leaves may_be_empty (rule_def x) s v"
    using flow_settled [OF laws num wf] .
  have "v = Match ts s" by (rule sym [OF iffD1 [OF evaluates_unique [OF v(1)] assms(3)]])
  with v(2) have "nullable may_be_empty (rule_def x)" by (simp only: leaves.simps)
  then show ?thesis by (rule wf2)
qed

lemma stops_after_first:
  assumes a: "stops_at s t (Match ts r)" and skip: "pre_skip px skipper m s (Match us t)"
    and laws: "x3_laws lx rule_def skipper px" and num: "numbers_laws lx"
    and b: "\<And>us' t'. pre_skip px skipper m r (Match us' t') \<Longrightarrow> stops_at r t' v"
  shows "case v of Match ts' q \<Rightarrow> (q = s \<or> suffix q t) \<and> list_all (positioned (length s)) (ts @ ts') | _ \<Rightarrow> True"
proof -
  obtain us' t' where t': "pre_skip px skipper m r (Match us' t')" "suffix t' r"
    using skip_facts(1) [OF laws num] by blast
  have "r = s \<and> t' = t \<or> suffix r t \<and> suffix t s \<and> suffix t' r"
    using a t' skip_facts(2) [OF laws num skip] skip_facts(4) [OF laws num skip] by auto
  from stops_at_later [OF b [OF t'(1)] this] a show ?thesis by (cases v) auto
qed

lemma seqn_runs:
  assumes "x3_run lx rhs sk n m (Seqn a b) s = Some v"
  shows "\<exists>j q. n = Suc j \<and> x3_run lx rhs sk j m a s = Some q \<and>
    after q (\<lambda>ts r v. \<exists>u. x3_run lx rhs sk j m b r = Some u \<and> v = continued ts s u) (\<lambda>r v. v = NoMatch s) v"
proof (cases n)
  case (Suc j)
  with assms have "x3_step lx rhs sk (\<lambda>m p s v. x3_run lx rhs sk j m p s = Some v) m (Seqn a b) s v"
    by (simp only: x3_run.simps run_step_iff)
  with Suc show ?thesis by auto
qed (use assms in simp)

lemma number_runs:
  assumes "x3_run lx rhs sk n False (Num k) s = Some q"
  shows "q = primitive lx (Num k) s"
proof (cases n)
  case (Suc j)
  with assms have "x3_step lx rhs sk (\<lambda>m p s v. x3_run lx rhs sk j m p s = Some v) False (Num k) s q"
    by (simp only: x3_run.simps run_step_iff)
  then show ?thesis by (simp add: pre_skip_def del: primitive.simps)
qed (use assms in simp)

lemma run_stops:
  assumes laws: "x3_laws lx rule_def skipper px" and num: "numbers_laws lx" and start: "numbers_start lx"
  shows "x3_run lx rule_def skipper n m p s = Some v \<Longrightarrow> numbers_unskipped p
    \<Longrightarrow> pre_skip px skipper m s (Match us t) \<Longrightarrow> stops_at s t v"
proof (induction n arbitrary: m p s v us t)
  case (Suc n)
  let ?R = "\<lambda>m p s v. x3_run lx rule_def skipper n m p s = Some v"
  have step: "x3_step lx rule_def skipper ?R m p s v"
    using Suc.prems(1) by (simp only: x3_run.simps run_step_iff)
  note IH = Suc.IH
  note skip = Suc.prems(3)
  have sound: "?R m p s v \<Longrightarrow> px m p s v" for m p s v by (rule x3_run_sound [OF laws])
  have rskip: "pre_skip ?R skipper m s q \<Longrightarrow> q = Match us t" for q
    using skip_facts(2) [OF laws num skip] pre_skip_mono [of ?R skipper m s q px] sound by blast
  have suf: "suffix t s" by (rule skip_facts(4) [OF laws num skip])
  have again: "pre_skip px skipper m t (Match [] t)" by (rule skip_facts(3) [OF laws num skip])
  have after_first: "case w of Match ts' q \<Rightarrow> (q = s \<or> suffix q t) \<and> list_all (positioned (length s)) (ts @ ts') | _ \<Rightarrow> True"
    if "?R m a s (Match ts r)" "numbers_unskipped a" "?R m b r w" "numbers_unskipped b" for a b ts r w
    by (rule stops_after_first [OF IH [OF that(1,2) skip] skip laws num]) (rule IH [OF that(3,4)])
  have on_failure: "stops_at s t w"
    if "?R m a s (NoMatch r)" "numbers_unskipped a" "?R m b r w" "numbers_unskipped b" for a b r w
  proof -
    have "r = s \<or> r = t" using IH [OF that(1,2) skip] by simp
    then show ?thesis
    proof
      assume "r = s"
      with IH [OF that(3,4)] skip show ?thesis by blast
    next
      assume r: "r = t"
      with IH [OF that(3,4)] again have "stops_at t t w" by blast
      then show ?thesis using suf positioned_suffix by (cases w) auto
    qed
  qed
  show ?case
  proof (cases p)
    case (Seqn a b)
    with step Suc.prems(2) obtain q where q: "?R m a s q"
      "after q (\<lambda>ts r v. \<exists>u. ?R m b r u \<and> v = continued ts s u) (\<lambda>r v. v = NoMatch s) v" by auto
    show ?thesis
    proof (cases q)
      case (Match ts r)
      with q obtain u where u: "?R m b r u" "v = continued ts s u" by auto
      from after_first [OF q(1) [unfolded Match] _ u(1)] Seqn Suc.prems(2) u(2)
      show ?thesis by (cases u) auto
    qed (use q in auto)
  next
    case (Expect a b)
    with step Suc.prems(2) obtain q where q: "?R m a s q"
      "after q (\<lambda>ts r v. \<exists>u. ?R m b r u \<and> v = expected ts u) (\<lambda>r v. v = NoMatch s) v" by auto
    show ?thesis
    proof (cases q)
      case (Match ts r)
      with q obtain u where u: "?R m b r u" "v = expected ts u" by auto
      from after_first [OF q(1) [unfolded Match] _ u(1)] Expect Suc.prems(2) u(2)
      show ?thesis by (cases u) auto
    qed (use q in auto)
  next
    case (Star a)
    with step obtain q where q: "?R m a s q"
      "after q (\<lambda>ts r v. \<exists>u. ?R m (Star a) r u \<and> v = continued ts s u) (\<lambda>r v. v = Match [] r) v" by auto
    show ?thesis
    proof (cases q)
      case (Match ts r)
      with q obtain u where u: "?R m (Star a) r u" "v = continued ts s u" by auto
      from after_first [OF q(1) [unfolded Match] _ u(1)] Star Suc.prems(2) u(2)
      show ?thesis by (cases u) auto
    next
      case (NoMatch r)
      with IH [OF q(1) _ skip] q(2) Star Suc.prems(2) show ?thesis by auto
    qed (use q in auto)
  next
    case (Alt a b)
    with step obtain q where q: "?R m a s q"
      "after q (\<lambda>ts r v. v = Match ts r) (\<lambda>r v. ?R m b r v) v" by auto
    with IH [OF q(1) _ skip] on_failure Alt Suc.prems(2) show ?thesis by (cases q) auto
  next
    case (Except a b)
    with step obtain q where q: "?R m b s q"
      "after q (\<lambda>ts r v. v = NoMatch s) (\<lambda>r v. ?R m a r v) v" by auto
    with on_failure Except Suc.prems(2) show ?thesis by (cases q) auto
  next
    case (Opt a)
    with step obtain q where q: "?R m a s q"
      "after q (\<lambda>ts r v. v = Match ts r) (\<lambda>r v. v = Match [] r) v" by auto
    with IH [OF q(1) _ skip] Opt Suc.prems(2) show ?thesis by (cases q) auto
  next
    case (Unless a)
    with step obtain q where "after q (\<lambda>ts r v. v = NoMatch s) (\<lambda>r v. v = Match [] s) v" by auto
    then show ?thesis by (cases q) auto
  next
    case (Lexeme a)
    with step rskip have "?R False a t v" by fastforce
    moreover have "pre_skip px skipper False t (Match [] t)" by (simp add: pre_skip_def)
    ultimately have "stops_at t t v" using IH Lexeme Suc.prems(2) by simp
    then show ?thesis using suf positioned_suffix by (cases v) auto
  next
    case (NoSkip a)
    with step have a: "?R False a s v" by simp
    have "stops_at s s v"
      by (rule IH [OF a]) (use NoSkip Suc.prems(2) in \<open>simp_all add: pre_skip_def\<close>)
    moreover obtain k b where "a = Seqn (Num k) b" using NoSkip Suc.prems(2) by auto
    then obtain j q A where q: "x3_run lx rule_def skipper j False (Num k) s = Some q"
        "after q A (\<lambda>r v. v = NoMatch s) v"
      using seqn_runs [of lx rule_def skipper n False "Num k" b s v] a by blast
    have "s = t \<or> v = NoMatch s"
    proof (cases "lx k s")
      case None
      with number_runs [OF q(1)] q(2) show ?thesis by simp
    next
      case (Some i)
      with start obtain c r where "s = c # r" "c \<in> number_starts" unfolding numbers_start_def by blast
      then have "pre_skip px skipper m s (Match [] s)"
        using number_not_skipped [OF laws num] by (cases m) (auto simp: pre_skip_def evaluates_def)
      from skip_facts(2) [OF laws num skip this] show ?thesis by simp
    qed
    ultimately show ?thesis by (cases v) auto
  next
    case (Raw a)
    with step rskip obtain u where u: "?R m a t u"
      "after u (\<lambda>us r w. w = Match [Token (take (length t - length r) t)] r) (\<lambda>r w. w = NoMatch t) v" by fastforce
    with IH [OF u(1) _ again] Raw Suc.prems(2) show ?thesis by (cases u) auto
  next
    case (Call x)
    with step obtain q where q: "?R m (rule_def x) s q"
      "after q (\<lambda>ts r v. \<exists>u. pre_skip ?R skipper m s u \<and>
           after u (\<lambda>us t w. w = Match [Node x (length t) (length r) ts] r) (\<lambda>t w. w = NoMatch s) v)
        (\<lambda>r v. v = NoMatch s) v" by auto
    note stop = IH [OF q(1) numbers_unskipped_rules skip]
    show ?thesis
    proof (cases q)
      case (Match ts r)
      with q(2) rskip have v: "v = Match [Node x (length t) (length r) ts] r" by fastforce
      have r: "r = s \<or> suffix r t" using stop Match by simp
      have "length r \<le> length t \<or> may_be_empty x"
        using r rule_consumes [OF laws num, of m x s ts] sound [OF q(1)] Match suffix_length_le by blast
      moreover have "length r \<le> length s" "length t \<le> length s"
        using r suf suffix_length_le suffix_order.trans by blast+
      ultimately show ?thesis using v r stop Match by auto
    qed (use q in auto)
  qed (insert step stops_primitive [of s t lx p],
      auto dest!: rskip simp del: primitive.simps stops_at.simps)
qed simp

lemma match_positioned:
  assumes laws: "x3_laws lx rule_def skipper px" and num: "numbers_laws lx" and start: "numbers_start lx"
    and match: "px m (Call x) s (Match ts r)"
  shows "list_all (positioned (length s)) ts"
proof -
  obtain n where n: "x3_run lx rule_def skipper n m (Call x) s = Some (Match ts r)"
    using call_runs [OF laws num match] ..
  obtain us t where "pre_skip px skipper m s (Match us t)"
    using skip_facts(1) [OF laws num] by blast
  from run_stops [OF laws num start n _ this] show ?thesis by simp
qed

end
