(* ===== verification/Flow_Syntax.thy ===== *)
theory Flow_Syntax
  imports Flow_Positions Flow_Ast
begin

text \<open>
  From a parse to the syntax tree: every rule has an attribute, the type it is declared with
  (EZ_FLOW_RULE), which x3 fills in from the attributes of the parts in the order of the adapted
  members (ast_adapted.hpp); literals have none, an alternative takes the one that matched, a
  repetition appends, an optional part may be missing. on_success (annotations.hpp) sets the
  positions. \<open>build\<close> is this for each rule. What a real literal denotes is a parameter.
\<close>

datatype attribute =
    AText string
  | AIdent ident | APath identifier_path
  | AString string | AInteger int64 | AReal real64 | ADuration uint64 duration_unit | ALiteral literal
  | ADeclaration "ident \<times> ident" | ADeclarations "(ident \<times> ident) list" | ASignature signature
  | AAssignment "ident \<times> expression" | ADictionary "(ident \<times> expression) list" | AArray "expression list"
  | AArgument "ident option \<times> expression" | ACall function_call
  | APrimary primary_expression | AUnary unary_expression
  | AMultiplicative multiplicative_expression | AAdditive additive_expression
  | ARelational relational_expression | AEquality equality_expression | ALogical logical_expression
  | AExpr expression | AAwait "expression \<times> expression" | ATry expression
  | ACondition condition_block | ADefinition workflow_definition
  | AStatement workflow_statement | AProgram "workflow_statement list"

section \<open>Tokens\<close>

definition decimal :: "string \<Rightarrow> int" where
  "decimal s = foldl (\<lambda>n c. 10 * n + (int (of_char c) - 48)) 0 s"

definition int_value :: "string \<Rightarrow> int" where
  "int_value s =
     (case s of c # r \<Rightarrow> if c = CHR ''-'' then - decimal r else if c = CHR ''+'' then decimal r else decimal s
      | [] \<Rightarrow> 0)"

text \<open>The values of the symbol tables.\<close>

definition unit_value :: "string \<Rightarrow> duration_unit option" where
  "unit_value = map_of [(''ms'', Ms), (''sec'', Sec), (''mn'', Min), (''day'', Day), (''week'', Week)]"

definition boolean_value :: "string \<Rightarrow> bool option" where
  "boolean_value = map_of [(''true'', True), (''false'', False)]"

definition unary_value :: "string \<Rightarrow> unary_operator option" where
  "unary_value = map_of [(''+'', UnaryPlus), (''-'', UnaryMinus), (''not'', UnaryNot)]"

definition multiplicative_value :: "string \<Rightarrow> multiplicative_operator option" where
  "multiplicative_value = map_of [(''*'', Mult), (''/'', Div)]"

definition additive_value :: "string \<Rightarrow> additive_operator option" where
  "additive_value = map_of [(''+'', Plus), (''-'', Minus)]"

definition relational_value :: "string \<Rightarrow> relational_operator option" where
  "relational_value = map_of [(''<'', Less), (''<='', LessEq), (''>'', Greater), (''>='', GreaterEq)]"

definition equality_value :: "string \<Rightarrow> equality_operator option" where
  "equality_value = map_of [(''=='', Eq), (''!='', NotEq), (''in'', In), (''is'', Is)]"

definition logical_value :: "string \<Rightarrow> logical_operator option" where
  "logical_value = map_of [(''and'', And), (''or'', Or)]"

section \<open>Parts\<close>

fun text_of :: "attribute \<Rightarrow> string option" where
  "text_of (AText s) = Some s" | "text_of _ = None"

fun ident_of :: "attribute \<Rightarrow> ident option" where
  "ident_of (AIdent s) = Some s" | "ident_of _ = None"

fun declaration_of :: "attribute \<Rightarrow> (ident \<times> ident) option" where
  "declaration_of (ADeclaration d) = Some d" | "declaration_of _ = None"

fun assignment_of :: "attribute \<Rightarrow> (ident \<times> expression) option" where
  "assignment_of (AAssignment a) = Some a" | "assignment_of _ = None"

fun argument_of :: "attribute \<Rightarrow> (ident option \<times> expression) option" where
  "argument_of (AArgument a) = Some a" | "argument_of _ = None"

fun expr_of :: "attribute \<Rightarrow> expression option" where
  "expr_of (AExpr e) = Some e" | "expr_of _ = None"

fun unary_of :: "attribute \<Rightarrow> unary_expression option" where
  "unary_of (AUnary e) = Some e" | "unary_of _ = None"

fun multiplicative_of :: "attribute \<Rightarrow> multiplicative_expression option" where
  "multiplicative_of (AMultiplicative e) = Some e" | "multiplicative_of _ = None"

fun additive_of :: "attribute \<Rightarrow> additive_expression option" where
  "additive_of (AAdditive e) = Some e" | "additive_of _ = None"

fun relational_of :: "attribute \<Rightarrow> relational_expression option" where
  "relational_of (ARelational e) = Some e" | "relational_of _ = None"

fun equality_of :: "attribute \<Rightarrow> equality_expression option" where
  "equality_of (AEquality e) = Some e" | "equality_of _ = None"

fun condition_of :: "attribute \<Rightarrow> condition_block option" where
  "condition_of (ACondition c) = Some c" | "condition_of _ = None"

fun statement_of :: "attribute \<Rightarrow> workflow_statement option" where
  "statement_of (AStatement s) = Some s" | "statement_of _ = None"

definition all_of :: "(attribute \<Rightarrow> 'a option) \<Rightarrow> attribute list \<Rightarrow> 'a list option" where
  "all_of f as = those (map f as)"

text \<open>Operator and term, repeated: the terms of a BinaryExpression.\<close>

fun operations_of :: "(string \<Rightarrow> 'op option) \<Rightarrow> (attribute \<Rightarrow> 't option) \<Rightarrow> attribute list \<Rightarrow> ('op \<times> 't) list option" where
  "operations_of opv term [] = Some []"
| "operations_of opv term (a # b # as) =
     (case (Option.bind (text_of a) opv, term b, operations_of opv term as) of
        (Some op, Some t, Some ops) \<Rightarrow> Some ((op, t) # ops)
      | _ \<Rightarrow> None)"
| "operations_of opv term [a] = None"

definition binary_of :: "(string \<Rightarrow> 'op option) \<Rightarrow> (attribute \<Rightarrow> 't option) \<Rightarrow> attribute list \<Rightarrow> ('t, 'op) binary_expression option" where
  "binary_of opv term as =
     (case as of
        [] \<Rightarrow> None
      | a # rest \<Rightarrow>
          (case (term a, operations_of opv term rest) of
             (Some t, Some ops) \<Rightarrow> Some (Binary t ops)
           | _ \<Rightarrow> None))"

text \<open>on_success of a rule whose attribute is an Enum moves the position of the alternative.\<close>

definition relocate_path :: "located \<Rightarrow> identifier_path \<Rightarrow> identifier_path" where
  "relocate_path l p = IdentifierPath l (path_names p)"

fun relocate_expression :: "located \<Rightarrow> expression \<Rightarrow> expression" where
  "relocate_expression l (Expression l' e) = Expression l e"

section \<open>Building\<close>

definition build_path :: "located \<Rightarrow> attribute list \<Rightarrow> attribute option" where
  "build_path l as = map_option (\<lambda>ids. APath (IdentifierPath l ids)) (all_of ident_of as)"

definition build_string :: "attribute list \<Rightarrow> attribute option" where
  "build_string as = map_option (\<lambda>ss. AString (concat ss)) (all_of text_of as)"

definition build_duration :: "attribute list \<Rightarrow> attribute option" where
  "build_duration as =
     (case as of
        [AText n, AText u] \<Rightarrow> map_option (\<lambda>v. ADuration (word_of_int (decimal n)) v) (unit_value u)
      | _ \<Rightarrow> None)"

definition build_literal :: "attribute list \<Rightarrow> attribute option" where
  "build_literal as =
     (case as of
        [AText b] \<Rightarrow> map_option (\<lambda>v. ALiteral (LBoolean v)) (boolean_value b)
      | [AString s] \<Rightarrow> Some (ALiteral (LString s))
      | [AInteger i] \<Rightarrow> Some (ALiteral (LInteger i))
      | [AReal r] \<Rightarrow> Some (ALiteral (LReal r))
      | [ADuration n u] \<Rightarrow> Some (ALiteral (LDuration n u))
      | _ \<Rightarrow> None)"

definition build_signature :: "located \<Rightarrow> attribute list \<Rightarrow> attribute option" where
  "build_signature l as =
     (case as of
        [] \<Rightarrow> Some (ASignature (Signature l [] None))
      | [ADeclarations ds] \<Rightarrow> Some (ASignature (Signature l ds None))
      | [AIdent r] \<Rightarrow> Some (ASignature (Signature l [] (Some r)))
      | [ADeclarations ds, AIdent r] \<Rightarrow> Some (ASignature (Signature l ds (Some r)))
      | _ \<Rightarrow> None)"

definition build_call :: "attribute list \<Rightarrow> attribute option" where
  "build_call as =
     (case as of
        APath p # rest \<Rightarrow> map_option (\<lambda>args. ACall (FunctionCall p args)) (all_of argument_of rest)
      | _ \<Rightarrow> None)"

definition build_primary :: "located \<Rightarrow> attribute list \<Rightarrow> attribute option" where
  "build_primary l as =
     (case as of
        [AAwait (e, d)] \<Rightarrow> Some (APrimary (PAwait e d))
      | [ATry e] \<Rightarrow> Some (APrimary (PTry e))
      | [ALiteral c] \<Rightarrow> Some (APrimary (PLiteral c))
      | [ACall c] \<Rightarrow> Some (APrimary (PCall c))
      | [APath p] \<Rightarrow> Some (APrimary (PPath (relocate_path l p)))
      | [AArray es] \<Rightarrow> Some (APrimary (PArray es))
      | [ADictionary es] \<Rightarrow> Some (APrimary (PDictionary es))
      | [AExpr e] \<Rightarrow> Some (APrimary (PExpression e))
      | _ \<Rightarrow> None)"

definition build_unary :: "attribute list \<Rightarrow> attribute option" where
  "build_unary as =
     (case as of
        [APrimary p] \<Rightarrow> Some (AUnary (Unary None p))
      | [AText s, APrimary p] \<Rightarrow> map_option (\<lambda>op. AUnary (Unary (Some op) p)) (unary_value s)
      | _ \<Rightarrow> None)"

definition build_condition :: "attribute list \<Rightarrow> attribute option" where
  "build_condition as =
     (case as of
        AExpr e # rest \<Rightarrow> map_option (\<lambda>ss. ACondition (ConditionBlock e ss)) (all_of statement_of rest)
      | _ \<Rightarrow> None)"

definition build_if :: "attribute list \<Rightarrow> attribute option" where
  "build_if as =
     (case as of
        ACondition c # rest \<Rightarrow>
          (case (all_of condition_of (takeWhile (\<lambda>a. condition_of a \<noteq> None) rest),
                 all_of statement_of (dropWhile (\<lambda>a. condition_of a \<noteq> None) rest)) of
             (Some cs, Some ss) \<Rightarrow> Some (AStatement (IfBlock c cs ss))
           | _ \<Rightarrow> None)
      | _ \<Rightarrow> None)"

definition build_definition :: "attribute list \<Rightarrow> attribute option" where
  "build_definition as =
     (case as of
        AIdent n # ASignature g # rest \<Rightarrow>
          map_option (\<lambda>ss. ADefinition (WorkflowDef n (Some g) ss)) (all_of statement_of rest)
      | AIdent n # rest \<Rightarrow> map_option (\<lambda>ss. ADefinition (WorkflowDef n None ss)) (all_of statement_of rest)
      | _ \<Rightarrow> None)"

definition build_statement :: "located \<Rightarrow> attribute list \<Rightarrow> attribute option" where
  "build_statement l as =
     (case as of
        [AStatement s] \<Rightarrow> Some (AStatement s)
      | [ADefinition d] \<Rightarrow> Some (AStatement (WorkflowStatement d))
      | [AExpr e] \<Rightarrow> Some (AStatement (ExpressionStatement (relocate_expression l e)))
      | _ \<Rightarrow> None)"

text \<open>The attribute of each rule, in the order of the members of its type.\<close>

fun build :: "(string \<Rightarrow> real64) \<Rightarrow> located \<Rightarrow> rule \<Rightarrow> attribute list \<Rightarrow> attribute option" where
  "build rv l R_block_comment as = Some (AText [])"
| "build rv l R_identifier as = (case as of [AText w] \<Rightarrow> Some (AIdent w) | _ \<Rightarrow> None)"
| "build rv l R_identifier_path as = build_path l as"
| "build rv l R_string as = build_string as"
| "build rv l R_integer as = (case as of [AText s] \<Rightarrow> Some (AInteger (word_of_int (int_value s))) | _ \<Rightarrow> None)"
| "build rv l R_real as = (case as of [AText s] \<Rightarrow> Some (AReal (rv s)) | _ \<Rightarrow> None)"
| "build rv l R_duration as = build_duration as"
| "build rv l R_literal as = build_literal as"
| "build rv l R_declaration as =
     (case as of [AIdent n, AIdent t] \<Rightarrow> Some (ADeclaration (n, t)) | _ \<Rightarrow> None)"
| "build rv l R_declaration_list as = map_option ADeclarations (all_of declaration_of as)"
| "build rv l R_signature as = build_signature l as"
| "build rv l R_assignment as = (case as of [AIdent n, AExpr e] \<Rightarrow> Some (AAssignment (n, e)) | _ \<Rightarrow> None)"
| "build rv l R_dictionary as = map_option ADictionary (all_of assignment_of as)"
| "build rv l R_array as = map_option AArray (all_of expr_of as)"
| "build rv l R_function_argument as =
     (case as of
        [AExpr e] \<Rightarrow> Some (AArgument (None, e))
      | [AIdent n, AExpr e] \<Rightarrow> Some (AArgument (Some n, e))
      | _ \<Rightarrow> None)"
| "build rv l R_function_call as = build_call as"
| "build rv l R_primary_expr as = build_primary l as"
| "build rv l R_unary_expr as = build_unary as"
| "build rv l R_multiplicative_expr as =
     map_option AMultiplicative (binary_of multiplicative_value unary_of as)"
| "build rv l R_additive_expr as = map_option AAdditive (binary_of additive_value multiplicative_of as)"
| "build rv l R_relational_expr as = map_option ARelational (binary_of relational_value additive_of as)"
| "build rv l R_equality_expr as = map_option AEquality (binary_of equality_value relational_of as)"
| "build rv l R_logical_expr as = map_option ALogical (binary_of logical_value equality_of as)"
| "build rv l R_expression as = (case as of [ALogical e] \<Rightarrow> Some (AExpr (Expression l e)) | _ \<Rightarrow> None)"
| "build rv l R_await_expression as = (case as of [AExpr e, AExpr d] \<Rightarrow> Some (AAwait (e, d)) | _ \<Rightarrow> None)"
| "build rv l R_try_expression as = (case as of [AExpr e] \<Rightarrow> Some (ATry e) | _ \<Rightarrow> None)"
| "build rv l R_import_statement as =
     (case as of [APath p] \<Rightarrow> Some (AStatement (ImportStatement p)) | _ \<Rightarrow> None)"
| "build rv l R_delay_statement as =
     (case as of [AExpr e] \<Rightarrow> Some (AStatement (DelayStatement e)) | _ \<Rightarrow> None)"
| "build rv l R_return_statement as =
     (case as of [AExpr e] \<Rightarrow> Some (AStatement (ReturnStatement e)) | _ \<Rightarrow> None)"
| "build rv l R_raise_statement as =
     (case as of [AExpr e] \<Rightarrow> Some (AStatement (RaiseStatement e)) | _ \<Rightarrow> None)"
| "build rv l R_break_statement as = Some (AStatement BreakStatement)"
| "build rv l R_variable_declaration as =
     (case as of
        [AIdent n, AIdent t] \<Rightarrow> Some (AStatement (VariableDeclaration n t None))
      | [AIdent n, AIdent t, AExpr e] \<Rightarrow> Some (AStatement (VariableDeclaration n t (Some e)))
      | _ \<Rightarrow> None)"
| "build rv l R_assignment_statement as =
     (case as of [APath p, AExpr e] \<Rightarrow> Some (AStatement (AssignmentStatement p e)) | _ \<Rightarrow> None)"
| "build rv l R_repeat_block as = map_option (\<lambda>ss. AStatement (RepeatBlock ss)) (all_of statement_of as)"
| "build rv l R_condition_block as = build_condition as"
| "build rv l R_if_block as = build_if as"
| "build rv l R_workflow_statement as = build_statement l as"
| "build rv l R_workflow_definition as = build_definition as"
| "build rv l R_program as = map_option AProgram (all_of statement_of as)"

text \<open>Positions are distances from the beginning of the text.\<close>

definition located_at :: "nat \<Rightarrow> nat \<Rightarrow> nat \<Rightarrow> located" where
  "located_at n a b = \<lparr>start_position = n - a, end_position = n - b\<rparr>"

fun attribute_of :: "(string \<Rightarrow> real64) \<Rightarrow> nat \<Rightarrow> rule tree \<Rightarrow> attribute option" where
  "attribute_of rv n (Token s) = Some (AText s)"
| "attribute_of rv n (Node x a b ts) =
     Option.bind (those (map (attribute_of rv n) ts)) (build rv (located_at n a b) x)"

section \<open>Every parse has an attribute\<close>

text \<open>The lists of parts that a grammar expression can leave; \<open>K x\<close> says what stands for a rule.\<close>

primrec lang :: "(rule \<Rightarrow> 'a \<Rightarrow> bool) \<Rightarrow> (string \<Rightarrow> 'a) \<Rightarrow> parser \<Rightarrow> 'a list set" where
  "lang K tx (Lit t) = {[]}"
| "lang K tx (Symbols ts) = {[tx t] |t. t \<in> set ts}"
| "lang K tx (OneOf c) = {[tx [x]] |x. True}"
| "lang K tx Eol = {[]}"
| "lang K tx Eoi = {[]}"
| "lang K tx (Num k) = {[tx s] |s. True}"
| "lang K tx (Seqn a b) = {xs @ ys |xs ys. xs \<in> lang K tx a \<and> ys \<in> lang K tx b}"
| "lang K tx (Expect a b) = {xs @ ys |xs ys. xs \<in> lang K tx a \<and> ys \<in> lang K tx b}"
| "lang K tx (Alt a b) = lang K tx a \<union> lang K tx b"
| "lang K tx (Except a b) = lang K tx a"
| "lang K tx (Star a) = {concat xss |xss. set xss \<subseteq> lang K tx a}"
| "lang K tx (Opt a) = insert [] (lang K tx a)"
| "lang K tx (Unless a) = {[]}"
| "lang K tx (Lexeme a) = lang K tx a"
| "lang K tx (NoSkip a) = lang K tx a"
| "lang K tx (Raw a) = {[tx s] |s. True}"
| "lang K tx (Call x) = {[a] |a. K x a}"

text \<open>The type each rule is declared with.\<close>

fun kind :: "rule \<Rightarrow> attribute \<Rightarrow> bool" where
  "kind R_block_comment a = (\<exists>s. a = AText s)"
| "kind R_identifier a = (\<exists>s. a = AIdent s)"
| "kind R_identifier_path a = (\<exists>p. a = APath p)"
| "kind R_string a = (\<exists>s. a = AString s)"
| "kind R_integer a = (\<exists>i. a = AInteger i)"
| "kind R_real a = (\<exists>r. a = AReal r)"
| "kind R_duration a = (\<exists>n u. a = ADuration n u)"
| "kind R_literal a = (\<exists>c. a = ALiteral c)"
| "kind R_declaration a = (\<exists>d. a = ADeclaration d)"
| "kind R_declaration_list a = (\<exists>ds. a = ADeclarations ds)"
| "kind R_signature a = (\<exists>g. a = ASignature g)"
| "kind R_assignment a = (\<exists>x. a = AAssignment x)"
| "kind R_dictionary a = (\<exists>xs. a = ADictionary xs)"
| "kind R_array a = (\<exists>es. a = AArray es)"
| "kind R_function_argument a = (\<exists>x. a = AArgument x)"
| "kind R_function_call a = (\<exists>c. a = ACall c)"
| "kind R_primary_expr a = (\<exists>p. a = APrimary p)"
| "kind R_unary_expr a = (\<exists>e. a = AUnary e)"
| "kind R_multiplicative_expr a = (\<exists>e. a = AMultiplicative e)"
| "kind R_additive_expr a = (\<exists>e. a = AAdditive e)"
| "kind R_relational_expr a = (\<exists>e. a = ARelational e)"
| "kind R_equality_expr a = (\<exists>e. a = AEquality e)"
| "kind R_logical_expr a = (\<exists>e. a = ALogical e)"
| "kind R_expression a = (\<exists>e. a = AExpr e)"
| "kind R_await_expression a = (\<exists>e d. a = AAwait (e, d))"
| "kind R_try_expression a = (\<exists>e. a = ATry e)"
| "kind R_condition_block a = (\<exists>c. a = ACondition c)"
| "kind R_workflow_definition a = (\<exists>d. a = ADefinition d)"
| "kind R_program a = (\<exists>p. a = AProgram p)"
| "kind _ a = (\<exists>s. a = AStatement s)"

declare lang.simps(11) [simp del]

lemma lang_star_of:
  assumes "lang K tx p = {[a] |a. Q a}"
  shows "lang K tx (Star p) = {as. list_all Q as}"
proof -
  have "list_all Q (concat xss)" if "set xss \<subseteq> {[a] |a. Q a}" for xss
    using that by (induction xss) auto
  moreover have "\<exists>xss. as = concat xss \<and> set xss \<subseteq> {[a] |a. Q a}" if "list_all Q as" for as
    using that by (intro exI [of _ "map (\<lambda>a. [a]) as"]) (auto simp: list_all_iff)
  ultimately show ?thesis unfolding lang.simps assms by blast
qed

lemma lang_lit: "lang K tx (Seqn (Lit t) p) = lang K tx p" "lang K tx (Seqn p (Lit t)) = lang K tx p"
  "lang K tx (Expect (Lit t) p) = lang K tx p" "lang K tx (Expect p (Lit t)) = lang K tx p"
  by auto

lemma lang_star:
  "lang K tx (Star (Call x)) = {as. list_all (K x) as}"
  "lang K tx (Star (Seqn (Lit t) (Call x))) = {as. list_all (K x) as}"
  "lang K tx (Star (Except (OneOf c) p)) = {as. list_all (\<lambda>a. \<exists>z. a = tx [z]) as}"
proof -
  show "lang K tx (Star (Call x)) = {as. list_all (K x) as}" by (rule lang_star_of) simp
  show "lang K tx (Star (Seqn (Lit t) (Call x))) = {as. list_all (K x) as}" by (rule lang_star_of) auto
  show "lang K tx (Star (Except (OneOf c) p)) = {as. list_all (\<lambda>a. \<exists>z. a = tx [z]) as}"
    by (rule lang_star_of) auto
qed

lemma lang_star_nothing: "lang K tx (Star (Lexeme (Lit t))) = {[]}"
proof -
  have "concat xss = []" if "set xss \<subseteq> {[]}" for xss :: "'a list list"
    using that by (induction xss) auto
  then show ?thesis by (auto simp: lang.simps(11) intro!: exI [of _ "[]"])
qed

lemma all_of_total:
  assumes "list_all Q as" and "\<And>a. Q a \<Longrightarrow> \<exists>v. f a = Some v"
  shows "\<exists>vs. all_of f as = Some vs"
  using assms(1)
proof (induction as)
  case (Cons a as)
  with assms(2) [of a] show ?case by (auto simp: all_of_def)
qed (simp add: all_of_def)

lemma operations_total:
  assumes "as \<in> lang K AText (Star (Expect (Symbols ts) (Call x)))"
    and "\<And>t. t \<in> set ts \<Longrightarrow> \<exists>v. opv t = Some v" and "\<And>a. K x a \<Longrightarrow> \<exists>v. term a = Some v"
  shows "\<exists>ops. operations_of opv term as = Some ops"
proof -
  have "lang K AText (Expect (Symbols ts) (Call x)) = {[AText t, a] |t a. t \<in> set ts \<and> K x a}"
    by (auto; metis append_Cons append_Nil)
  then obtain xss where as: "as = concat xss" "set xss \<subseteq> {[AText t, a] |t a. t \<in> set ts \<and> K x a}"
    using assms(1) by (auto simp only: lang.simps(11))
  have "\<exists>ops. operations_of opv term (concat xss) = Some ops"
    using as(2)
  proof (induction xss)
    case (Cons xs xss)
    then obtain t a ops where "xs = [AText t, a]" "t \<in> set ts" "K x a" "operations_of opv term (concat xss) = Some ops"
      by auto
    with assms(2) [of t] assms(3) [of a] show ?case by auto
  qed simp
  with as(1) show ?thesis by simp
qed

lemma binary_total:
  assumes "as \<in> lang K AText (Seqn (Call x) (Star (Expect (Symbols ts) (Call x))))"
    and "\<And>t. t \<in> set ts \<Longrightarrow> \<exists>v. opv t = Some v" and "\<And>a. K x a \<Longrightarrow> \<exists>v. term a = Some v"
  obtains e where "binary_of opv term as = Some e"
proof -
  obtain a rest where "as = a # rest" "K x a" "rest \<in> lang K AText (Star (Expect (Symbols ts) (Call x)))"
    using assms(1) by auto
  moreover obtain ops where "operations_of opv term rest = Some ops"
    using operations_total [of rest K ts x opv "term"] calculation(3) assms(2,3) by blast
  moreover obtain v where "term a = Some v" using assms(3) calculation(2) by blast
  ultimately show thesis using that by (simp add: binary_of_def)
qed

lemmas grammar_lang = grammar_defs lang_lit lang_star lang_star_nothing

lemmas build_defs = build_path_def build_string_def build_duration_def build_literal_def build_signature_def
  build_call_def build_primary_def build_unary_def build_condition_def build_if_def build_definition_def
  build_statement_def

lemma build_plain_rules:
  assumes "as \<in> lang kind AText (rule_def x)"
    and "x \<in> {R_block_comment, R_identifier, R_integer, R_real, R_duration, R_literal, R_declaration, R_signature,
      R_assignment, R_function_argument, R_primary_expr, R_unary_expr, R_expression, R_await_expression, R_try_expression,
      R_import_statement, R_variable_declaration, R_assignment_statement, R_workflow_statement, R_delay_statement,
      R_return_statement, R_raise_statement, R_break_statement}"
  shows "\<exists>a. build rv l x as = Some a \<and> kind x a"
  using assms
  by (elim insertE emptyE) (auto simp: grammar_lang build_defs unit_value_def boolean_value_def unary_value_def)

text \<open>The parts of each kind of list.\<close>

lemma parts_total:
  "list_all (kind R_identifier) as \<Longrightarrow> \<exists>v. all_of ident_of as = Some v"
  "list_all (kind R_declaration) as \<Longrightarrow> \<exists>v. all_of declaration_of as = Some v"
  "list_all (kind R_assignment) as \<Longrightarrow> \<exists>v. all_of assignment_of as = Some v"
  "list_all (kind R_expression) as \<Longrightarrow> \<exists>v. all_of expr_of as = Some v"
  "list_all (kind R_function_argument) as \<Longrightarrow> \<exists>v. all_of argument_of as = Some v"
  "list_all (kind R_condition_block) as \<Longrightarrow> \<exists>v. all_of condition_of as = Some v"
  "list_all (kind R_workflow_statement) as \<Longrightarrow> \<exists>v. all_of statement_of as = Some v"
  "list_all (\<lambda>a. \<exists>z. a = AText [z]) as \<Longrightarrow> \<exists>v. all_of text_of as = Some v"
  by (erule all_of_total, auto)+

lemma build_list_rules:
  assumes "as \<in> lang kind AText (rule_def x)"
    and "x \<in> {R_identifier_path, R_string, R_declaration_list, R_dictionary, R_array, R_function_call, R_repeat_block,
      R_condition_block, R_program}"
  shows "\<exists>a. build rv l x as = Some a \<and> kind x a"
proof -
  have one: "list_all Q as" if "as = [] \<or> (\<exists>a bs. as = a # bs \<and> Q a \<and> list_all Q bs)" for Q
    using that by auto
  from assms show ?thesis
  proof (elim insertE emptyE)
    assume "x = R_identifier_path"
    moreover from this assms(1) have "list_all (kind R_identifier) as" by (auto simp: grammar_lang)
    ultimately show ?thesis using parts_total(1) [of as] by (auto simp: build_path_def)
  next
    assume "x = R_string"
    moreover from this assms(1) have "list_all (\<lambda>a. \<exists>z. a = AText [z]) as" by (auto simp: grammar_lang)
    ultimately show ?thesis using parts_total(8) [of as] by (auto simp: build_string_def)
  next
    assume "x = R_declaration_list"
    moreover from this assms(1) have "list_all (kind R_declaration) as" by (auto simp: grammar_lang)
    ultimately show ?thesis using parts_total(2) [of as] by auto
  next
    assume "x = R_dictionary"
    moreover from this assms(1) have "list_all (kind R_assignment) as" by (auto simp: grammar_lang)
    ultimately show ?thesis using parts_total(3) [of as] by auto
  next
    assume "x = R_array"
    moreover from this assms(1) have "list_all (kind R_expression) as" by (auto simp: grammar_lang)
    ultimately show ?thesis using parts_total(4) [of as] by auto
  next
    assume x: "x = R_function_call"
    then obtain p rest where as: "as = APath p # rest" "list_all (kind R_function_argument) rest"
      using assms(1) by (auto simp: grammar_lang)
    with x show ?thesis using parts_total(5) [of rest] by (auto simp: build_call_def)
  next
    assume x: "x = R_repeat_block"
    then have "list_all (kind R_workflow_statement) as" using assms(1) by (auto simp: grammar_lang)
    with x show ?thesis using parts_total(7) [of as] by auto
  next
    assume x: "x = R_condition_block"
    then obtain e rest where "as = AExpr e # rest" "list_all (kind R_workflow_statement) rest"
      using assms(1) by (auto simp: grammar_lang)
    with x show ?thesis using parts_total(7) [of rest] by (auto simp: build_condition_def)
  next
    assume x: "x = R_program"
    then have "list_all (kind R_workflow_statement) as" using assms(1) by (auto simp: grammar_lang)
    with x show ?thesis using parts_total(7) [of as] by auto
  qed
qed

lemma build_if_total:
  assumes "as \<in> lang kind AText (rule_def R_if_block)"
  shows "\<exists>s. build_if as = Some (AStatement s)"
proof -
  have "lang kind AText (rule_def R_if_block) = {ACondition c # cs @ ss |c cs ss.
      list_all (kind R_condition_block) cs \<and> list_all (kind R_workflow_statement) ss}" (is "?L = ?R")
  proof -
    have "?L = {[ACondition c] @ cs @ ss |c cs ss. list_all (kind R_condition_block) cs \<and>
        (ss = [] \<or> list_all (kind R_workflow_statement) ss)}"
      by (simp add: grammar_lang) (rule Collect_cong; metis append_assoc append_Cons append_Nil)
    moreover have "ss = [] \<or> list_all (kind R_workflow_statement) ss \<longleftrightarrow> list_all (kind R_workflow_statement) ss" for ss
      by auto
    ultimately show ?thesis by simp
  qed
  with assms obtain c cs ss where as: "as = ACondition c # cs @ ss" "list_all (kind R_condition_block) cs"
    "list_all (kind R_workflow_statement) ss" by blast
  have "takeWhile (\<lambda>a. condition_of a \<noteq> None) (cs @ ss) = cs \<and> dropWhile (\<lambda>a. condition_of a \<noteq> None) (cs @ ss) = ss"
  proof -
    have "takeWhile (\<lambda>a. condition_of a \<noteq> None) ss = [] \<and> dropWhile (\<lambda>a. condition_of a \<noteq> None) ss = ss"
      using as(3) by (cases ss) auto
    moreover have "\<forall>a \<in> set cs. condition_of a \<noteq> None" using as(2) by (auto simp: list_all_iff)
    ultimately show ?thesis by (simp add: takeWhile_append dropWhile_append)
  qed
  with as(1) show ?thesis using parts_total(6) [OF as(2)] parts_total(7) [OF as(3)] by (auto simp: build_if_def)
qed

lemma build_definition_total:
  assumes "as \<in> lang kind AText (rule_def R_workflow_definition)"
  shows "\<exists>d. build_definition as = Some (ADefinition d)"
proof -
  obtain n g ss where as: "as = AIdent n # g @ ss" "g = [] \<or> (\<exists>s. g = [ASignature s])"
    "list_all (kind R_workflow_statement) ss"
    using assms by (simp add: grammar_lang) (metis append_Cons append_Nil)
  obtain v where v: "all_of statement_of ss = Some v" using parts_total(7) [OF as(3)] by blast
  from as(2) show ?thesis
  proof
    assume "g = []"
    with as(1,3) v show ?thesis by (cases ss) (auto simp: build_definition_def)
  next
    assume "\<exists>s. g = [ASignature s]"
    with as(1) v show ?thesis by (auto simp: build_definition_def)
  qed
qed

lemma build_binary_rules:
  assumes "as \<in> lang kind AText (rule_def x)"
    and "x \<in> {R_multiplicative_expr, R_additive_expr, R_relational_expr, R_equality_expr, R_logical_expr}"
  shows "\<exists>a. build rv l x as = Some a \<and> kind x a"
  using assms
proof (elim insertE emptyE)
  assume x: "x = R_multiplicative_expr"
  have "\<exists>e. binary_of multiplicative_value unary_of as = Some e"
    by (rule binary_total [of as kind R_unary_expr "[''*'', ''/'']" multiplicative_value unary_of])
      (use assms(1) x in \<open>auto simp: multiplicative_expr_rhs_def multiplicative_op_def multiplicative_value_def simp del: lang.simps\<close>)
  with x show ?thesis by auto
next
  assume x: "x = R_additive_expr"
  have "\<exists>e. binary_of additive_value multiplicative_of as = Some e"
    by (rule binary_total [of as kind R_multiplicative_expr "[''+'', ''-'']" additive_value multiplicative_of])
      (use assms(1) x in \<open>auto simp: additive_expr_rhs_def additive_op_def additive_value_def simp del: lang.simps\<close>)
  with x show ?thesis by auto
next
  assume x: "x = R_relational_expr"
  have "\<exists>e. binary_of relational_value additive_of as = Some e"
    by (rule binary_total [of as kind R_additive_expr "[''<'', ''<='', ''>'', ''>='']" relational_value additive_of])
      (use assms(1) x in \<open>auto simp: relational_expr_rhs_def relational_op_def relational_value_def simp del: lang.simps\<close>)
  with x show ?thesis by auto
next
  assume x: "x = R_equality_expr"
  have "\<exists>e. binary_of equality_value relational_of as = Some e"
    by (rule binary_total [of as kind R_relational_expr "[''=='', ''!='', ''in'', ''is'']" equality_value relational_of])
      (use assms(1) x in \<open>auto simp: equality_expr_rhs_def equality_op_def equality_value_def simp del: lang.simps\<close>)
  with x show ?thesis by auto
next
  assume x: "x = R_logical_expr"
  have "\<exists>e. binary_of logical_value equality_of as = Some e"
    by (rule binary_total [of as kind R_equality_expr "[''and'', ''or'']" logical_value equality_of])
      (use assms(1) x in \<open>auto simp: logical_expr_rhs_def logical_op_def logical_value_def simp del: lang.simps\<close>)
  with x show ?thesis by auto
qed

lemma build_total:
  assumes "as \<in> lang kind AText (rule_def x)"
  shows "\<exists>a. build rv l x as = Some a \<and> kind x a"
proof (cases x)
  case R_if_block
  with build_if_total [of as] assms show ?thesis by auto
next
  case R_workflow_definition
  with build_definition_total [of as] assms show ?thesis by auto
qed (use build_plain_rules [OF assms] build_list_rules [OF assms] build_binary_rules [OF assms] in simp)+

end
