(* ===== verification/Flow_Shape.thy ===== *)
theory Flow_Shape
  imports Flow_Syntax
begin

text \<open>
  Every parse of the grammar leaves, rule by rule, the parts the attribute of the rule is built
  from, so every parse has an attribute of the declared type.
\<close>

section \<open>The shape of a parse\<close>

fun is_node :: "rule \<Rightarrow> rule tree \<Rightarrow> bool" where
  "is_node x (Token s) = False"
| "is_node x (Node y a b ts) = (x = y)"

fun shaped :: "rule tree \<Rightarrow> bool" where
  "shaped (Token s) = True"
| "shaped (Node x a b ts) = (ts \<in> lang is_node Token (rule_def x) \<and> list_all shaped ts)"

lemma lang_map:
  assumes "ts \<in> lang K tx p" and "\<And>t x. t \<in> set ts \<Longrightarrow> K x t \<Longrightarrow> L x (f t)" and "\<And>s. f (tx s) = ty s"
  shows "map f ts \<in> lang L ty p"
  using assms(1,2)
proof (induction p arbitrary: ts)
  case (Seqn p q)
  then show ?case by (fastforce)
next
  case (Expect p q)
  then show ?case by (fastforce)
next
  case (Star p)
  then obtain xss where xss: "ts = concat xss" "set xss \<subseteq> lang K tx p" by (auto simp: lang.simps(11))
  have "map f xs \<in> lang L ty p" if "xs \<in> set xss" for xs
    by (intro Star.IH Star.prems(2)) (use that xss in auto)
  then have "set (map (map f) xss) \<subseteq> lang L ty p" by auto
  moreover have "map f ts = concat (map (map f) xss)" using xss(1) by (simp add: map_concat)
  ultimately show ?case unfolding lang.simps(11) by blast
qed (use assms(3) in auto)

section \<open>Every run leaves a shaped tree\<close>

fun shaped_as :: "parser \<Rightarrow> rule parse_outcome \<Rightarrow> bool" where
  "shaped_as p (Match ts r) = (ts \<in> lang is_node Token p \<and> list_all shaped ts)"
| "shaped_as p _ = True"

lemma lang_star_unfold: "xs \<in> lang K tx p \<Longrightarrow> ys \<in> lang K tx (Star p) \<Longrightarrow> xs @ ys \<in> lang K tx (Star p)"
  "[] \<in> lang K tx (Star p)"
proof -
  assume "xs \<in> lang K tx p" and "ys \<in> lang K tx (Star p)"
  then obtain yss where "ys = concat yss" "set yss \<subseteq> lang K tx p" by (auto simp: lang.simps(11))
  with \<open>xs \<in> lang K tx p\<close> have "xs @ ys = concat (xs # yss) \<and> set (xs # yss) \<subseteq> lang K tx p" by simp
  then show "xs @ ys \<in> lang K tx (Star p)" unfolding lang.simps(11) by blast
qed (auto simp: lang.simps(11) intro!: exI [of _ "[]"])

lemma shaped_primitive: "shaped_as p (primitive lx p s)"
  by (cases "(lx, p, s)" rule: primitive.cases)
    (auto split: option.split list.split dest: longest_Some)

lemma shaped_after_skip: "after q (\<lambda>ts r v. v = primitive lx p r) (\<lambda>r v. v = NoMatch r) v \<Longrightarrow> shaped_as p v"
  using shaped_primitive [of p lx] by (cases q) auto

lemma run_shaped: "x3_run lx rule_def sk n m p s = Some v \<Longrightarrow> shaped_as p v"
proof (induction n arbitrary: m p s v)
  case (Suc n)
  let ?R = "\<lambda>m p s v. x3_run lx rule_def sk n m p s = Some v"
  have step: "x3_step lx rule_def sk ?R m p s v"
    using Suc.prems by (simp only: x3_run.simps run_step_iff)
  note IH = Suc.IH
  show ?case
  proof (cases p)
    case (Seqn a b)
    with step obtain q where q: "?R m a s q"
      "after q (\<lambda>ts r v. \<exists>u. ?R m b r u \<and> v = continued ts s u) (\<lambda>r v. v = NoMatch s) v" by auto
    show ?thesis
    proof (cases q)
      case (Match ts r)
      with q obtain u where u: "?R m b r u" "v = continued ts s u" by auto
      with IH [OF q(1)] IH [OF u(1)] Seqn Match show ?thesis by (cases u) auto
    qed (use q in auto)
  next
    case (Expect a b)
    with step obtain q where q: "?R m a s q"
      "after q (\<lambda>ts r v. \<exists>u. ?R m b r u \<and> v = expected ts u) (\<lambda>r v. v = NoMatch s) v" by auto
    show ?thesis
    proof (cases q)
      case (Match ts r)
      with q obtain u where u: "?R m b r u" "v = expected ts u" by auto
      with IH [OF q(1)] IH [OF u(1)] Expect Match show ?thesis by (cases u) auto
    qed (use q in auto)
  next
    case (Star a)
    with step obtain q where q: "?R m a s q"
      "after q (\<lambda>ts r v. \<exists>u. ?R m (Star a) r u \<and> v = continued ts s u) (\<lambda>r v. v = Match [] r) v" by auto
    show ?thesis
    proof (cases q)
      case (Match ts r)
      with q obtain u where u: "?R m (Star a) r u" "v = continued ts s u" by auto
      with IH [OF q(1)] IH [OF u(1)] Star Match show ?thesis by (cases u) (auto intro: lang_star_unfold)
    qed (use q Star in \<open>auto intro: lang_star_unfold\<close>)
  next
    case (Alt a b)
    with step obtain q where q: "?R m a s q"
      "after q (\<lambda>ts r v. v = Match ts r) (\<lambda>r v. ?R m b r v) v" by auto
    show ?thesis
    proof (cases q)
      case (NoMatch r)
      with q have "?R m b r v" by simp
      from IH [OF this] Alt show ?thesis by (cases v) auto
    qed (use q IH [OF q(1)] Alt in auto)
  next
    case (Except a b)
    with step obtain q where q: "?R m b s q"
      "after q (\<lambda>ts r v. v = NoMatch s) (\<lambda>r v. ?R m a r v) v" by auto
    show ?thesis
    proof (cases q)
      case (NoMatch r)
      with q have "?R m a r v" by simp
      from IH [OF this] Except show ?thesis by (cases v) auto
    qed (use q in auto)
  next
    case (Opt a)
    with step obtain q where q: "?R m a s q"
      "after q (\<lambda>ts r v. v = Match ts r) (\<lambda>r v. v = Match [] r) v" by auto
    with IH [OF q(1)] Opt show ?thesis by (cases q) auto
  next
    case (Unless a)
    with step obtain q where "after q (\<lambda>ts r v. v = NoMatch s) (\<lambda>r v. v = Match [] s) v" by auto
    with Unless show ?thesis by (cases q) auto
  next
    case (Lexeme a)
    with step obtain q where q: "after q (\<lambda>ts r v. ?R False a r v) (\<lambda>r v. v = NoMatch r) v" by auto
    show ?thesis
    proof (cases q)
      case (Match ts r)
      with q have "?R False a r v" by simp
      from IH [OF this] Lexeme show ?thesis by (cases v) auto
    qed (use q in auto)
  next
    case (NoSkip a)
    with step have "?R False a s v" by simp
    from IH [OF this] NoSkip show ?thesis by (cases v) auto
  next
    case (Raw a)
    with step obtain q where q: "after q
        (\<lambda>ts r v. \<exists>u. ?R m a r u \<and>
           after u (\<lambda>us t w. w = Match [Token (take (length r - length t) r)] t) (\<lambda>t w. w = NoMatch r) v)
        (\<lambda>r v. v = NoMatch r) v" by auto
    show ?thesis
    proof (cases q)
      case (Match ts r)
      with q obtain u where
        "after u (\<lambda>us t w. w = Match [Token (take (length r - length t) r)] t) (\<lambda>t w. w = NoMatch r) v" by auto
      with Raw show ?thesis by (cases u) auto
    qed (use q in auto)
  next
    case (Call x)
    with step obtain q where q: "?R m (rule_def x) s q" "after q
        (\<lambda>ts r v. \<exists>u. pre_skip ?R sk m s u \<and>
           after u (\<lambda>us t w. w = Match [Node x (length t) (length r) ts] r) (\<lambda>t w. w = NoMatch s) v)
        (\<lambda>r v. v = NoMatch s) v" by auto
    show ?thesis
    proof (cases q)
      case (Match ts r)
      with q(2) obtain u where
        "after u (\<lambda>us t w. w = Match [Node x (length t) (length r) ts] r) (\<lambda>t w. w = NoMatch s) v" by auto
      with IH [OF q(1)] Match Call show ?thesis by (cases u) auto
    qed (use q in auto)
  qed (use step in \<open>auto dest: shaped_after_skip simp del: primitive.simps\<close>)
qed simp

lemma match_shaped:
  assumes laws: "x3_laws lx rule_def skipper px" and num: "numbers_laws lx"
    and match: "px m (Call x) s (Match ts r)"
  shows "\<exists>a b us. ts = [Node x a b us] \<and> shaped (Node x a b us)"
proof -
  obtain n where n: "x3_run lx rule_def skipper n m (Call x) s = Some (Match ts r)"
    using call_runs [OF laws num match] ..
  from run_shaped [OF n] have "\<exists>t. ts = [t] \<and> is_node x t \<and> shaped t" by auto
  then obtain t where "ts = [t]" "is_node x t" "shaped t" by blast
  then show ?thesis by (cases t) auto
qed

section \<open>The attribute of a parse\<close>

lemma attribute_total:
  "shaped t \<Longrightarrow> \<exists>a. attribute_of rv n t = Some a \<and> (\<forall>x. is_node x t \<longrightarrow> kind x a)"
proof (induction n t rule: positioned.induct)
  case (2 n x a b ts)
  define f where "f t = the (attribute_of rv n t)" for t
  have parts: "attribute_of rv n t = Some (f t) \<and> (\<forall>x. is_node x t \<longrightarrow> kind x (f t))" if "t \<in> set ts" for t
  proof -
    have "shaped t" using 2(2) that by (simp add: list_all_iff)
    from 2(1) [OF that this] show ?thesis unfolding f_def by force
  qed
  then have "those (map (attribute_of rv n) ts) = Some (map f ts)"
    by (induction ts) auto
  moreover have "map f ts \<in> lang kind AText (rule_def x)"
    by (rule lang_map [where K = is_node and tx = Token]) (use 2(2) parts in \<open>auto simp: f_def simp del: lang.simps\<close>)
  ultimately show ?case using build_total [of "map f ts" x rv "located_at n a b"] by auto
qed simp

end
