(* ===== verification/Flow_Names.thy ===== *)
theory Flow_Names
  imports Flow_Positions
begin

text \<open>
  The identifiers of a parse: every node of the rule identifier holds one token, an unreserved word
  that occurs in the text.
\<close>

definition identifier_in :: "string \<Rightarrow> string \<Rightarrow> bool" where
  "identifier_in text w \<longleftrightarrow> starts word_start w \<and> list_all word_char w \<and> sublist w text \<and>
     (\<forall>k \<in> set keyword_list. \<forall>d. w = k @ d \<longrightarrow> d \<noteq> [] \<and> \<not> starts is_digit d)"

fun named :: "(string \<Rightarrow> bool) \<Rightarrow> rule tree \<Rightarrow> bool" where
  "named nam (Token s) = True"
| "named nam (Node x a b ts) = ((x = R_identifier \<longrightarrow> (\<exists>w. ts = [Token w] \<and> nam w)) \<and> list_all (named nam) ts)"

lemma named_mono: "named P t \<Longrightarrow> (\<And>w. P w \<Longrightarrow> Q w) \<Longrightarrow> named Q t"
  by (induction P t rule: named.induct) (auto simp: list_all_iff)

lemma identifier_in_suffix: "identifier_in t w \<Longrightarrow> suffix t s \<Longrightarrow> identifier_in s w"
  unfolding identifier_in_def by (meson suffix_imp_sublist sublist_order.order.trans)

lemma named_suffix:
  "list_all (named (identifier_in t)) ts \<Longrightarrow> suffix t s \<Longrightarrow> list_all (named (identifier_in s)) ts"
  unfolding list_all_iff
  by (blast intro: named_mono [of "identifier_in t" _ "identifier_in s"] identifier_in_suffix)

lemma identifier_word:
  assumes laws: "x3_laws lx rule_def skipper px" and num: "numbers_laws lx"
    and match: "px m (Call R_identifier) s (Match [Node R_identifier a b us] r)"
  shows "\<exists>w. us = [Token w] \<and> identifier_in s w"
proof -
  obtain vs t where t: "pre_skip px skipper m s (Match vs t)" "suffix t s"
    using skip_facts(1) [OF laws num] by blast
  have on: "pre_skip px skipper m s = (\<lambda>out. out = Match vs t)"
    using skip_facts(2) [OF laws num t(1)] t(1) by blast
  have again: "pre_skip px skipper m t = (\<lambda>out. out = Match [] t)"
    using skip_facts(3) [OF laws num t(1)] skip_facts(2) [OF laws num skip_facts(3) [OF laws num t(1)]] by blast
  have "Match [Node R_identifier a b us] r = (if starts word_start t \<and> \<not> rejected_word t
     then Match [Node R_identifier (length t) (length (dropWhile word_char t)) [Token (takeWhile word_char t)]]
            (dropWhile word_char t)
     else NoMatch s)"
    by (rule iffD1 [OF evaluates_unique [OF identifier_after_skip [OF laws on again]] match])
  then have w: "us = [Token (takeWhile word_char t)]" "starts word_start t" "\<not> rejected_word t"
    by (auto split: if_splits)
  have "\<not> (\<exists>k \<in> set keyword_list. \<exists>d. takeWhile word_char t = k @ d \<and> (d = [] \<or> starts is_digit d))"
    using w(2,3) rejected_word_iff [of t] by blast
  moreover have "starts word_start (takeWhile word_char t)"
    using w(2) by (cases t) (auto simp: word_start_char)
  moreover have "sublist (takeWhile word_char t) t"
    by (rule prefix_imp_sublist) (rule takeWhile_is_prefix)
  ultimately have "identifier_in t (takeWhile word_char t)"
    by (auto simp: identifier_in_def list_all_iff dest: set_takeWhileD)
  with w(1) identifier_in_suffix [OF _ t(2)] show ?thesis by blast
qed

section \<open>Every run\<close>

fun names_from :: "string \<Rightarrow> rule parse_outcome \<Rightarrow> bool" where
  "names_from s (Match ts r) = (suffix r s \<and> list_all (named (identifier_in s)) ts)"
| "names_from s (NoMatch r) = suffix r s"
| "names_from s (Expectation e) = True"

lemma names_from_later:
  "names_from r v \<Longrightarrow> suffix r s \<Longrightarrow> names_from s v"
  by (cases v) (auto intro: named_suffix)

lemma names_continued:
  "list_all (named (identifier_in s)) ts \<Longrightarrow> names_from s v \<Longrightarrow> names_from s (continued ts s v)"
  "list_all (named (identifier_in s)) ts \<Longrightarrow> names_from s v \<Longrightarrow> names_from s (expected ts v)"
  by (cases v; simp)+

lemma names_primitive: "names_from s (primitive lx p s)"
  by (cases "(lx, p, s)" rule: primitive.cases)
    (auto split: option.split list.split intro: suffix_drop suffix_ConsI)

lemma names_after:
  assumes "names_from s q" and "after q f g v"
    and "\<And>ts r. q = Match ts r \<Longrightarrow> list_all (named (identifier_in s)) ts \<Longrightarrow> suffix r s \<Longrightarrow> f ts r v \<Longrightarrow> names_from s v"
    and "\<And>r. q = NoMatch r \<Longrightarrow> suffix r s \<Longrightarrow> g r v \<Longrightarrow> names_from s v"
  shows "names_from s v"
  using assms by (cases q) auto

lemma run_names:
  assumes laws: "x3_laws lx rule_def skipper px" and num: "numbers_laws lx"
  shows "x3_run lx rule_def skipper n m p s = Some v \<Longrightarrow> names_from s v"
proof (induction n arbitrary: m p s v)
  case (Suc n)
  let ?R = "\<lambda>m p s v. x3_run lx rule_def skipper n m p s = Some v"
  have step: "x3_step lx rule_def skipper ?R m p s v"
    using Suc.prems by (simp only: x3_run.simps run_step_iff)
  note IH = Suc.IH
  have skip: "names_from s q" if "pre_skip ?R skipper m s q" for q
    using that IH by (auto simp: pre_skip_def split: if_splits)
  have later: "names_from s u" if "?R m b r u" "suffix r s" for m b r u
    by (rule names_from_later [OF IH [OF that(1)] that(2)])
  show ?case
  proof (cases p)
    case (Seqn a b)
    with step obtain q where q: "?R m a s q"
      "after q (\<lambda>ts r v. \<exists>u. ?R m b r u \<and> v = continued ts s u) (\<lambda>r v. v = NoMatch s) v" by auto
    show ?thesis
      by (rule names_after [OF IH [OF q(1)] q(2)]) (auto intro: names_continued later)
  next
    case (Expect a b)
    with step obtain q where q: "?R m a s q"
      "after q (\<lambda>ts r v. \<exists>u. ?R m b r u \<and> v = expected ts u) (\<lambda>r v. v = NoMatch s) v" by auto
    show ?thesis
      by (rule names_after [OF IH [OF q(1)] q(2)]) (auto intro: names_continued later)
  next
    case (Star a)
    with step obtain q where q: "?R m a s q"
      "after q (\<lambda>ts r v. \<exists>u. ?R m (Star a) r u \<and> v = continued ts s u) (\<lambda>r v. v = Match [] r) v" by auto
    show ?thesis
      by (rule names_after [OF IH [OF q(1)] q(2)]) (auto intro: names_continued later)
  next
    case (Alt a b)
    with step obtain q where q: "?R m a s q"
      "after q (\<lambda>ts r v. v = Match ts r) (\<lambda>r v. ?R m b r v) v" by auto
    show ?thesis by (rule names_after [OF IH [OF q(1)] q(2)]) (auto intro: later)
  next
    case (Except a b)
    with step obtain q where q: "?R m b s q"
      "after q (\<lambda>ts r v. v = NoMatch s) (\<lambda>r v. ?R m a r v) v" by auto
    show ?thesis by (rule names_after [OF IH [OF q(1)] q(2)]) (auto intro: later)
  next
    case (Opt a)
    with step obtain q where q: "?R m a s q"
      "after q (\<lambda>ts r v. v = Match ts r) (\<lambda>r v. v = Match [] r) v" by auto
    show ?thesis by (rule names_after [OF IH [OF q(1)] q(2)]) auto
  next
    case (Unless a)
    with step obtain q where q: "?R m a s q"
      "after q (\<lambda>ts r v. v = NoMatch s) (\<lambda>r v. v = Match [] s) v" by auto
    show ?thesis by (rule names_after [OF IH [OF q(1)] q(2)]) auto
  next
    case (Lexeme a)
    with step obtain q where q: "pre_skip ?R skipper m s q"
      "after q (\<lambda>ts r v. ?R False a r v) (\<lambda>r v. v = NoMatch r) v" by auto
    show ?thesis by (rule names_after [OF skip [OF q(1)] q(2)]) (auto intro: later)
  next
    case (NoSkip a)
    with step show ?thesis by (auto intro: IH)
  next
    case (Raw a)
    with step obtain q where q: "pre_skip ?R skipper m s q" "after q
        (\<lambda>ts r v. \<exists>u. ?R m a r u \<and>
           after u (\<lambda>us t w. w = Match [Token (take (length r - length t) r)] t) (\<lambda>t w. w = NoMatch r) v)
        (\<lambda>r v. v = NoMatch r) v" by auto
    show ?thesis
    proof (rule names_after [OF skip [OF q(1)] q(2)])
      fix ts r
      assume "suffix r s" and "\<exists>u. ?R m a r u \<and>
           after u (\<lambda>us t w. w = Match [Token (take (length r - length t) r)] t) (\<lambda>t w. w = NoMatch r) v"
      then obtain u where u: "?R m a r u" "suffix r s"
           "after u (\<lambda>us t w. w = Match [Token (take (length r - length t) r)] t) (\<lambda>t w. w = NoMatch r) v" by blast
      show "names_from s v" by (rule names_after [OF later [OF u(1,2)] u(3)]) (auto intro: u(2))
    qed simp
  next
    case (Call x)
    with step obtain q where q: "?R m (rule_def x) s q" "after q
        (\<lambda>ts r v. \<exists>u. pre_skip ?R skipper m s u \<and>
           after u (\<lambda>us t w. w = Match [Node x (length t) (length r) ts] r) (\<lambda>t w. w = NoMatch s) v)
        (\<lambda>r v. v = NoMatch s) v" by auto
    have px: "px m (Call x) s v" using x3_run_sound [OF laws Suc.prems] Call by simp
    show ?thesis
    proof (rule names_after [OF IH [OF q(1)] q(2)])
      fix ts r
      assume ts: "list_all (named (identifier_in s)) ts" "suffix r s" and "\<exists>u. pre_skip ?R skipper m s u \<and>
           after u (\<lambda>us t w. w = Match [Node x (length t) (length r) ts] r) (\<lambda>t w. w = NoMatch s) v"
      then obtain u where u: "after u (\<lambda>us t w. w = Match [Node x (length t) (length r) ts] r) (\<lambda>t w. w = NoMatch s) v"
        by blast
      show "names_from s v"
      proof (cases u)
        case (Match us t)
        with u have v: "v = Match [Node x (length t) (length r) ts] r" by simp
        then have "x = R_identifier \<longrightarrow> (\<exists>w. ts = [Token w] \<and> identifier_in s w)"
          using identifier_word [OF laws num, of m s "length t" "length r" ts r] px by blast
        with v ts show ?thesis by simp
      qed (use u in auto)
    qed simp
  qed (use step in \<open>auto elim!: names_after [OF skip] intro: names_from_later [OF names_primitive] simp del: primitive.simps\<close>)
qed simp

lemma match_named:
  assumes laws: "x3_laws lx rule_def skipper px" and num: "numbers_laws lx"
    and match: "px m (Call x) s (Match ts r)"
  shows "list_all (named (identifier_in s)) ts"
proof -
  obtain n where n: "x3_run lx rule_def skipper n m (Call x) s = Some (Match ts r)"
    using call_runs [OF laws num match] ..
  from run_names [OF laws num n] show ?thesis by simp
qed

end
