(* ===== verification/Flow_Parts.thy ===== *)
theory Flow_Parts
  imports Flow_Shape Flow_Names
begin

text \<open>
  What holds of every position and of every name in a syntax tree: build passes it on from the parts
  of a parse, so the positions and names of a tree are those of the parse.
\<close>

section \<open>The positions and names of a syntax tree\<close>

text \<open>\<open>pos\<close> holds of every position the tree keeps, \<open>nam\<close> of every name in it.\<close>

definition path_all :: "(located \<Rightarrow> bool) \<Rightarrow> (ident \<Rightarrow> bool) \<Rightarrow> identifier_path \<Rightarrow> bool" where
  "path_all pos nam p \<longleftrightarrow> pos (path_loc p) \<and> list_all nam (path_names p)"

definition signature_all :: "(located \<Rightarrow> bool) \<Rightarrow> (ident \<Rightarrow> bool) \<Rightarrow> signature \<Rightarrow> bool" where
  "signature_all pos nam g \<longleftrightarrow> pos (signature_loc g) \<and>
     list_all (\<lambda>d. nam (fst d) \<and> nam (snd d)) (inputs g) \<and> pred_option nam (return_type g)"

primrec primary_all :: "(located \<Rightarrow> bool) \<Rightarrow> (ident \<Rightarrow> bool) \<Rightarrow> primary_expression \<Rightarrow> bool"
  and call_all :: "(located \<Rightarrow> bool) \<Rightarrow> (ident \<Rightarrow> bool) \<Rightarrow> function_call \<Rightarrow> bool"
  and unary_all :: "(located \<Rightarrow> bool) \<Rightarrow> (ident \<Rightarrow> bool) \<Rightarrow> unary_expression \<Rightarrow> bool"
  and expr_all :: "(located \<Rightarrow> bool) \<Rightarrow> (ident \<Rightarrow> bool) \<Rightarrow> expression \<Rightarrow> bool" where
  "primary_all pos nam (PPath p) = path_all pos nam p"
| "primary_all pos nam (PLiteral c) = True"
| "primary_all pos nam (PCall c) = call_all pos nam c"
| "primary_all pos nam (PArray es) = list_all (\<lambda>b. b) (map (expr_all pos nam) es)"
| "primary_all pos nam (PDictionary es) = list_all (\<lambda>b. nam (fst b) \<and> snd b) (map (map_prod id (expr_all pos nam)) es)"
| "primary_all pos nam (PExpression e) = expr_all pos nam e"
| "primary_all pos nam (PAwait e d) = (expr_all pos nam e \<and> expr_all pos nam d)"
| "primary_all pos nam (PTry e) = expr_all pos nam e"
| "call_all pos nam (FunctionCall p args) =
     (path_all pos nam p \<and>
      list_all (\<lambda>g. pred_option nam (fst g) \<and> snd g) (map (map_prod id (expr_all pos nam)) args))"
| "unary_all pos nam (Unary op p) = primary_all pos nam p"
| "expr_all pos nam (Expression l e) =
     (pos l \<and> pred_binary_expression (pred_binary_expression (pred_binary_expression (pred_binary_expression
         (pred_binary_expression (\<lambda>b. b) (\<lambda>_. True)) (\<lambda>_. True)) (\<lambda>_. True)) (\<lambda>_. True)) (\<lambda>_. True)
       (map_binary_expression (map_binary_expression (map_binary_expression (map_binary_expression
         (map_binary_expression (unary_all pos nam) id) id) id) id) id e))"

primrec statement_all :: "(located \<Rightarrow> bool) \<Rightarrow> (ident \<Rightarrow> bool) \<Rightarrow> workflow_statement \<Rightarrow> bool"
  and condition_all :: "(located \<Rightarrow> bool) \<Rightarrow> (ident \<Rightarrow> bool) \<Rightarrow> condition_block \<Rightarrow> bool"
  and definition_all :: "(located \<Rightarrow> bool) \<Rightarrow> (ident \<Rightarrow> bool) \<Rightarrow> workflow_definition \<Rightarrow> bool" where
  "statement_all pos nam (ImportStatement p) = path_all pos nam p"
| "statement_all pos nam (VariableDeclaration n t e) = (nam n \<and> nam t \<and> pred_option (expr_all pos nam) e)"
| "statement_all pos nam (AssignmentStatement p e) = (path_all pos nam p \<and> expr_all pos nam e)"
| "statement_all pos nam (DelayStatement e) = expr_all pos nam e"
| "statement_all pos nam (ReturnStatement e) = expr_all pos nam e"
| "statement_all pos nam (RaiseStatement e) = expr_all pos nam e"
| "statement_all pos nam BreakStatement = True"
| "statement_all pos nam (ExpressionStatement e) = expr_all pos nam e"
| "statement_all pos nam (IfBlock c cs ss) =
     (condition_all pos nam c \<and> list_all (\<lambda>b. b) (map (condition_all pos nam) cs) \<and>
      list_all (\<lambda>b. b) (map (statement_all pos nam) ss))"
| "statement_all pos nam (RepeatBlock ss) = list_all (\<lambda>b. b) (map (statement_all pos nam) ss)"
| "statement_all pos nam (WorkflowStatement d) = definition_all pos nam d"
| "condition_all pos nam (ConditionBlock e ss) =
     (expr_all pos nam e \<and> list_all (\<lambda>b. b) (map (statement_all pos nam) ss))"
| "definition_all pos nam (WorkflowDef n g ss) =
     (nam n \<and> pred_option (signature_all pos nam) g \<and> list_all (\<lambda>b. b) (map (statement_all pos nam) ss))"

definition multiplicative_all :: "(located \<Rightarrow> bool) \<Rightarrow> (ident \<Rightarrow> bool) \<Rightarrow> multiplicative_expression \<Rightarrow> bool" where
  "multiplicative_all pos nam = pred_binary_expression (unary_all pos nam) (\<lambda>_. True)"

definition additive_all :: "(located \<Rightarrow> bool) \<Rightarrow> (ident \<Rightarrow> bool) \<Rightarrow> additive_expression \<Rightarrow> bool" where
  "additive_all pos nam = pred_binary_expression (multiplicative_all pos nam) (\<lambda>_. True)"

definition relational_all :: "(located \<Rightarrow> bool) \<Rightarrow> (ident \<Rightarrow> bool) \<Rightarrow> relational_expression \<Rightarrow> bool" where
  "relational_all pos nam = pred_binary_expression (additive_all pos nam) (\<lambda>_. True)"

definition equality_all :: "(located \<Rightarrow> bool) \<Rightarrow> (ident \<Rightarrow> bool) \<Rightarrow> equality_expression \<Rightarrow> bool" where
  "equality_all pos nam = pred_binary_expression (relational_all pos nam) (\<lambda>_. True)"

definition logical_all :: "(located \<Rightarrow> bool) \<Rightarrow> (ident \<Rightarrow> bool) \<Rightarrow> logical_expression \<Rightarrow> bool" where
  "logical_all pos nam = pred_binary_expression (equality_all pos nam) (\<lambda>_. True)"

lemma expr_spans_logical [simp]: "expr_all pos nam (Expression l e) = (pos l \<and> logical_all pos nam e)"
  by (simp add: binary_expression.pred_map comp_def logical_all_def equality_all_def
      relational_all_def additive_all_def multiplicative_all_def)

lemmas level_all = multiplicative_all_def additive_all_def relational_all_def equality_all_def logical_all_def

fun attribute_holds :: "(located \<Rightarrow> bool) \<Rightarrow> (ident \<Rightarrow> bool) \<Rightarrow> attribute \<Rightarrow> bool" where
  "attribute_holds pos nam (AIdent w) = nam w"
| "attribute_holds pos nam (ADeclaration d) = (nam (fst d) \<and> nam (snd d))"
| "attribute_holds pos nam (ADeclarations ds) = list_all (\<lambda>d. nam (fst d) \<and> nam (snd d)) ds"
| "attribute_holds pos nam (APath p) = path_all pos nam p"
| "attribute_holds pos nam (ASignature g) = signature_all pos nam g"
| "attribute_holds pos nam (AAssignment b) = (nam (fst b) \<and> expr_all pos nam (snd b))"
| "attribute_holds pos nam (ADictionary bs) = list_all (\<lambda>b. nam (fst b) \<and> expr_all pos nam (snd b)) bs"
| "attribute_holds pos nam (AArray es) = list_all (expr_all pos nam) es"
| "attribute_holds pos nam (AArgument b) = (pred_option nam (fst b) \<and> expr_all pos nam (snd b))"
| "attribute_holds pos nam (ACall c) = call_all pos nam c"
| "attribute_holds pos nam (APrimary p) = primary_all pos nam p"
| "attribute_holds pos nam (AUnary e) = unary_all pos nam e"
| "attribute_holds pos nam (AMultiplicative e) = multiplicative_all pos nam e"
| "attribute_holds pos nam (AAdditive e) = additive_all pos nam e"
| "attribute_holds pos nam (ARelational e) = relational_all pos nam e"
| "attribute_holds pos nam (AEquality e) = equality_all pos nam e"
| "attribute_holds pos nam (ALogical e) = logical_all pos nam e"
| "attribute_holds pos nam (AExpr e) = expr_all pos nam e"
| "attribute_holds pos nam (AAwait b) = (expr_all pos nam (fst b) \<and> expr_all pos nam (snd b))"
| "attribute_holds pos nam (ATry e) = expr_all pos nam e"
| "attribute_holds pos nam (ACondition c) = condition_all pos nam c"
| "attribute_holds pos nam (ADefinition d) = definition_all pos nam d"
| "attribute_holds pos nam (AStatement s) = statement_all pos nam s"
| "attribute_holds pos nam (AProgram ss) = list_all (statement_all pos nam) ss"
| "attribute_holds pos nam _ = True"

lemma all_of_all:
  assumes "all_of f as = Some vs" and "list_all P as" and "\<And>a v. f a = Some v \<Longrightarrow> P a \<Longrightarrow> Q v"
  shows "list_all Q vs"
  using assms(1,2)
proof (induction as arbitrary: vs)
  case (Cons a as)
  then show ?case using assms(3) by (auto simp: all_of_def split: option.splits)
qed (simp add: all_of_def)

lemma operations_all:
  assumes "operations_of opv term as = Some ops" and "list_all P as" and "\<And>a v. term a = Some v \<Longrightarrow> P a \<Longrightarrow> Q v"
  shows "list_all (\<lambda>b. Q (snd b)) ops"
  using assms(1,2)
proof (induction as arbitrary: ops rule: induct_list012)
  case (3 a b as)
  then show ?case using assms(3) [of b] by (auto 0 3 split: option.splits)
qed auto

lemma binary_all:
  assumes "binary_of opv term as = Some e" and "list_all P as" and "\<And>a v. term a = Some v \<Longrightarrow> P a \<Longrightarrow> Q v"
  shows "pred_binary_expression Q (\<lambda>_. True) e"
proof -
  from assms(1) obtain a rest v ops where "as = a # rest" "term a = Some v" "operations_of opv term rest = Some ops"
    "e = Binary v ops" by (auto simp: binary_of_def split: list.splits option.splits)
  with assms(2,3) operations_all [of opv "term" rest ops P Q] show ?thesis
    by (auto simp: list_all_iff pred_prod_beta)
qed

lemma part_all:
  "assignment_of a = Some b \<Longrightarrow> attribute_holds pos nam a \<Longrightarrow> nam (fst b) \<and> expr_all pos nam (snd b)"
  "argument_of a = Some g \<Longrightarrow> attribute_holds pos nam a \<Longrightarrow> pred_option nam (fst g) \<and> expr_all pos nam (snd g)"
  "ident_of a = Some w \<Longrightarrow> attribute_holds pos nam a \<Longrightarrow> nam w"
  "declaration_of a = Some dc \<Longrightarrow> attribute_holds pos nam a \<Longrightarrow> nam (fst dc) \<and> nam (snd dc)"
  "expr_of a = Some e \<Longrightarrow> attribute_holds pos nam a \<Longrightarrow> expr_all pos nam e"
  "unary_of a = Some u \<Longrightarrow> attribute_holds pos nam a \<Longrightarrow> unary_all pos nam u"
  "multiplicative_of a = Some m \<Longrightarrow> attribute_holds pos nam a \<Longrightarrow> multiplicative_all pos nam m"
  "additive_of a = Some d \<Longrightarrow> attribute_holds pos nam a \<Longrightarrow> additive_all pos nam d"
  "relational_of a = Some r \<Longrightarrow> attribute_holds pos nam a \<Longrightarrow> relational_all pos nam r"
  "equality_of a = Some q \<Longrightarrow> attribute_holds pos nam a \<Longrightarrow> equality_all pos nam q"
  "condition_of a = Some c \<Longrightarrow> attribute_holds pos nam a \<Longrightarrow> condition_all pos nam c"
  "statement_of a = Some s \<Longrightarrow> attribute_holds pos nam a \<Longrightarrow> statement_all pos nam s"
  by (cases a; simp)+

lemma lists_all [simp]:
  "primary_all pos nam (PArray es) = list_all (expr_all pos nam) es"
  "primary_all pos nam (PDictionary bs) = list_all (\<lambda>b. nam (fst b) \<and> expr_all pos nam (snd b)) bs"
  "call_all pos nam (FunctionCall p args) = 
     (path_all pos nam p \<and> list_all (\<lambda>g. pred_option nam (fst g) \<and> expr_all pos nam (snd g)) args)"
  "statement_all pos nam (RepeatBlock ss) = list_all (statement_all pos nam) ss"
  "statement_all pos nam (IfBlock c cs ss) =
     (condition_all pos nam c \<and> list_all (condition_all pos nam) cs \<and> list_all (statement_all pos nam) ss)"
  "condition_all pos nam (ConditionBlock e ss) = (expr_all pos nam e \<and> list_all (statement_all pos nam) ss)"
  "definition_all pos nam (WorkflowDef n g ss) =
     (nam n \<and> pred_option (signature_all pos nam) g \<and> list_all (statement_all pos nam) ss)"
  by (simp_all add: list_all_iff)

declare primary_all.simps(4,5) [simp del] call_all.simps [simp del] statement_all.simps(9,10) [simp del]
  condition_all.simps [simp del] definition_all.simps [simp del] expr_all.simps [simp del]

lemma parts_all:
  "all_of assignment_of as = Some bs \<Longrightarrow> list_all (attribute_holds pos nam) as \<Longrightarrow>
     list_all (\<lambda>b. nam (fst b) \<and> expr_all pos nam (snd b)) bs"
  "all_of argument_of as = Some gs \<Longrightarrow> list_all (attribute_holds pos nam) as \<Longrightarrow>
     list_all (\<lambda>g. pred_option nam (fst g) \<and> expr_all pos nam (snd g)) gs"
  "all_of ident_of as = Some ws \<Longrightarrow> list_all (attribute_holds pos nam) as \<Longrightarrow> list_all nam ws"
  "all_of declaration_of as = Some ds \<Longrightarrow> list_all (attribute_holds pos nam) as \<Longrightarrow>
     list_all (\<lambda>d. nam (fst d) \<and> nam (snd d)) ds"
  "all_of expr_of as = Some es \<Longrightarrow> list_all (attribute_holds pos nam) as \<Longrightarrow> list_all (expr_all pos nam) es"
  "all_of condition_of as = Some cs \<Longrightarrow> list_all (attribute_holds pos nam) as \<Longrightarrow> list_all (condition_all pos nam) cs"
  "all_of statement_of as = Some ss \<Longrightarrow> list_all (attribute_holds pos nam) as \<Longrightarrow> list_all (statement_all pos nam) ss"
  by (erule (1) all_of_all, erule (1) part_all)+

lemma binary_parts_all:
  "binary_of opm unary_of as = Some m \<Longrightarrow> list_all (attribute_holds pos nam) as \<Longrightarrow> multiplicative_all pos nam m"
  "binary_of opa multiplicative_of as = Some d \<Longrightarrow> list_all (attribute_holds pos nam) as \<Longrightarrow> additive_all pos nam d"
  "binary_of opr additive_of as = Some r \<Longrightarrow> list_all (attribute_holds pos nam) as \<Longrightarrow> relational_all pos nam r"
  "binary_of ope relational_of as = Some q \<Longrightarrow> list_all (attribute_holds pos nam) as \<Longrightarrow> equality_all pos nam q"
  "binary_of opl equality_of as = Some g \<Longrightarrow> list_all (attribute_holds pos nam) as \<Longrightarrow> logical_all pos nam g"
  unfolding level_all by (erule (1) binary_all, erule (1) part_all [unfolded level_all])+

lemma relocate_all: "pos l \<Longrightarrow> expr_all pos nam e \<Longrightarrow> expr_all pos nam (relocate_expression l e)"
  by (cases e) simp

lemma build_if_all:
  assumes "build_if as = Some a" and "list_all (attribute_holds pos nam) as"
  shows "attribute_holds pos nam a"
proof -
  from assms(1) obtain c rest cs ss where b: "as = ACondition c # rest"
      "all_of condition_of (takeWhile (\<lambda>a. condition_of a \<noteq> None) rest) = Some cs"
      "all_of statement_of (dropWhile (\<lambda>a. condition_of a \<noteq> None) rest) = Some ss"
      "a = AStatement (IfBlock c cs ss)"
    by (auto simp: build_if_def split: list.splits attribute.splits option.splits)
  have "list_all (attribute_holds pos nam) (takeWhile (\<lambda>a. condition_of a \<noteq> None) rest)"
      "list_all (attribute_holds pos nam) (dropWhile (\<lambda>a. condition_of a \<noteq> None) rest)"
    using assms(2) b(1) by (auto simp: list_all_iff dest: set_takeWhileD set_dropWhileD)
  from parts_all(6) [OF b(2) this(1)] parts_all(7) [OF b(3) this(2)]
  show ?thesis using assms(2) b(1,4) by simp
qed

lemma build_definition_all:
  assumes "build_definition as = Some a" and as: "list_all (attribute_holds pos nam) as"
  shows "attribute_holds pos nam a"
proof -
  obtain n bs where b: "as = AIdent n # bs"
    using assms(1) by (auto simp: build_definition_def split: list.splits attribute.splits)
  show ?thesis
  proof (cases "\<exists>g cs. bs = ASignature g # cs")
    case True
    then obtain g cs where "bs = ASignature g # cs" by blast
    with assms b show ?thesis using parts_all(7) [of cs _ pos nam] by (auto simp: build_definition_def)
  next
    case False
    then have "build_definition as = map_option (\<lambda>ss. ADefinition (WorkflowDef n None ss)) (all_of statement_of bs)"
      by (auto simp: build_definition_def b split: list.splits attribute.splits)
    with assms(1) obtain ss where ss: "all_of statement_of bs = Some ss" "a = ADefinition (WorkflowDef n None ss)" by auto
    from as b have bs: "list_all (attribute_holds pos nam) bs" "nam n" by simp_all
    from parts_all(7) [OF ss(1) bs(1)] bs(2) ss(2) show ?thesis by simp
  qed
qed

lemma build_all:
  assumes "build rv l x as = Some a" and "pos l \<or> x = R_program" and "x = R_identifier \<longrightarrow> (\<exists>w. as = [AText w] \<and> nam w)"
    and "list_all (attribute_holds pos nam) as"
  shows "attribute_holds pos nam a"
proof (cases x)
  case R_if_block
  with build_if_all assms show ?thesis by simp
next
  case R_workflow_definition
  with build_definition_all assms show ?thesis by simp
qed (use assms in \<open>auto simp: build_defs path_all_def signature_all_def relocate_path_def relocate_all split: list.splits attribute.splits option.splits
      intro: parts_all binary_parts_all\<close>)

definition inside :: "nat \<Rightarrow> located \<Rightarrow> bool" where
  "inside n l \<longleftrightarrow> start_position l \<le> end_position l \<and> end_position l \<le> n"

lemma attribute_all:
  assumes "positioned n t" and "named nam t" and "attribute_of rv n t = Some a" and pos: "\<And>l. inside n l \<Longrightarrow> pos l"
  shows "attribute_holds pos nam a"
  using assms(1-3) pos
proof (induction n t arbitrary: a rule: positioned.induct)
  case (2 n x e b ts)
  from 2(4) obtain as where as: "those (map (attribute_of rv n) ts) = Some as"
    "build rv (located_at n e b) x as = Some a" by (auto simp: bind_eq_Some_conv)
  note pos = 2(5)
  have parts: "list_all (positioned n) ts" "list_all (named nam) ts" using 2(2,3) by simp_all
  have "list_all (attribute_holds pos nam) as"
    using 2(1) [OF _ _ _ _ pos] parts as(1)
  proof (induction ts arbitrary: as)
    case (Cons t ts)
    then show ?case by (fastforce split: option.splits)
  qed simp
  moreover have "pos (located_at n e b) \<or> x = R_program"
    using 2(2) pos by (auto simp: inside_def located_at_def may_be_empty_def)
  moreover have "x = R_identifier \<longrightarrow> (\<exists>w. as = [AText w] \<and> nam w)"
    using 2(3) as(1) by auto
  ultimately show ?case using build_all [OF as(2)] by blast
qed simp

end
