(* ===== verification/Flow_Program.thy ===== *)
theory Flow_Program
  imports Flow_Parts Flow_Parser_Props
begin

text \<open>
  libs/flow/src/parser/parser.cpp: parse. Every text has exactly one result; the positions kept in
  the tree of a program lie inside its text and its names are words of it. The text of an error
  report is a parameter.
\<close>

section \<open>parse\<close>

text \<open>
  parse: parse_using of the rule program. After an expectation failure the tree is what the parser
  left of it, which nothing reads.
\<close>

definition parse_program ::
  "(string \<Rightarrow> real64) \<Rightarrow> (parse_message \<Rightarrow> string \<Rightarrow> string \<Rightarrow> string) \<Rightarrow> rule x3_relation \<Rightarrow> string \<Rightarrow> string \<Rightarrow> program \<Rightarrow> bool" where
  "parse_program rv explain px text file p \<longleftrightarrow>
     (\<exists>res. parse_using px R_program text res \<and>
        code p = text \<and> file_path p = file \<and> valid p = pr_valid res \<and>
        error_message p = (case pr_message res of None \<Rightarrow> [] | Some m \<Rightarrow> explain m text file) \<and>
        list_all (\<lambda>t. attribute_of rv (length text) t = Some (AProgram (ast p))) (pr_trees res))"

lemma digit_cases: "is_digit c \<Longrightarrow> c \<in> set ''0123456789''"
proof -
  assume "is_digit c"
  then have "48 \<le> (of_char c :: nat)" "(of_char c :: nat) \<le> 57"
    by (simp_all add: is_digit_def less_eq_char_def)
  then have "(of_char c :: nat) \<in> {48, 49, 50, 51, 52, 53, 54, 55, 56, 57}"
    unfolding insert_iff empty_iff by presburger
  then have "char_of (of_char c :: nat) \<in> char_of ` {48, 49, 50, 51, 52, 53, 54, 55, 56, 57 :: nat}" by (rule imageI)
  moreover have "char_of ` {48, 49, 50, 51, 52, 53, 54, 55, 56, 57 :: nat} = set ''0123456789''" by code_simp
  ultimately show ?thesis by (simp only: char_of_char)
qed

lemma plain_digits_start: "numbers_start plain_digits"
  unfolding numbers_start_def
proof (intro allI impI)
  fix k s n
  assume "plain_digits k s = Some n"
  then have "takeWhile is_digit s \<noteq> []" by (auto simp: plain_digits_def Let_def split: if_splits)
  then obtain c r where "s = c # r" "is_digit c" by (cases s) (auto split: if_splits)
  with digit_cases [of c] show "\<exists>c r. s = c # r \<and> c \<in> number_starts" by (auto simp: number_starts_def)
qed

lemma parsed_program_tree:
  assumes laws: "x3_laws lx rule_def skipper px" and num: "numbers_laws lx" and res: "parse_using px R_program text res"
  shows "list_all (\<lambda>t. \<exists>a b us. t = Node R_program a b us \<and> shaped t) (pr_trees res) \<and>
    (pr_valid res \<longrightarrow> length (pr_trees res) = 1) \<and> length (pr_trees res) \<le> 1 \<and>
    (\<forall>t \<in> set (pr_trees res). \<exists>r. px True (Call R_program) text (Match [t] r))"
proof -
  obtain b q where q: "phrase_parse px R_program text (b, q)" "res = (case q of Match ts r \<Rightarrow> text_end b ts r
      | NoMatch r \<Rightarrow> text_end b [] r
      | Expectation e \<Rightarrow> \<lparr>pr_valid = False, pr_trees = [], pr_message = Some ExpectingToken\<rparr>)"
    using res unfolding parse_using_def by blast
  show ?thesis
  proof (cases q)
    case (Match ts r)
    obtain v where v: "px True (Call R_program) text v" "after v
        (\<lambda>ts r v. \<exists>u. px False (Star skipper) r u \<and> after u (\<lambda>_ r' w. w = Match ts r') (\<lambda>r' w. w = Match ts r') v)
        (\<lambda>r v. v = NoMatch r) (Match ts r)"
      using q(1) Match unfolding phrase_parse_def by auto
    obtain r' where m: "px True (Call R_program) text (Match ts r')"
    proof (cases v)
      case (Match us r')
      with v(2) obtain u where
        "after u (\<lambda>_ r' w. w = Match us r') (\<lambda>r' w. w = Match us r') (Match ts r)" by auto
      then have "us = ts" by (cases u) auto
      with Match v(1) that show thesis by simp
    qed (use v(2) in auto)
    from match_shaped [OF laws num m] m q(2) Match show ?thesis
      by (auto simp: text_end_def)
  qed (use q in \<open>auto simp: phrase_parse_def text_end_def\<close>)
qed

section \<open>Properties\<close>

lemma program_determined:
  assumes laws: "x3_laws lx rule_def skipper px" and num: "numbers_laws lx"
  shows program_exists: "\<exists>p. parse_program rv explain px text file p"
    and program_unique: "parse_program rv explain px text file p \<Longrightarrow> valid p \<Longrightarrow>
      parse_program rv explain px text file q \<Longrightarrow> q = p"
proof -
  obtain res where res: "parse_using px R_program text res" and only: "\<And>r. parse_using px R_program text r \<Longrightarrow> r = res"
    using parsing_result [OF assms] by blast
  note tree = parsed_program_tree [OF assms res]
  have "\<exists>ss. list_all (\<lambda>t. attribute_of rv (length text) t = Some (AProgram ss)) (pr_trees res)"
  proof (cases "pr_trees res")
    case (Cons t us)
    with tree have "us = []" "shaped t" "is_node R_program t" by auto
    with attribute_total [of t rv "length text"] Cons show ?thesis by force
  qed simp
  then obtain ss where ss: "list_all (\<lambda>t. attribute_of rv (length text) t = Some (AProgram ss)) (pr_trees res)" ..
  have iff: "parse_program rv explain px text file p \<longleftrightarrow> code p = text \<and> file_path p = file \<and> valid p = pr_valid res \<and>
      error_message p = (case pr_message res of None \<Rightarrow> [] | Some m \<Rightarrow> explain m text file) \<and>
      list_all (\<lambda>t. attribute_of rv (length text) t = Some (AProgram (ast p))) (pr_trees res)" for p
    using res only unfolding parse_program_def by blast
  from ss have "parse_program rv explain px text file \<lparr>code = text, file_path = file, ast = ss,
      error_message = (case pr_message res of None \<Rightarrow> [] | Some m \<Rightarrow> explain m text file), valid = pr_valid res\<rparr>"
    by (simp add: iff)
  then show "\<exists>p. parse_program rv explain px text file p" ..
  show "q = p" if p: "parse_program rv explain px text file p" "valid p" and q: "parse_program rv explain px text file q" for p q
  proof -
    from p have "length (pr_trees res) = 1" using tree by (simp add: iff)
    then obtain t where "pr_trees res = [t]" by (auto simp: length_Suc_conv)
    with p q show ?thesis by (simp add: iff)
  qed
qed

text \<open>C6: On every text parse returns a program: whatever the grammar accepts has a syntax tree, since each
  rule gets exactly the parts its attribute is made of, and when the program is valid it is the only
  result parse can have.\<close>

theorem every_text_has_one_program:
  assumes laws: "x3_laws lx rule_def skipper px" and num: "numbers_laws lx"
  shows "(\<exists>p. parse_program rv explain px text file p) \<and>
    (\<forall>p q. parse_program rv explain px text file p \<and> valid p \<and> parse_program rv explain px text file q \<longrightarrow> q = p)"
  using program_exists [OF assms] program_unique [OF assms] by meson

text \<open>A program text, its parse and its syntax tree: the product is the second term of the sum.\<close>

definition sum_text :: string where
  "sum_text = ''return 1+2*a;''"

definition sum_tree :: "rule tree" where
  "sum_tree =
     Node R_program 13 0 [Node R_workflow_statement 13 0 [Node R_return_statement 13 1
       [Node R_expression 6 1 [Node R_logical_expr 6 1 [Node R_equality_expr 6 1 [Node R_relational_expr 6 1
         [Node R_additive_expr 6 1
           [Node R_multiplicative_expr 6 5 [Node R_unary_expr 6 5 [Node R_primary_expr 6 5
              [Node R_literal 6 5 [Node R_integer 6 5 [Token ''1'']]]]],
            Token ''+'',
            Node R_multiplicative_expr 4 1
              [Node R_unary_expr 4 3 [Node R_primary_expr 4 3
                 [Node R_literal 4 3 [Node R_integer 4 3 [Token ''2'']]]],
               Token ''*'',
               Node R_unary_expr 2 1 [Node R_primary_expr 2 1 [path_tree 2 1 ''a'']]]]]]]]]]]"

definition sum_program :: program where
  "sum_program = \<lparr>code = sum_text, file_path = ''sum.flow'',
     ast = [ReturnStatement (Expression \<lparr>start_position = 7, end_position = 12\<rparr>
       (Binary (Binary (Binary
          (Binary (Binary (Unary None (PLiteral (LInteger 1))) [])
             [(Plus, Binary (Unary None (PLiteral (LInteger 2)))
                [(Mult, Unary None (PPath (IdentifierPath \<lparr>start_position = 11, end_position = 12\<rparr> [''a''])))])])
          []) []) []))],
     error_message = [], valid = True\<rparr>"

lemma sum_run:
  "x3_run plain_digits rule_def skipper 60 True (Call R_program) sum_text = Some (Match [sum_tree] [])"
  "x3_run plain_digits rule_def skipper 40 False (Star skipper) [] = Some (Match [] [])"
  by code_simp+

lemma sum_attribute: "attribute_of rv (length sum_text) sum_tree = Some (AProgram (ast sum_program))"
  by code_simp

lemma sum_parsed: "parse_program (\<lambda>_. 0) (\<lambda>_ _ _. []) flow_x3 sum_text ''sum.flow'' sum_program"
proof -
  have "phrase_parse flow_x3 R_program sum_text (True, Match [sum_tree] [])"
    using flow_x3_run [OF sum_run(1)] flow_x3_run [OF sum_run(2)] by (force simp: phrase_parse_def)
  then have "parse_using flow_x3 R_program sum_text \<lparr>pr_valid = True, pr_trees = [sum_tree], pr_message = None\<rparr>"
    by (force simp: parse_using_def text_end_def)
  with sum_attribute show ?thesis by (force simp: parse_program_def sum_program_def)
qed

theorem every_text_has_one_program_witness:
  "\<exists>p. ast p = ast sum_program \<and> (\<forall>q. parse_program (\<lambda>_. 0) (\<lambda>_ _ _. []) flow_x3 sum_text ''sum.flow'' q \<longrightarrow> q = p)"
proof -
  have "q = sum_program" if "parse_program (\<lambda>_. 0) (\<lambda>_ _ _. []) flow_x3 sum_text ''sum.flow'' q" for q
    using conjunct2 [OF every_text_has_one_program [where px = flow_x3, OF flow_x3_laws]] sum_parsed that
    by (force simp: sum_program_def)
  then show ?thesis by blast
qed

lemma program_parts:
  assumes laws: "x3_laws lx rule_def skipper px" and num: "numbers_laws lx" and start: "numbers_start lx"
    and p: "parse_program rv explain px text file p" "valid p"
    and pos: "\<And>l. inside (length text) l \<Longrightarrow> pos l" and nam: "\<And>w. identifier_in text w \<Longrightarrow> nam w"
  shows "list_all (statement_all pos nam) (ast p)"
proof -
  obtain res where res: "parse_using px R_program text res" "pr_valid res"
      "list_all (\<lambda>t. attribute_of rv (length text) t = Some (AProgram (ast p))) (pr_trees res)"
    using p by (auto simp: parse_program_def)
  note tree = parsed_program_tree [OF laws num res(1)]
  then obtain t r where t: "pr_trees res = [t]" "px True (Call R_program) text (Match [t] r)"
    using res(2) by (auto simp: length_Suc_conv)
  have "positioned (length text) t" "named nam t"
    using match_positioned [OF laws num start t(2)] match_named [OF laws num t(2)] named_mono nam by auto
  from attribute_all [OF this, of rv "AProgram (ast p)" pos] pos res(3) t(1) show ?thesis by simp
qed

text \<open>C10: In a program that parse accepts every position kept in the syntax tree lies inside the text and
  does not end before it begins, so get_code never reads out of bounds and returns exactly the part
  of the text between the two positions.\<close>

theorem positions_lie_in_the_text:
  assumes "x3_laws lx rule_def skipper px" and "numbers_laws lx" and "numbers_start lx"
    and p: "parse_program rv explain px text file p" "valid p"
  shows "list_all (statement_all (\<lambda>l. start_position l \<le> end_position l \<and> end_position l \<le> length (code p) \<and>
      length (get_code p l) = end_position l - start_position l) (\<lambda>_. True)) (ast p)"
  by (rule program_parts [OF assms]) (use p in \<open>auto simp: parse_program_def inside_def get_code_def\<close>)

theorem positions_lie_in_the_text_witness:
  "list_all (statement_all (\<lambda>l. start_position l \<le> end_position l \<and> end_position l \<le> length (code sum_program) \<and>
      length (get_code sum_program l) = end_position l - start_position l) (\<lambda>_. True)) (ast sum_program)"
  by (rule positions_lie_in_the_text [where px = flow_x3, OF flow_x3_laws plain_digits_start sum_parsed])
    (simp add: sum_program_def)

text \<open>C22: Every name in the syntax tree of an accepted program, of a variable, a type, a workflow, an
  argument or an element of a path, is a word of the text that is not reserved: it begins with a
  letter or an underscore and has letters, digits and underscores only.\<close>

theorem names_are_words_of_the_text:
  assumes "x3_laws lx rule_def skipper px" and "numbers_laws lx" and "numbers_start lx"
    and "parse_program rv explain px text file p" and "valid p"
  shows "list_all (statement_all (\<lambda>_. True) (\<lambda>w. starts word_start w \<and> list_all word_char w \<and>
      w \<notin> set keyword_list \<and> (\<exists>before rest. text = before @ w @ rest))) (ast p)"
  by (rule program_parts [OF assms]) (fastforce simp: identifier_in_def sublist_def)+

theorem names_are_words_of_the_text_witness:
  "list_all (statement_all (\<lambda>_. True) (\<lambda>w. starts word_start w \<and> list_all word_char w \<and>
      w \<notin> set keyword_list \<and> (\<exists>before rest. sum_text = before @ w @ rest))) (ast sum_program)"
  by (rule names_are_words_of_the_text [where px = flow_x3, OF flow_x3_laws plain_digits_start sum_parsed])
    (simp add: sum_program_def)

section \<open>Texts that are rejected\<close>

text \<open>The optional name of an argument takes the first sign of ==, and x3 does not come back to it: the
  argument of f(a==1) is no expression, though a==1 is one. A duration has no blank before its unit.\<close>

lemma rejected_texts:
  assumes "x3_laws plain_digits rule_def skipper px"
  shows "px True (Call R_function_call) ''f(a==1)'' out \<longleftrightarrow> out = NoMatch ''f(a==1)''"
    and "px True (Call R_duration) ''5 sec'' out \<longleftrightarrow> out = NoMatch ''5 sec''"
  by (rule only_outcome [OF assms]; code_simp)+

end
