(* ===== verification/Flow_Run.thy ===== *)
theory Flow_Run
  imports Flow_Program Flow_Eval
begin

text \<open>
  The engine and the parser put together: Engine::eval on a text (engine.cpp), with a parser that
  returns what parse_program allows.
\<close>

definition is_parser ::
  "(string \<Rightarrow> real64) \<Rightarrow> (parse_message \<Rightarrow> string \<Rightarrow> string \<Rightarrow> string) \<Rightarrow> rule x3_relation \<Rightarrow> (string \<Rightarrow> string \<Rightarrow> program) \<Rightarrow> bool" where
  "is_parser rv explain px parse \<longleftrightarrow> (\<forall>text file. parse_program rv explain px text file (parse text file))"

lemma rule_matches:
  assumes "x3_laws lx rule_def skipper px" and "numbers_laws lx"
  shows "\<not> px True (Call R_program) s (NoMatch r)"
proof
  assume no: "px True (Call R_program) s (NoMatch r)"
  have "wf_at may_be_empty rule_rank 14 14 (Call R_program)" by simp
  with no have "x3_reference lx rule_def skipper True (Call R_program) s (NoMatch r)"
    using parser_agrees_with_reference [OF assms flow_grammar_well_formed] by blast
  then obtain n where n: "x3_run lx rule_def skipper n True (Call R_program) s = Some (NoMatch r)"
    by (auto simp: x3_reference_def)
  then obtain j where j: "n = Suc j" by (cases n) auto
  let ?R = "\<lambda>m p s v. x3_run lx rule_def skipper j m p s = Some v"
  have star: "\<not> ?R m (Star a) t (NoMatch r)" for m a t r by (simp add: run_star_matches)
  from n j have "x3_step lx rule_def skipper ?R True (Call R_program) s (NoMatch r)"
    by (simp only: x3_run.simps run_step_iff)
  then obtain q where q: "?R True (Star (Call R_workflow_statement)) s q"
      "after q (\<lambda>ts t v. \<exists>u. ?R False (Star skipper) s u \<and>
           after u (\<lambda>us t' w. w = Match [Node R_program (length t') (length t) ts] t) (\<lambda>t w. w = NoMatch s) v)
        (\<lambda>t v. v = NoMatch s) (NoMatch r)"
    by (auto simp: pre_skip_def program_rhs_def)
  show False
  proof (cases q)
    case (Match ts t)
    with q(2) obtain u where u: "?R False (Star skipper) s u"
      "after u (\<lambda>us t' w. w = Match [Node R_program (length t') (length t) ts] t) (\<lambda>t w. w = NoMatch s) (NoMatch r)"
      by auto
    with star show False by (cases u) auto
  next
    case (NoMatch t)
    with q(1) star show False by simp
  qed (use q in auto)
qed

lemma rejected_program:
  assumes laws: "x3_laws lx rule_def skipper px" and num: "numbers_laws lx"
    and p: "parse_program rv explain px text file p" "\<not> valid p"
  shows "\<exists>m. error_message p = explain m text file"
proof -
  obtain b q where q: "phrase_parse px R_program text (b, q)"
      "error_message p = (case pr_message (case q of Match ts r \<Rightarrow> text_end b ts r | NoMatch r \<Rightarrow> text_end b [] r
         | Expectation e \<Rightarrow> \<lparr>pr_valid = False, pr_trees = [], pr_message = Some ExpectingToken\<rparr>)
        of None \<Rightarrow> [] | Some m \<Rightarrow> explain m text file)"
      "\<not> pr_valid (case q of Match ts r \<Rightarrow> text_end b ts r | NoMatch r \<Rightarrow> text_end b [] r
         | Expectation e \<Rightarrow> \<lparr>pr_valid = False, pr_trees = [], pr_message = Some ExpectingToken\<rparr>)"
    using p unfolding parse_program_def parse_using_def by auto
  show ?thesis
  proof (cases q)
    case (NoMatch r)
    with q(1) obtain v where v: "px True (Call R_program) text v" "after v
        (\<lambda>ts r v. \<exists>u. px False (Star skipper) r u \<and> after u (\<lambda>_ r' w. w = Match ts r') (\<lambda>r' w. w = Match ts r') v)
        (\<lambda>r v. v = NoMatch r) (NoMatch r)"
      unfolding phrase_parse_def by auto
    show ?thesis
    proof (cases v)
      case (Match ts t)
      with v(2) obtain u where "after u (\<lambda>_ r' w. w = Match ts r') (\<lambda>r' w. w = Match ts r') (NoMatch r :: rule parse_outcome)"
        by auto
      then show ?thesis by (cases u) auto
    qed (use v rule_matches [OF laws num] in auto)
  qed (use q in \<open>auto simp: phrase_parse_def text_end_def split: if_splits\<close>)
qed


lemma flow_x3_parser: "\<exists>parse. is_parser (\<lambda>_. 0) (\<lambda>_ _ _. []) flow_x3 parse"
proof -
  have "\<forall>text file. \<exists>p. parse_program (\<lambda>_. 0) (\<lambda>_ _ _. []) flow_x3 text file p"
    using program_exists [where px = flow_x3, OF flow_x3_laws] by blast
  then show ?thesis unfolding is_parser_def by metis
qed


end
