(* ===== verification/Core_Result.thy ===== *)
theory Core_Result
  imports Prelude
begin

text \<open>
  libs/core/headers/ez/Result.hpp: a variant of Ok and Fail. Reading the value of a failed result
  throws its error; reading the error of a successful one throws bad_variant_access.
\<close>

datatype ('a, 'e) outcome = Ok 'a | Fail 'e

datatype 'e thrown = ThrownError 'e | BadVariantAccess

definition result_default :: "'a \<Rightarrow> ('a, 'e) outcome" where
  "result_default v = Ok v"

definition result_has_value :: "('a, 'e) outcome \<Rightarrow> bool" where
  "result_has_value r = (case r of Ok _ \<Rightarrow> True | Fail _ \<Rightarrow> False)"

definition result_is_error :: "('a, 'e) outcome \<Rightarrow> bool" where
  "result_is_error r = (case r of Ok _ \<Rightarrow> False | Fail _ \<Rightarrow> True)"

fun result_error :: "('a, 'e) outcome \<Rightarrow> 'e thrown + 'e" where
  "result_error (Fail e) = Inr e"
| "result_error (Ok v) = Inl BadVariantAccess"

fun result_value :: "('a, 'e) outcome \<Rightarrow> 'e thrown + 'a" where
  "result_value (Ok v) = Inr v"
| "result_value (Fail e) = Inl (ThrownError e)"

definition result_value_or :: "('a, 'e) outcome \<Rightarrow> 'a \<Rightarrow> 'a" where
  "result_value_or r d = (case r of Ok v \<Rightarrow> v | Fail _ \<Rightarrow> d)"

lemma result_value_iff: "result_has_value r \<longleftrightarrow> (\<exists>v. result_value r = Inr v)"
  by (cases r) (simp_all add: result_has_value_def)

lemma result_error_iff: "result_is_error r \<longleftrightarrow> (\<exists>e. result_error r = Inr e)"
  by (cases r) (simp_all add: result_is_error_def)

end
