(* ===== verification/Flow_App.thy ===== *)
theory Flow_App
  imports Flow_Delegates Flow_Export Core_Result
begin

text \<open>
  apps/flow: the command-line program (main.cpp) and the delegates it gives to the engine
  (extensions.hpp). boost::program_options, the file system, boost::process, standard input and the
  texts of library exceptions are parameters; the parser is the parameter it is in the engine.
\<close>

section \<open>Delegates\<close>

type_synonym json_object = "(string \<times> json) list"

text \<open>operator[] of an object inserts a null for a missing key. value_to<std::string> throws for
  anything but a string; \<open>what\<close> is the text of the exception.\<close>

definition object_at :: "json_object \<Rightarrow> string \<Rightarrow> json" where
  "object_at m k = (case map_of m k of Some v \<Rightarrow> v | None \<Rightarrow> JNull)"

fun json_to_string :: "string \<Rightarrow> json \<Rightarrow> string + string" where
  "json_to_string what (JString s) = Inr s"
| "json_to_string what _ = Inl what"

definition error_response :: "string \<Rightarrow> json_object" where
  "error_response e = [(''error'', JString e)]"

type_synonym process = "string \<Rightarrow> string list \<Rightarrow> string + 32 word"

definition run_action :: "string \<Rightarrow> process \<Rightarrow> json_object \<Rightarrow> json_object" where
  "run_action what sys action =
     (case json_to_string what (object_at action ''command'') of
        Inl e \<Rightarrow> error_response e
      | Inr command \<Rightarrow>
          case (if map_of action ''args'' \<noteq> None then json_to_string what (object_at action ''args'')
                else Inr []) of
            Inl e \<Rightarrow> error_response e
          | Inr args \<Rightarrow>
              case sys command [args] of
                Inl e \<Rightarrow> error_response e
              | Inr rc \<Rightarrow> [(''return_code'', JInt64 (scast rc))])"

text \<open>The numbered options, up to the first that is not a string; what was printed stays printed.\<close>

fun list_options :: "string \<Rightarrow> nat \<Rightarrow> json list \<Rightarrow> string list \<times> (string + unit)" where
  "list_options what i [] = ([], Inr ())"
| "list_options what i (x # xs) =
     (case json_to_string what x of
        Inl e \<Rightarrow> ([], Inl e)
      | Inr t \<Rightarrow> apfst ((#) (''('' @ show_digits i @ '') '' @ t)) (list_options what (Suc i) xs))"

text \<open>\<open>answer\<close> is what reading standard input leaves in the index (0 if it is not a number).\<close>

definition run_campaign :: "string \<Rightarrow> uint64 \<Rightarrow> json_object \<Rightarrow> string list \<times> json_object" where
  "run_campaign what answer campaign =
     (case json_to_string what (object_at campaign ''question'') of
        Inl e \<Rightarrow> ([], error_response e)
      | Inr question \<Rightarrow>
          case map_of campaign ''options'' of
            Some (JArray options) \<Rightarrow>
              (case list_options what 1 options of
                 (shown, Inl e) \<Rightarrow> (question # shown, error_response e)
               | (shown, Inr _) \<Rightarrow>
                   (question # shown @ [''>> ''],
                    [(''success'', JBool (unat answer \<le> length options \<and> 0 < answer)),
                     (''reponse'', JObject [(''index'', JUint64 answer)])]))
          | _ \<Rightarrow> ([question], error_response what))"

definition get_device_info :: "json_object \<Rightarrow> json_object" where
  "get_device_info request =
     [(''name'', JString ''my device''), (''os'', JString ''macos''), (''cpu_count'', JInt64 8),
      (''ram'', JInt64 (16 * 1024 * 1024 * 1024))]"

definition make_http_request :: "string \<Rightarrow> process \<Rightarrow> json_object \<Rightarrow> json_object" where
  "make_http_request what sys input =
     (case json_to_string what (object_at input ''method'') of
        Inl e \<Rightarrow> error_response e
      | Inr method' \<Rightarrow>
      case json_to_string what (object_at input ''resource'') of
        Inl e \<Rightarrow> error_response e
      | Inr resource \<Rightarrow>
      case json_to_string what (object_at input ''payload'') of
        Inl e \<Rightarrow> error_response e
      | Inr payload \<Rightarrow>
      case sys ''curl'' [''--request '' @ method', ''--url '' @ resource, ''--data '' @ quoted payload] of
        Inl e \<Rightarrow> error_response e
      | Inr rc \<Rightarrow> [(''success'', JInt64 (scast rc))])"

text \<open>make_task: the delegate runs on the thread pool and answers on the context, after some time.\<close>

definition make_task :: "int \<Rightarrow> (json_object \<Rightarrow> json_object) \<Rightarrow> json \<Rightarrow> reply" where
  "make_task latency impl request =
     Reply latency (JObject (impl (case request of JObject m \<Rightarrow> m | _ \<Rightarrow> [])))"

record host =
  host_what :: string
  host_process :: process
  host_answer :: uint64
  host_latency :: int

definition setup_engine :: "host \<Rightarrow> engine \<Rightarrow> engine" where
  "setup_engine hst e =
     (let t = make_task (host_latency hst);
          e1 = set_action_delegate e (t (run_action (host_what hst) (host_process hst)));
          e2 = set_campaign_delegate e1 (t (snd \<circ> run_campaign (host_what hst) (host_answer hst)));
          e3 = set_device_info_delegate e2 (t get_device_info)
      in set_http_request_delegate e3 (t (make_http_request (host_what hst) (host_process hst))))"

section \<open>The program\<close>

record arguments =
  print_help :: bool
  program_path :: string
  export_program :: bool
  eval_program_flag :: bool
  instance_count :: nat

text \<open>The names the program declares its options with and asks for them by. A name with a comma
  declares a long and a short form, and the variables map has the long form as its key.\<close>

definition option_input_file :: string where
  "option_input_file = ''input-file''"

definition option_help :: string where
  "option_help = ''help,h''"

definition option_export :: string where
  "option_export = ''export''"

definition option_eval :: string where
  "option_eval = ''eval''"

definition option_instance_count :: string where
  "option_instance_count = ''instance-count''"

text \<open>What the program reads of a variables map: count, and as<std::string>, as<size_t> of an entry.\<close>

record variables_map =
  vm_count :: "string \<Rightarrow> bool"
  vm_string :: "string \<Rightarrow> string"
  vm_size :: "string \<Rightarrow> nat"

datatype app_event = Usage | Line string | Exported json

definition default_arguments :: arguments where
  "default_arguments = \<lparr>print_help = False, program_path = [], export_program = False,
     eval_program_flag = False, instance_count = 1\<rparr>"

definition parse_arguments ::
  "(string list \<Rightarrow> string + variables_map) \<Rightarrow> string list \<Rightarrow> app_event list \<times> (arguments, string) outcome" where
  "parse_arguments po argv =
     (case po argv of
        Inl e \<Rightarrow> ([], Fail e)
      | Inr vm \<Rightarrow>
          if vm_count vm option_help then ([Usage], Ok (default_arguments\<lparr>print_help := True\<rparr>))
          else if \<not> vm_count vm option_input_file then ([], Fail ''Input file not set'')
          else ([], Ok \<lparr>print_help = False, program_path = vm_string vm option_input_file,
                       export_program = vm_count vm option_export, eval_program_flag = vm_count vm option_eval,
                       instance_count = (if vm_count vm option_instance_count
                         then vm_size vm option_instance_count else 1)\<rparr>))"

definition read_file :: "(string \<Rightarrow> string option) \<Rightarrow> string \<Rightarrow> (string, string) outcome" where
  "read_file fs path = (case fs path of None \<Rightarrow> Fail ''failed to open file'' | Some c \<Rightarrow> Ok c)"

datatype log_level = LevelInfo | LevelWarning | LevelError | LevelTrace

fun level_prefix :: "log_level \<Rightarrow> string" where
  "level_prefix LevelInfo = ''[INFO   ] ''"
| "level_prefix LevelWarning = ''[WARNING] ''"
| "level_prefix LevelError = ''[ERROR  ] ''"
| "level_prefix LevelTrace = ''[TRACE  ] ''"

definition log_line :: "log_level \<Rightarrow> string \<Rightarrow> app_event" where
  "log_line l msg = Line (level_prefix l @ msg)"

text \<open>The context with the evaluations that were posted; with a work guard run() never returns.\<close>

definition run_context :: "bool \<Rightarrow> int option" where
  "run_context guarded = (if guarded then None else Some 0)"

record app_run =
  app_out :: "app_event list"
  app_engine :: engine
  app_exit :: "int option"

definition app_main ::
  "(string list \<Rightarrow> string + variables_map) \<Rightarrow> (string \<Rightarrow> string option) \<Rightarrow> (string \<Rightarrow> string \<Rightarrow> program)
     \<Rightarrow> host \<Rightarrow> engine \<Rightarrow> string list \<Rightarrow> app_run" where
  "app_main po fs parse hst fresh argv =
     (let stop = (\<lambda>out rc. \<lparr>app_out = out, app_engine = fresh, app_exit = Some rc\<rparr>);
          (usage, arg_result) = parse_arguments po argv
      in case arg_result of
        Fail e \<Rightarrow> stop (usage @ [Line (''Program option error: '' @ e)]) (-1)
      | Ok args \<Rightarrow>
      case read_file fs (program_path args) of
        Fail e \<Rightarrow> stop (usage @ [log_line LevelError (''Failed to read input file '' @ e)]) (-1)
      | Ok contents \<Rightarrow>
      let p = parse contents (program_path args);
          exported = (if export_program args then usage @ [Exported (exporter_run p)] else usage)
      in if export_program args \<and> \<not> valid p
         then stop (usage @ [log_line LevelError (''Failed to read input file '' @ error_message p),
                             log_line LevelError (error_message p)]) (-1)
         else if \<not> eval_program_flag args then stop exported 0
         else \<lparr>app_out = exported,
               app_engine = foldl (\<lambda>e i. engine_eval e contents (program_path args) (of_nat i))
                              (setup_engine hst fresh) [0..<instance_count args],
               app_exit = run_context True\<rparr>)"

section \<open>Properties\<close>

text \<open>The arguments as the code reads them, when it gets that far.\<close>

definition accepted :: "(string list \<Rightarrow> string + variables_map) \<Rightarrow> string list \<Rightarrow> arguments option" where
  "accepted po argv =
     (case snd (parse_arguments po argv) of Ok a \<Rightarrow> Some a | Fail _ \<Rightarrow> None)"

lemma foldl_engine_eval:
  "eng_tasks (foldl (\<lambda>e i. engine_eval e c f (of_nat i)) e ns) = eng_tasks e @ map (\<lambda>i. (c, f, of_nat i)) ns"
  "eng_extensions (foldl (\<lambda>e i. engine_eval e c f (of_nat i)) e ns) = eng_extensions e"
  by (induction ns arbitrary: e) (simp_all add: engine_eval_def)

lemma setup_engine_tasks: "eng_tasks (setup_engine hst e) = eng_tasks e"
  by (simp add: setup_engine_def Let_def set_action_delegate_def set_campaign_delegate_def
      set_device_info_delegate_def set_http_request_delegate_def)

lemma setup_engine_delegates:
  "run_action_delegate (eng_extensions (setup_engine hst e)) =
     Some (make_task (host_latency hst) (run_action (host_what hst) (host_process hst)))"
  "request_device_info_delegate (eng_extensions (setup_engine hst e)) =
     Some (make_task (host_latency hst) get_device_info)"
  by (simp_all add: setup_engine_def Let_def set_action_delegate_def set_campaign_delegate_def
      set_device_info_delegate_def set_http_request_delegate_def)

text \<open>C35: The flow program ends with 0 exactly when the arguments and the file can be read, an export
  that was asked for parses, and no evaluation was asked for; with an evaluation it posts one task
  per instance, numbered from 0, and never ends, because nothing releases the work guard; in all
  other cases it ends with -1, having posted nothing. An evaluation does not depend on whether the
  program parses.\<close>

theorem program_exit_code:
  "case accepted po argv of
      None \<Rightarrow> app_exit (app_main po fs parse hst e argv) = Some (-1) \<and> app_engine (app_main po fs parse hst e argv) = e
    | Some a \<Rightarrow> (case fs (program_path a) of
        None \<Rightarrow> app_exit (app_main po fs parse hst e argv) = Some (-1) \<and> app_engine (app_main po fs parse hst e argv) = e
      | Some src \<Rightarrow>
          if export_program a \<and> \<not> valid (parse src (program_path a))
          then app_exit (app_main po fs parse hst e argv) = Some (-1) \<and> app_engine (app_main po fs parse hst e argv) = e
          else if eval_program_flag a
          then app_exit (app_main po fs parse hst e argv) = None \<and> eng_tasks (app_engine (app_main po fs parse hst e argv)) =
            eng_tasks e @ map (\<lambda>i. (src, program_path a, of_nat i)) [0..<instance_count a]
          else app_exit (app_main po fs parse hst e argv) = Some 0 \<and> app_engine (app_main po fs parse hst e argv) = e)"
proof -
  obtain usage q where q: "parse_arguments po argv = (usage, q)" by fastforce
  show ?thesis
  proof (cases q)
    case (Fail m)
    with q show ?thesis by (simp add: app_main_def accepted_def)
  next
    case (Ok a)
    then have a: "accepted po argv = Some a" using q by (simp add: accepted_def)
    show ?thesis
    proof (cases "fs (program_path a)")
      case None
      with a q Ok show ?thesis by (simp add: app_main_def read_file_def)
    next
      case (Some src)
      with a q Ok show ?thesis
        by (simp add: app_main_def read_file_def Let_def foldl_engine_eval setup_engine_tasks
            run_context_def)
    qed
  qed
qed

text \<open>The key asked for is not the key of the help option: --help never prints the usage, it ends
  with a failure because of the missing input file.\<close>

definition long_name :: "string \<Rightarrow> string" where
  "long_name = takeWhile (\<lambda>c. c \<noteq> CHR '','')"

theorem help_is_not_recognised:
  assumes "po argv = Inr vm"
    and "\<forall>k. vm_count vm k \<longrightarrow> k \<in> long_name ` {option_input_file, option_help, option_export, option_eval, option_instance_count}"
    and "vm_count vm ''help''" and "\<not> vm_count vm ''input-file''"
  shows "app_exit (app_main po fs parse hst e argv) = Some (-1)"
    and "app_out (app_main po fs parse hst e argv) = [Line ''Program option error: Input file not set'']"
proof -
  have "option_help \<notin> long_name ` {option_input_file, option_help, option_export, option_eval, option_instance_count}"
    by (simp add: long_name_def option_input_file_def option_help_def option_export_def option_eval_def
        option_instance_count_def)
  then have "\<not> vm_count vm option_help" using assms(2) by blast
  then show "app_exit (app_main po fs parse hst e argv) = Some (-1)"
    and "app_out (app_main po fs parse hst e argv) = [Line ''Program option error: Input file not set'']"
    using assms(1,4) by (simp_all add: app_main_def parse_arguments_def option_input_file_def)
qed

lemma clean_action_reply: "clean_json (JObject (run_action what sys m))"
  by (auto simp: run_action_def error_response_def split: sum.split)

text \<open>C34: With the delegates of the program, awaiting an action dictionary long enough for the delegate
  to answer gives an action reply dictionary whose JSON form is what run_action makes of the
  request: the return code of the process, or an error when the command is missing or not a
  string, the arguments are not a string, or the process cannot be run. It never raises.\<close>

theorem awaited_action_runs_the_command:
  assumes "ev_expression ev duration s = (Done (EDuration b), s1)"
    and "duration_at (in_heap s1) b = \<lparr>dur_count = n, dur_unit = u\<rparr>" and "n \<noteq> 0"
    and "to_json (ev_depth ev) (in_heap s1) a = Some (JObject m)" and "in_deadline s1 = None"
    and "0 \<le> host_latency hst" and "host_latency hst \<le> to_std_duration \<lparr>dur_count = n, dur_unit = u\<rparr>"
  shows "\<exists>c s'. eval_await_request (configure_interpreter (setup_engine hst e) env) ev duration Action a s =
        (Done (EDictionary ActionReply c), s')
    \<and> to_json 2 (in_heap s') c = Some (JObject
        (case (map_of m ''command'', map_of m ''args'') of
           (Some (JString cmd), None) \<Rightarrow> (case host_process hst cmd [[]] of
               Inl err \<Rightarrow> [(''error'', JString err)] | Inr rc \<Rightarrow> [(''return_code'', JInt64 (scast rc))])
         | (Some (JString cmd), Some (JString args)) \<Rightarrow> (case host_process hst cmd [args] of
               Inl err \<Rightarrow> [(''error'', JString err)] | Inr rc \<Rightarrow> [(''return_code'', JInt64 (scast rc))])
         | _ \<Rightarrow> [(''error'', JString (host_what hst))]))"
proof -
  let ?impl = "run_action (host_what hst) (host_process hst)"
  have depth: "json_depth (JObject (?impl m)) = 2"
    by (auto simp: run_action_def error_response_def split: sum.split)
  have reply: "?impl m =
      (case (map_of m ''command'', map_of m ''args'') of
           (Some (JString cmd), None) \<Rightarrow> (case host_process hst cmd [[]] of
               Inl err \<Rightarrow> [(''error'', JString err)] | Inr rc \<Rightarrow> [(''return_code'', JInt64 (scast rc))])
         | (Some (JString cmd), Some (JString args)) \<Rightarrow> (case host_process hst cmd [args] of
               Inl err \<Rightarrow> [(''error'', JString err)] | Inr rc \<Rightarrow> [(''return_code'', JInt64 (scast rc))])
         | _ \<Rightarrow> [(''error'', JString (host_what hst))])"
    by (auto simp: run_action_def object_at_def error_response_def split: option.split json.split sum.split)
  have del: "delegate_of (ev_extensions (configure_interpreter (setup_engine hst e) env)) Action =
      Some (make_task (host_latency hst) ?impl)"
    by (simp add: configure_interpreter_def setup_engine_delegates)
  have answer: "make_task (host_latency hst) ?impl (JObject m) = Reply (host_latency hst) (JObject (?impl m))"
    by (simp add: make_task_def)
  from await_request_in_time [OF assms(1-4) del assms(5) clean_action_reply answer assms(6,7)]
  show ?thesis unfolding depth by (simp add: reply) blast
qed

definition silent_host :: host where
  "silent_host = \<lparr>host_what = ''not a string'', host_process = (\<lambda>cmd args. Inr 0), host_answer = 0, host_latency = 3\<rparr>"

theorem awaited_action_runs_the_command_witness:
  "\<forall>rt e. \<exists>c s'. eval_await_request (configure_interpreter (setup_engine silent_host e) (no_environment rt))
        (interpreter 3 (no_environment rt)) (ms_literal 5) Action 7
        (initial_interp\<lparr>in_heap := initial_heap @ [CString ''ls'', CDictionary [(''command'', EString 6)]]\<rparr>) =
      (Done (EDictionary ActionReply c), s')
    \<and> to_json 2 (in_heap s') c = Some (JObject [(''return_code'', JInt64 0)])"
proof (intro allI)
  fix rt :: runtime and e :: engine
  let ?env = "no_environment rt" and ?ev = "interpreter 3 (no_environment rt)"
  let ?s = "initial_interp\<lparr>in_heap := initial_heap @ [CString ''ls'', CDictionary [(''command'', EString 6)]]\<rparr>"
  let ?s1 = "?s\<lparr>in_heap := in_heap ?s @ [CDuration \<lparr>dur_count = 5, dur_unit = Ms\<rparr>]\<rparr>"
  have dur: "ev_expression ?ev (ms_literal 5) ?s = (Done (EDuration 8), ?s1)"
    by (simp add: numeral_3_eq_3 eval_ms_literal initial_heap_def)
  have at: "duration_at (in_heap ?s1) 8 = \<lparr>dur_count = 5, dur_unit = Ms\<rparr>"
    by (simp add: duration_at_def shared_get_def initial_heap_def)
  have js: "to_json (ev_depth ?ev) (in_heap ?s1) 7 = Some (JObject [(''command'', JString ''ls'')])"
    by (simp add: to_json_def dictionary_at_def shared_get_def initial_heap_def numeral_3_eq_3 string_at_def)
  have rest: "(5 :: uint64) \<noteq> 0" "in_deadline ?s1 = None" "0 \<le> host_latency silent_host"
    "host_latency silent_host \<le> to_std_duration \<lparr>dur_count = 5, dur_unit = Ms\<rparr>"
    by (simp_all add: to_std_duration_def initial_interp_def silent_host_def)
  from awaited_action_runs_the_command [OF dur at rest(1) js rest(2,3,4), of e ?env]
  show "\<exists>c s'. eval_await_request (configure_interpreter (setup_engine silent_host e) ?env) ?ev (ms_literal 5) Action 7 ?s =
      (Done (EDictionary ActionReply c), s')
    \<and> to_json 2 (in_heap s') c = Some (JObject [(''return_code'', JInt64 0)])"
    by (simp add: silent_host_def)
qed

end
