(* ===== verification/Async_Receiver.thy ===== *)
theory Async_Receiver
  imports Interfaces
begin

text \<open>
  libs/async: Receiver.hpp (the value slot of every promise) and the life of a Task (Task.hpp). Coroutines are their observable
  states; what they compute between suspension points is the caller's.
\<close>

section \<open>Receiver\<close>

datatype exn = BrokenPromise | ValueNotSet | UserException string

datatype 'v receiver = Monostate | HasValue 'v | HasException exn

definition receiver_new :: "'v receiver" where
  "receiver_new = Monostate"

definition has_value :: "'v receiver \<Rightarrow> bool" where
  "has_value r = (case r of HasValue _ \<Rightarrow> True | _ \<Rightarrow> False)"

definition unhandled_exception :: "exn \<Rightarrow> 'v receiver \<Rightarrow> 'v receiver" where
  "unhandled_exception e r = HasException e"

definition set_value :: "'v \<Rightarrow> 'v receiver \<Rightarrow> 'v receiver" where
  "set_value v r = HasValue v"

fun receiver_get :: "'v receiver \<Rightarrow> exn + 'v" where
  "receiver_get (HasException e) = Inl e"
| "receiver_get Monostate = Inl ValueNotSet"
| "receiver_get (HasValue v) = Inr v"

text \<open>How a coroutine body ends: co_return of a value or an exception that leaves it.\<close>

type_synonym 'v completion = "exn + 'v"

definition complete :: "'v completion \<Rightarrow> 'v receiver \<Rightarrow> 'v receiver" where
  "complete c r = (case c of Inl e \<Rightarrow> unhandled_exception e r | Inr v \<Rightarrow> set_value v r)"

lemma complete_get [simp]: "receiver_get (complete c r) = c"
  by (cases c) (simp_all add: complete_def unhandled_exception_def set_value_def)

section \<open>Task\<close>

text \<open>
  A task is suspended at its start, running (or suspended in its body) or at its final suspension
  point. The continuation is a noop coroutine until a caller awaits the task.
\<close>

datatype task_phase = Initial | Running | Final

record 'v task =
  tk_phase :: task_phase
  tk_receiver :: "'v receiver"
  tk_continuation :: "nat option"

definition task_new :: "'v task" where
  "task_new = \<lparr>tk_phase = Initial, tk_receiver = receiver_new, tk_continuation = None\<rparr>"

definition task_done :: "'v task \<Rightarrow> bool" where
  "task_done t \<longleftrightarrow> tk_phase t = Final"

text \<open>Resuming a coroutine at its final suspension point is undefined.\<close>

definition task_resume :: "'v task \<Rightarrow> abort + 'v task" where
  "task_resume t = (case tk_phase t of
     Final \<Rightarrow> Inl UndefinedBehaviour
   | _ \<Rightarrow> Inr (t\<lparr>tk_phase := Running\<rparr>))"

text \<open>The body ends: the receiver is filled and the final awaiter transfers to the continuation.\<close>

definition task_finish :: "'v completion \<Rightarrow> 'v task \<Rightarrow> 'v task \<times> nat option" where
  "task_finish c t =
     (t\<lparr>tk_phase := Final, tk_receiver := complete c (tk_receiver t)\<rparr>, tk_continuation t)"

datatype 'v await_result = Ready "'v completion" | Suspended

text \<open>StoreCallerAwaiter: ready when there is a value; otherwise the caller becomes the continuation and the task is resumed.\<close>

definition await_task :: "nat \<Rightarrow> 'v task \<Rightarrow> abort + 'v await_result \<times> 'v task" where
  "await_task caller t =
     (if has_value (tk_receiver t) then Inr (Ready (receiver_get (tk_receiver t)), t)
      else (case task_resume (t\<lparr>tk_continuation := Some caller\<rparr>) of
          Inl e \<Rightarrow> Inl e
        | Inr t' \<Rightarrow> Inr (Suspended, t')))"

definition await_resume :: "'v task \<Rightarrow> 'v completion" where
  "await_resume t = receiver_get (tk_receiver t)"

lemma complete_not_empty [simp]: "complete c r \<noteq> Monostate"
  by (cases c) (simp_all add: complete_def unhandled_exception_def set_value_def)

end
