(* ===== verification/Async_Latch.thy ===== *)
theory Async_Latch
  imports Async_Receiver
begin

text \<open>
  libs/async/headers/ez/async/detail/WhenAll.hpp and WhenAny.hpp: the counting latches and the
  awaiters of when_all and when_any, as transition systems whose steps are what the code does
  between two atomic operations. The tasks are given by how they end.
\<close>

section \<open>Latches\<close>

record latch =
  lt_count :: "32 word"
  lt_continuation :: bool

text \<open>WhenAllLatch starts one above the number of tasks; set_continuation takes that one back.\<close>

definition all_latch :: "nat \<Rightarrow> latch" where
  "all_latch n = \<lparr>lt_count = of_nat n + 1, lt_continuation = False\<rparr>"

definition all_set_continuation :: "latch \<Rightarrow> latch" where
  "all_set_continuation l = l\<lparr>lt_count := lt_count l - 1, lt_continuation := True\<rparr>"

text \<open>fetch_sub; the flag says that the continuation is resumed.\<close>

definition all_notify :: "latch \<Rightarrow> latch \<times> bool" where
  "all_notify l = (l\<lparr>lt_count := lt_count l - 1\<rparr>, lt_count l = 1)"

definition any_latch :: latch where
  "any_latch = \<lparr>lt_count = 0, lt_continuation = False\<rparr>"

definition any_set_continuation :: "latch \<Rightarrow> latch" where
  "any_set_continuation l = l\<lparr>lt_continuation := True\<rparr>"

definition any_notify :: "latch \<Rightarrow> latch \<times> bool" where
  "any_notify l = (l\<lparr>lt_count := lt_count l + 1\<rparr>, lt_count l = 0)"

definition any_is_ready :: "latch \<Rightarrow> bool" where
  "any_is_ready l \<longleftrightarrow> 0 < lt_count l"

section \<open>when_all\<close>

text \<open>
  What the awaiting coroutine has done when a resume called from a task returns: it has left the
  co_await expression and with it the awaiter, where the awaiter is a temporary of that expression,
  or the awaiter is still there (a parameter of the coroutine, as in sync_wait) and the coroutine
  is suspended elsewhere or has ended.
\<close>

datatype fate = AwaiterGone | CallerSuspended | CallerDone

datatype all_phase = AllReady | AllStarting nat | AllWaiting | AllResuming bool | AllResumed | AllTwice | AllBroken

record 'v awaiter =
  aw_latch :: latch
  aw_tasks :: "'v task list"
  aw_phase :: all_phase
  aw_resumes :: nat

definition all_awaiter :: "nat \<Rightarrow> 'v awaiter" where
  "all_awaiter n =
     \<lparr>aw_latch = all_latch n, aw_tasks = replicate n task_new, aw_phase = AllReady, aw_resumes = 0\<rparr>"

definition all_suspend :: "'v awaiter \<Rightarrow> 'v awaiter" where
  "all_suspend a = a\<lparr>aw_latch := all_set_continuation (aw_latch a), aw_phase := AllStarting 0\<rparr>"

definition start_task :: "nat \<Rightarrow> 'v awaiter \<Rightarrow> 'v awaiter" where
  "start_task i a = a\<lparr>aw_tasks := (aw_tasks a)[i := (aw_tasks a ! i)\<lparr>tk_phase := Running\<rparr>],
     aw_phase := AllStarting (Suc i)\<rparr>"

text \<open>
  A task ends and its final awaiter notifies the latch. The last one resumes the coroutine, inside
  await_suspend when the tasks are still being started: is_ready then reads the latch of an awaiter
  that is gone, or asks whether the coroutine has ended.
\<close>

definition all_finish :: "nat \<Rightarrow> 'v completion \<Rightarrow> fate \<Rightarrow> 'v awaiter \<Rightarrow> 'v awaiter" where
  "all_finish i c f a =
     (case all_notify (aw_latch a) of (l, resumed) \<Rightarrow>
        a\<lparr>aw_latch := l, aw_tasks := (aw_tasks a)[i := fst (task_finish c (aw_tasks a ! i))],
          aw_phase := (if \<not> resumed then aw_phase a
            else (case aw_phase a of
                AllStarting k \<Rightarrow> (case f of AwaiterGone \<Rightarrow> AllBroken
                  | CallerSuspended \<Rightarrow> AllResuming False
                  | CallerDone \<Rightarrow> AllResuming True)
              | _ \<Rightarrow> AllResumed)),
          aw_resumes := aw_resumes a + (if resumed then 1 else 0)\<rparr>)"

text \<open>await_suspend returns: false, which goes on with the coroutine, when the coroutine has ended.\<close>

definition all_return :: "'v awaiter \<Rightarrow> 'v awaiter" where
  "all_return a = (case aw_phase a of
     AllStarting k \<Rightarrow> a\<lparr>aw_phase := AllWaiting\<rparr>
   | AllResuming ended \<Rightarrow>
       (if ended then a\<lparr>aw_phase := AllTwice, aw_resumes := aw_resumes a + 1\<rparr>
        else a\<lparr>aw_phase := AllResumed\<rparr>)
   | _ \<Rightarrow> a)"

text \<open>The steps, in any interleaving of the tasks; they are started in order once the continuation is set.\<close>

inductive all_step :: "'v awaiter \<Rightarrow> 'v awaiter \<Rightarrow> bool" where
  suspend: "aw_phase a = AllReady \<Longrightarrow> all_step a (all_suspend a)"
| start: "aw_phase a = AllStarting i \<Longrightarrow> i < length (aw_tasks a) \<Longrightarrow> all_step a (start_task i a)"
| finish: "i < length (aw_tasks a) \<Longrightarrow> tk_phase (aw_tasks a ! i) = Running \<Longrightarrow> all_step a (all_finish i c f a)"
| return: "aw_phase a = AllStarting (length (aw_tasks a)) \<or> (\<exists>ended. aw_phase a = AllResuming ended) \<Longrightarrow>
    all_step a (all_return a)"

inductive_cases all_stepE: "all_step a b"

text \<open>await_resume is noexcept: an exception that get rethrows ends the program.\<close>

fun all_await_resume :: "'v task list \<Rightarrow> abort + 'v list" where
  "all_await_resume [] = Inr []"
| "all_await_resume (t # ts) = (case await_resume t of
     Inl e \<Rightarrow> Inl Terminated
   | Inr v \<Rightarrow> (case all_await_resume ts of Inl a \<Rightarrow> Inl a | Inr vs \<Rightarrow> Inr (v # vs)))"

definition unfinished :: "'v task list \<Rightarrow> nat" where
  "unfinished ts = length (filter (\<lambda>t. \<not> task_done t) ts)"

definition all_inv :: "nat \<Rightarrow> 'v awaiter \<Rightarrow> bool" where
  "all_inv n a \<longleftrightarrow> length (aw_tasks a) = n \<and> 0 < n
     \<and> unat (lt_count (aw_latch a)) = unfinished (aw_tasks a) + (if aw_phase a = AllReady then 1 else 0)
     \<and> (\<forall>t \<in> set (aw_tasks a). task_done t \<longrightarrow> tk_receiver t \<noteq> Monostate)
     \<and> (case aw_phase a of
          AllReady \<Rightarrow> aw_resumes a = 0 \<and> (\<forall>t \<in> set (aw_tasks a). tk_phase t = Initial)
        | AllStarting k \<Rightarrow> aw_resumes a = 0 \<and> 0 < unfinished (aw_tasks a)
            \<and> (\<forall>j. k \<le> j \<longrightarrow> j < n \<longrightarrow> tk_phase (aw_tasks a ! j) = Initial)
        | AllWaiting \<Rightarrow> aw_resumes a = 0 \<and> 0 < unfinished (aw_tasks a)
        | AllTwice \<Rightarrow> aw_resumes a = 2 \<and> unfinished (aw_tasks a) = 0
        | _ \<Rightarrow> aw_resumes a = 1 \<and> unfinished (aw_tasks a) = 0)"

lemma unfinished_simps [simp]:
  "unfinished [] = 0" "unfinished (t # ts) = (if task_done t then 0 else 1) + unfinished ts"
  by (simp_all add: unfinished_def)

lemma unfinished_update:
  "i < length ts \<Longrightarrow> unfinished (ts[i := t]) + (if task_done (ts ! i) then 0 else 1)
     = unfinished ts + (if task_done t then 0 else 1)"
proof (induction ts arbitrary: i)
  case (Cons u ts)
  show ?case
  proof (cases i)
    case (Suc j)
    then show ?thesis using Cons.IH [of j] Cons.prems by simp
  qed simp
qed simp

lemma unfinished_pos: "t \<in> set ts \<Longrightarrow> \<not> task_done t \<Longrightarrow> 0 < unfinished ts"
  by (auto simp: unfinished_def filter_empty_conv)

lemma unat_pred: "unat (w :: 32 word) = Suc k \<Longrightarrow> unat (w - 1) = k"
  using unat_minus_one [of w] by (cases "w = 0") simp_all

lemma unfinished_new: "unfinished (replicate n task_new) = n"
  by (induction n) (simp_all add: task_new_def task_done_def)

lemma all_inv_init:
  assumes "0 < n" and "n < 2 ^ 32 - 1"
  shows "all_inv n (all_awaiter n)"
proof -
  have "unat (of_nat (Suc n) :: 32 word) = Suc n mod 2 ^ LENGTH(32)" by (rule unat_of_nat)
  also have "\<dots> = Suc n" using assms(2) by (intro mod_less) simp
  finally have "unat (of_nat n + 1 :: 32 word) = Suc n" by (simp only: of_nat_Suc add.commute)
  moreover have "tk_phase task_new = Initial" by (simp add: task_new_def)
  ultimately show ?thesis
    using assms(1) by (auto simp: all_inv_def all_awaiter_def all_latch_def unfinished_new task_done_def)
qed

lemma all_inv_suspend:
  assumes "all_inv n a" and "aw_phase a = AllReady"
  shows "all_inv n (all_suspend a)"
proof -
  have init: "\<forall>t \<in> set (aw_tasks a). tk_phase t = Initial" and n: "length (aw_tasks a) = n" "0 < n"
    using assms by (simp_all add: all_inv_def)
  have "unat (lt_count (aw_latch a)) = Suc (unfinished (aw_tasks a))" using assms by (simp add: all_inv_def)
  then have "unat (lt_count (aw_latch a) - 1) = unfinished (aw_tasks a)" by (rule unat_pred)
  moreover have "0 < unfinished (aw_tasks a)"
    using n init by (intro unfinished_pos [of "aw_tasks a ! 0"]) (simp_all add: task_done_def)
  ultimately show ?thesis
    using assms init by (simp add: all_inv_def all_suspend_def all_set_continuation_def)
qed

lemma all_inv_start:
  assumes "all_inv n a" and "aw_phase a = AllStarting i" and "i < length (aw_tasks a)"
  shows "all_inv n (start_task i a)"
proof -
  have init: "tk_phase (aw_tasks a ! i) = Initial" using assms by (simp add: all_inv_def)
  have "unfinished ((aw_tasks a)[i := (aw_tasks a ! i)\<lparr>tk_phase := Running\<rparr>]) = unfinished (aw_tasks a)"
    using unfinished_update [OF assms(3), of "(aw_tasks a ! i)\<lparr>tk_phase := Running\<rparr>"] init
    by (simp add: task_done_def)
  moreover have "\<forall>t \<in> set ((aw_tasks a)[i := (aw_tasks a ! i)\<lparr>tk_phase := Running\<rparr>]).
      task_done t \<longrightarrow> tk_receiver t \<noteq> Monostate"
    using assms(1) set_update_subset_insert [of "aw_tasks a" i] by (fastforce simp: all_inv_def task_done_def)
  ultimately show ?thesis using assms by (simp add: all_inv_def start_task_def)
qed

lemma all_inv_finish:
  assumes inv: "all_inv n a" and i: "i < length (aw_tasks a)" "tk_phase (aw_tasks a ! i) = Running"
  shows "all_inv n (all_finish i c f a)"
proof -
  let ?t = "fst (task_finish c (aw_tasks a ! i))"
  have pos: "0 < unfinished (aw_tasks a)"
    using i by (intro unfinished_pos [of "aw_tasks a ! i"]) (simp_all add: task_done_def)
  have phase: "(\<exists>k. aw_phase a = AllStarting k) \<or> aw_phase a = AllWaiting"
  proof -
    have "aw_phase a \<noteq> AllReady" using inv i nth_mem [OF i(1)] by (auto simp: all_inv_def)
    then show ?thesis using inv pos by (cases "aw_phase a") (simp_all add: all_inv_def)
  qed
  have un: "Suc (unfinished ((aw_tasks a)[i := ?t])) = unfinished (aw_tasks a)"
    using unfinished_update [OF i(1), of ?t] i(2) by (simp add: task_done_def task_finish_def)
  have count: "unat (lt_count (aw_latch a)) = unfinished (aw_tasks a)"
    using inv phase by (auto simp: all_inv_def)
  then have count': "unat (lt_count (aw_latch a) - 1) = unfinished ((aw_tasks a)[i := ?t])"
    by (intro unat_pred) (simp add: un)
  have one: "lt_count (aw_latch a) = 1 \<longleftrightarrow> unfinished ((aw_tasks a)[i := ?t]) = 0"
    using count un by (metis One_nat_def nat.inject unat_1 unsigned_word_eqI)
  have slots: "\<forall>t \<in> set ((aw_tasks a)[i := ?t]). task_done t \<longrightarrow> tk_receiver t \<noteq> Monostate"
    using inv set_update_subset_insert [of "aw_tasks a" i ?t] by (fastforce simp: all_inv_def task_finish_def)
  have n: "length (aw_tasks a) = n" "0 < n" using inv by (simp_all add: all_inv_def)
  have resumes: "aw_resumes a = 0" using inv phase by (auto simp: all_inv_def)
  let ?ts = "(aw_tasks a)[i := ?t]"
  show ?thesis
  proof (cases "unfinished ?ts = 0")
    case True
    then have l: "all_notify (aw_latch a) = ((aw_latch a)\<lparr>lt_count := 0\<rparr>, True)"
      using one by (simp add: all_notify_def)
    show ?thesis
      using phase
    proof (elim disjE exE)
      fix k assume "aw_phase a = AllStarting k"
      then show ?thesis by (cases f) (simp_all add: all_inv_def all_finish_def l True n slots resumes)
    qed (simp add: all_inv_def all_finish_def l True n slots resumes)
  next
    case False
    then have l: "all_notify (aw_latch a) = ((aw_latch a)\<lparr>lt_count := lt_count (aw_latch a) - 1\<rparr>, False)"
      using one by (simp add: all_notify_def)
    from phase show ?thesis
    proof (elim disjE exE)
      fix k assume k: "aw_phase a = AllStarting k"
      then have init: "\<forall>j. k \<le> j \<longrightarrow> j < n \<longrightarrow> tk_phase (aw_tasks a ! j) = Initial"
        using inv by (simp add: all_inv_def)
      then have "\<not> k \<le> i" using i n by auto
      then have "\<forall>j. k \<le> j \<longrightarrow> j < n \<longrightarrow> tk_phase (?ts ! j) = Initial" using init by auto
      then show ?thesis using False by (simp add: all_inv_def all_finish_def l n slots resumes k count')
    qed (use False in \<open>simp add: all_inv_def all_finish_def l n slots resumes count'\<close>)
  qed
qed

lemma all_inv_return: "all_inv n a \<Longrightarrow> all_inv n (all_return a)"
  by (auto simp: all_inv_def all_return_def split: all_phase.splits)

lemma all_inv_step: "all_inv n a \<Longrightarrow> all_step a b \<Longrightarrow> all_inv n b"
  by (erule all_stepE) (simp_all add: all_inv_suspend all_inv_start all_inv_finish all_inv_return)

text \<open>The systems of n tasks, for every n the counter can hold.\<close>

interpretation all_system: invariant_system
    "\<lambda>a. \<exists>n. 0 < n \<and> n < 2 ^ 32 - 1 \<and> a = all_awaiter n" all_step "\<lambda>a. \<exists>n. all_inv n a"
  by unfold_locales (blast intro: all_inv_init all_inv_step)+

lemma all_await_resume_values:
  "\<forall>t \<in> set ts. \<exists>v. tk_receiver t = HasValue v \<Longrightarrow>
    all_await_resume ts = Inr (map (\<lambda>t. projr (await_resume t)) ts)"
  by (induction ts) (auto simp: await_resume_def)

lemma all_await_resume_throws:
  "\<exists>t \<in> set ts. \<exists>e. tk_receiver t = HasException e \<Longrightarrow> all_await_resume ts = Inl Terminated"
proof (induction ts)
  case (Cons t ts)
  show ?case
  proof (cases "tk_receiver t")
    case (HasValue v)
    then have "all_await_resume ts = Inl Terminated" using Cons by auto
    then show ?thesis using HasValue by (simp add: await_resume_def)
  qed (simp_all add: await_resume_def)
qed simp

end
