(* ===== verification/Async_Any.thy ===== *)
theory Async_Any
  imports Async_Latch
begin

text \<open>
  when_any: libs/async/headers/ez/async/detail/WhenAny.hpp. The first task that notifies the latch
  resumes the awaiting coroutine; the end of the co_await expression destroys the awaiter and the
  frames of the other tasks.
\<close>

section \<open>The awaiter\<close>

datatype 'v any_phase = AnyReady | AnyStarting nat | AnyWaiting | AnyResuming nat
  | AnyResumed "'v completion" | AnyTwice | AnyBroken

record 'v any_awaiter =
  an_latch :: latch
  an_tasks :: "'v task list"
  an_notified :: "bool list"
  an_phase :: "'v any_phase"
  an_resumes :: nat

definition any_awaiter_new :: "nat \<Rightarrow> 'v any_awaiter" where
  "any_awaiter_new n =
     \<lparr>an_latch = any_latch, an_tasks = replicate n task_new, an_notified = replicate n False,
      an_phase = AnyReady, an_resumes = 0\<rparr>"

text \<open>await_resume: the results of all done tasks in order, each replacing the one before; an exception ends the loop.\<close>

fun any_await_resume :: "'v completion \<Rightarrow> 'v task list \<Rightarrow> 'v completion" where
  "any_await_resume r [] = r"
| "any_await_resume r (t # ts) =
     (if task_done t
      then (case await_resume t of Inl e \<Rightarrow> Inl e | Inr v \<Rightarrow> any_await_resume (Inr v) ts)
      else any_await_resume r ts)"

definition any_suspend :: "'v any_awaiter \<Rightarrow> 'v any_awaiter" where
  "any_suspend a = a\<lparr>an_latch := any_set_continuation (an_latch a), an_phase := AnyStarting 0\<rparr>"

text \<open>The loop of start_tasks goes on when a task it started has resumed the coroutine.\<close>

definition any_start :: "nat \<Rightarrow> 'v any_awaiter \<Rightarrow> 'v any_awaiter" where
  "any_start i a = a\<lparr>an_tasks := (an_tasks a)[i := (an_tasks a ! i)\<lparr>tk_phase := Running\<rparr>],
     an_phase := (case an_phase a of AnyResuming k \<Rightarrow> AnyResuming (Suc i) | _ \<Rightarrow> AnyStarting (Suc i))\<rparr>"

text \<open>A task reaches its final suspension point: it is done.\<close>

definition any_done :: "nat \<Rightarrow> 'v completion \<Rightarrow> 'v any_awaiter \<Rightarrow> 'v any_awaiter" where
  "any_done i c a = a\<lparr>an_tasks := (an_tasks a)[i := fst (task_finish c (an_tasks a ! i))]\<rparr>"

text \<open>
  ... and notifies the latch, which may resume the coroutine: inside await_suspend when the tasks
  are still being started, and then start_tasks goes on with an awaiter that is gone or not.
\<close>

definition any_notified :: "nat \<Rightarrow> fate \<Rightarrow> 'v any_awaiter \<Rightarrow> 'v any_awaiter" where
  "any_notified i f a =
     (case any_notify (an_latch a) of (l, resumed) \<Rightarrow>
        a\<lparr>an_latch := l, an_notified := (an_notified a)[i := True],
          an_resumes := an_resumes a + (if resumed then 1 else 0),
          an_phase := (if \<not> resumed then an_phase a
            else (case an_phase a of
                AnyStarting k \<Rightarrow> (if f = AwaiterGone then AnyBroken else AnyResuming k)
              | _ \<Rightarrow> AnyResumed (any_await_resume (Inl ValueNotSet) (an_tasks a))))\<rparr>)"

text \<open>await_suspend returns: false, which goes on with the coroutine, when a task has notified.\<close>

definition any_return :: "'v any_awaiter \<Rightarrow> 'v any_awaiter" where
  "any_return a =
     (if any_is_ready (an_latch a) then a\<lparr>an_phase := AnyTwice, an_resumes := an_resumes a + 1\<rparr>
      else a\<lparr>an_phase := AnyWaiting\<rparr>)"

definition any_next :: "'v any_awaiter \<Rightarrow> nat option" where
  "any_next a = (case an_phase a of AnyStarting k \<Rightarrow> Some k | AnyResuming k \<Rightarrow> Some k | _ \<Rightarrow> None)"

text \<open>
  The steps. Several tasks may be done before the first of them notifies (they may run on different
  threads); after the coroutine was resumed from outside await_suspend the awaiter is gone.
\<close>

inductive any_step :: "'v any_awaiter \<Rightarrow> 'v any_awaiter \<Rightarrow> bool" where
  suspend: "an_phase a = AnyReady \<Longrightarrow> any_step a (any_suspend a)"
| start: "any_next a = Some i \<Longrightarrow> i < length (an_tasks a) \<Longrightarrow> any_step a (any_start i a)"
| return: "any_next a = Some (length (an_tasks a)) \<Longrightarrow> any_step a (any_return a)"
| finish: "an_phase a = AnyWaiting \<or> any_next a \<noteq> None \<Longrightarrow> i < length (an_tasks a) \<Longrightarrow>
    tk_phase (an_tasks a ! i) = Running \<Longrightarrow> any_step a (any_done i c a)"
| notify: "an_phase a = AnyWaiting \<or> any_next a \<noteq> None \<Longrightarrow> i < length (an_tasks a) \<Longrightarrow>
    task_done (an_tasks a ! i) \<Longrightarrow> \<not> an_notified a ! i \<Longrightarrow> any_step a (any_notified i f a)"

inductive_cases any_stepE: "any_step a b"

definition some_result :: "'v any_awaiter \<Rightarrow> 'v completion \<Rightarrow> bool" where
  "some_result a r \<longleftrightarrow> (\<exists>t \<in> set (an_tasks a). task_done t \<and> r = await_resume t)"

definition any_inv :: "nat \<Rightarrow> 'v any_awaiter \<Rightarrow> bool" where
  "any_inv n a \<longleftrightarrow> length (an_tasks a) = n \<and> length (an_notified a) = n \<and> n < 2 ^ 32
     \<and> unat (lt_count (an_latch a)) = count_list (an_notified a) True
     \<and> (\<forall>k. any_next a = Some k \<longrightarrow> k \<le> n)
     \<and> (case an_phase a of
        AnyResumed r \<Rightarrow> an_resumes a = 1 \<and> 0 < count_list (an_notified a) True \<and> some_result a r
      | AnyBroken \<Rightarrow> an_resumes a = 1 \<and> 0 < count_list (an_notified a) True
      | AnyResuming k \<Rightarrow> an_resumes a = 1 \<and> 0 < count_list (an_notified a) True
      | AnyTwice \<Rightarrow> an_resumes a = 2 \<and> 0 < count_list (an_notified a) True
      | _ \<Rightarrow> an_resumes a = 0 \<and> count_list (an_notified a) True = 0)"

lemma any_await_resume_done:
  "(\<exists>t \<in> set ts. task_done t) \<Longrightarrow> \<exists>t \<in> set ts. task_done t \<and> any_await_resume r ts = await_resume t"
  and any_await_resume_or:
  "any_await_resume r ts = r \<or> (\<exists>t \<in> set ts. task_done t \<and> any_await_resume r ts = await_resume t)"
proof -
  show or: "any_await_resume r ts = r \<or> (\<exists>t \<in> set ts. task_done t \<and> any_await_resume r ts = await_resume t)" for r ts
    by (induction r ts rule: any_await_resume.induct) (auto split: sum.split)
  show "(\<exists>t \<in> set ts. task_done t) \<Longrightarrow> \<exists>t \<in> set ts. task_done t \<and> any_await_resume r ts = await_resume t"
  proof (induction ts arbitrary: r)
    case (Cons t ts)
    show ?case
    proof (cases "task_done t")
      case True
      show ?thesis
      proof (cases "await_resume t")
        case (Inl e)
        with True show ?thesis by simp
      next
        case (Inr v)
        with True or [of "Inr v" ts] show ?thesis by auto
      qed
    next
      case False
      with Cons show ?thesis by auto
    qed
  qed simp
qed

lemma count_true_update:
  "i < length xs \<Longrightarrow> \<not> xs ! i \<Longrightarrow> count_list (xs[i := True]) True = Suc (count_list xs True)"
proof (induction xs arbitrary: i)
  case (Cons x xs)
  then show ?case by (cases i) auto
qed simp

lemma unat_succ: "unat (w :: 32 word) = k \<Longrightarrow> Suc k < 2 ^ 32 \<Longrightarrow> unat (w + 1) = Suc k"
  by (simp add: unat_word_ariths)

lemma count_zero: "unat (w :: 32 word) = k \<Longrightarrow> (w = 0) = (k = 0)"
  by (metis unat_0 unsigned_word_eqI)

lemma any_inv_init: "n < 2 ^ 32 \<Longrightarrow> any_inv n (any_awaiter_new n)"
  by (simp add: any_inv_def any_awaiter_new_def any_latch_def any_next_def count_list_0_iff)

lemma any_inv_notified:
  assumes inv: "any_inv n a" and i: "i < length (an_tasks a)" "\<not> an_notified a ! i"
    and ended: "task_done (an_tasks a ! i)"
    and live: "an_phase a = AnyWaiting \<or> any_next a \<noteq> None"
  shows "any_inv n (any_notified i f a)"
proof -
  have len: "length (an_tasks a) = n" "length (an_notified a) = n" "n < 2 ^ 32"
    and count: "unat (lt_count (an_latch a)) = count_list (an_notified a) True"
    using inv by (simp_all add: any_inv_def)
  have suc: "count_list ((an_notified a)[i := True]) True = Suc (count_list (an_notified a) True)"
    using i len by (intro count_true_update) simp_all
  moreover have "count_list ((an_notified a)[i := True]) True \<le> n"
    using count_le_length [of "(an_notified a)[i := True]" True] len by simp
  ultimately have count': "unat (lt_count (an_latch a) + 1) = Suc (count_list (an_notified a) True)"
    using len(3) by (intro unat_succ [OF count]) simp
  have zero: "(lt_count (an_latch a) = 0) = (count_list (an_notified a) True = 0)"
    by (rule count_zero [OF count])
  have "an_tasks a ! i \<in> set (an_tasks a)" using i by simp
  then obtain t where t: "t \<in> set (an_tasks a)" "task_done t"
    "any_await_resume (Inl ValueNotSet) (an_tasks a) = await_resume t"
    using any_await_resume_done [of "an_tasks a" "Inl ValueNotSet"] ended by blast
  then have result: "some_result a (any_await_resume (Inl ValueNotSet) (an_tasks a))"
    unfolding some_result_def by blast
  have tasks: "an_tasks (any_notified i f a) = an_tasks a" by (simp add: any_notified_def any_notify_def)
  show ?thesis
  proof (cases "an_phase a")
    case (AnyStarting k)
    then show ?thesis using inv zero count' suc len
      by (cases "f = AwaiterGone") (simp_all add: any_inv_def any_notified_def any_notify_def any_next_def)
  next
    case (AnyResuming k)
    then show ?thesis using inv zero count' suc len
      by (simp add: any_inv_def any_notified_def any_notify_def any_next_def)
  next
    case AnyWaiting
    moreover have "some_result (any_notified i f a) r = some_result a r" for r
      by (simp add: some_result_def tasks)
    ultimately show ?thesis using inv zero count' suc len result
      by (simp add: any_inv_def any_notified_def any_notify_def any_next_def some_result_def)
  qed (use live in \<open>simp_all add: any_next_def\<close>)
qed

lemma any_inv_step:
  assumes "any_inv n a" and "any_step a b"
  shows "any_inv n b"
  using assms(2)
proof cases
  case suspend
  then show ?thesis using assms(1) by (simp add: any_inv_def any_suspend_def any_set_continuation_def any_next_def)
next
  case (start i)
  then show ?thesis using assms(1)
    by (cases "an_phase a") (simp_all add: any_inv_def any_start_def any_next_def)
next
  case return
  moreover have "(lt_count (an_latch a) = 0) = (count_list (an_notified a) True = 0)"
    using assms(1) by (intro count_zero) (simp add: any_inv_def)
  ultimately show ?thesis using assms(1)
    by (cases "an_phase a") (simp_all add: any_inv_def any_return_def any_is_ready_def any_next_def word_gt_0)
next
  case (finish i c)
  then show ?thesis using assms(1)
    by (cases "an_phase a") (simp_all add: any_inv_def any_done_def any_next_def)
next
  case (notify i f)
  then show ?thesis using any_inv_notified [OF assms(1)] by simp
qed

interpretation any_system: invariant_system
    "\<lambda>a. \<exists>n. n < 2 ^ 32 \<and> a = any_awaiter_new n" any_step "\<lambda>a. \<exists>n. any_inv n a"
  by unfold_locales (blast intro: any_inv_init any_inv_step)+

lemma any_reachable_inv:
  assumes "n < 2 ^ 32" and "any_step\<^sup>*\<^sup>* (any_awaiter_new n) a"
  shows "\<exists>m. any_inv m a"
  using assms(1) by (intro any_system.inv_reachable [OF _ assms(2)]) blast

text \<open>Once a task has resumed the coroutine inside await_suspend, the end of the loop resumes it again.\<close>

lemma any_resuming_twice:
  "an_phase a = AnyResuming k \<Longrightarrow> k \<le> length (an_tasks a) \<Longrightarrow> an_resumes a = 1 \<Longrightarrow> lt_count (an_latch a) \<noteq> 0 \<Longrightarrow>
    \<exists>b. any_step\<^sup>*\<^sup>* a b \<and> an_resumes b = 2"
proof (induction "length (an_tasks a) - k" arbitrary: a k)
  case 0
  then have "any_step a (any_return a)" by (intro any_step.return) (simp add: any_next_def)
  moreover have "an_resumes (any_return a) = 2" using 0 by (simp add: any_return_def any_is_ready_def word_gt_0)
  ultimately show ?case by blast
next
  case (Suc m)
  let ?b = "any_start k a"
  have "any_step a ?b" using Suc by (intro any_step.start) (simp_all add: any_next_def)
  moreover have "\<exists>c. any_step\<^sup>*\<^sup>* ?b c \<and> an_resumes c = 2"
    using Suc.prems Suc.hyps(2) by (intro Suc.hyps(1) [of ?b "Suc k"]) (simp_all add: any_start_def)
  ultimately show ?case by (meson converse_rtranclp_into_rtranclp)
qed


end
