(* ===== verification/Async_Props.thy ===== *)
theory Async_Props
  imports Async_Any
begin

text \<open>
  The properties of when_all and when_any, over every interleaving of their tasks, and what happens
  when tasks end without suspending while await_suspend still starts them.
\<close>

section \<open>when_all\<close>

lemma all_inv_result:
  assumes "all_inv n a" and "aw_resumes a \<noteq> 0"
  shows "if \<exists>t \<in> set (aw_tasks a). \<exists>e. tk_receiver t = HasException e
         then all_await_resume (aw_tasks a) = Inl Terminated
         else all_await_resume (aw_tasks a) = Inr (map (\<lambda>t. projr (await_resume t)) (aw_tasks a))"
proof -
  have "unfinished (aw_tasks a) = 0" using assms by (cases "aw_phase a") (simp_all add: all_inv_def)
  then have finished: "task_done t" if "t \<in> set (aw_tasks a)" for t using that unfinished_pos by fastforce
  have slots: "\<forall>t \<in> set (aw_tasks a). task_done t \<longrightarrow> tk_receiver t \<noteq> Monostate"
    using assms(1) by (simp add: all_inv_def)
  have "all_await_resume (aw_tasks a) = Inr (map (\<lambda>t. projr (await_resume t)) (aw_tasks a))"
    if none: "\<not> (\<exists>t \<in> set (aw_tasks a). \<exists>e. tk_receiver t = HasException e)"
  proof (rule all_await_resume_values, rule ballI)
    fix t assume t: "t \<in> set (aw_tasks a)"
    then have "tk_receiver t \<noteq> Monostate" using slots finished by blast
    moreover have "tk_receiver t \<noteq> HasException e" for e using none t by blast
    ultimately show "\<exists>v. tk_receiver t = HasValue v" by (cases "tk_receiver t") blast+
  qed
  then show ?thesis using all_await_resume_throws [of "aw_tasks a"] by presburger
qed

lemma all_reachable_inv:
  assumes "0 < n" and "n < 2 ^ 32 - 1" and "all_step\<^sup>*\<^sup>* (all_awaiter n) a"
  shows "\<exists>m. all_inv m a"
  using assms(1,2) by (intro all_system.inv_reachable [OF _ assms(3)]) blast

text \<open>C4: when_all resumes the awaiting coroutine when, and only when, the last of its tasks has
  ended, in whatever order and on whatever threads they end, and only once unless await_suspend
  itself goes on with it; the result is then the list of the tasks' values in argument order, and
  an exception in any task ends the program.\<close>

theorem when_all_resumes_when_all_ended:
  assumes "0 < n" and "n < 2 ^ 32 - 1" and "all_step\<^sup>*\<^sup>* (all_awaiter n) a"
  shows "(aw_resumes a \<noteq> 0 \<longleftrightarrow> (\<forall>t \<in> set (aw_tasks a). task_done t))
    \<and> (aw_phase a \<noteq> AllTwice \<longrightarrow> aw_resumes a \<le> 1)
    \<and> (aw_resumes a \<noteq> 0 \<longrightarrow>
        (if \<exists>t \<in> set (aw_tasks a). \<exists>e. tk_receiver t = HasException e
         then all_await_resume (aw_tasks a) = Inl Terminated
         else all_await_resume (aw_tasks a) = Inr (map (\<lambda>t. projr (await_resume t)) (aw_tasks a))))"
proof -
  obtain m where inv: "all_inv m a" using all_reachable_inv [OF assms] by blast
  have "0 < unfinished (aw_tasks a)" if "aw_phase a = AllReady"
    using inv that by (intro unfinished_pos [of "aw_tasks a ! 0"]) (auto simp: all_inv_def task_done_def)
  then have "aw_resumes a \<noteq> 0 \<longleftrightarrow> unfinished (aw_tasks a) = 0"
    using inv by (cases "aw_phase a") (simp_all add: all_inv_def)
  then have "aw_resumes a \<noteq> 0 \<longleftrightarrow> (\<forall>t \<in> set (aw_tasks a). task_done t)"
    by (auto simp: unfinished_def filter_empty_conv)
  moreover have "aw_phase a \<noteq> AllTwice \<longrightarrow> aw_resumes a \<le> 1"
    using inv by (cases "aw_phase a") (simp_all add: all_inv_def)
  ultimately show ?thesis using all_inv_result [OF inv] by blast
qed

text \<open>A run of when_all on one task, up to the point where the task runs inside await_suspend.\<close>

definition all_one_started :: "'v awaiter" where
  "all_one_started = start_task 0 (all_suspend (all_awaiter 1))"

lemmas all_defs = all_one_started_def all_awaiter_def all_latch_def all_suspend_def
  all_set_continuation_def start_task_def task_new_def all_finish_def all_notify_def task_finish_def
  all_return_def

lemma all_one_started_reachable: "all_step\<^sup>*\<^sup>* (all_awaiter 1) all_one_started"
proof -
  have "all_step (all_awaiter 1) (all_suspend (all_awaiter 1))"
    by (rule all_step.suspend) (simp add: all_defs)
  then have "all_step\<^sup>*\<^sup>* (all_awaiter 1) (all_suspend (all_awaiter 1))" by (rule r_into_rtranclp)
  moreover have "all_step (all_suspend (all_awaiter 1)) all_one_started"
    unfolding all_one_started_def by (rule all_step.start) (simp_all add: all_defs)
  ultimately show ?thesis by (rule rtranclp.rtrancl_into_rtrancl)
qed

theorem when_all_resumes_when_all_ended_witness:
  "\<exists>a. all_step\<^sup>*\<^sup>* (all_awaiter 1) a \<and> aw_resumes a = 1 \<and> all_await_resume (aw_tasks a) = Inr [7 :: int]"
proof -
  let ?a = "all_return all_one_started :: int awaiter"
  let ?b = "all_finish 0 (Inr 7) AwaiterGone ?a"
  have "all_step all_one_started ?a" by (rule all_step.return) (simp add: all_defs)
  with all_one_started_reachable have "all_step\<^sup>*\<^sup>* (all_awaiter 1) ?a" by (rule rtranclp.rtrancl_into_rtrancl)
  moreover have "all_step ?a ?b" by (rule all_step.finish) (simp_all add: all_defs)
  ultimately have steps: "all_step\<^sup>*\<^sup>* (all_awaiter 1) ?b" by (rule rtranclp.rtrancl_into_rtrancl)
  have tasks: "aw_tasks ?b = [\<lparr>tk_phase = Final, tk_receiver = HasValue 7, tk_continuation = None\<rparr>]"
    and phase: "aw_phase ?b \<noteq> AllTwice"
    by (simp_all add: all_defs complete_def set_value_def)
  have "aw_resumes ?b = 1 \<and> all_await_resume (aw_tasks ?b) = Inr [7]"
    using when_all_resumes_when_all_ended [OF _ _ steps] phase
    unfolding tasks by (simp add: await_resume_def task_done_def del: One_nat_def)
  with steps show ?thesis by blast
qed

text \<open>When the last task of when_all ends while await_suspend is still starting the tasks, as
  every task does that never suspends, the awaiting coroutine goes on inside await_suspend, which
  then reads an awaiter that is gone; or, where the awaiter outlives the co_await expression and
  the coroutine has run to its end, as under sync_wait, await_suspend returns false and the
  coroutine is resumed a second time.\<close>

theorem when_all_synchronous_completion:
  assumes "0 < n" and "n < 2 ^ 32 - 1" and "all_step\<^sup>*\<^sup>* (all_awaiter n) a"
    and "aw_phase a = AllStarting k" and "i < length (aw_tasks a)" and "tk_phase (aw_tasks a ! i) = Running"
    and "\<forall>j < length (aw_tasks a). j \<noteq> i \<longrightarrow> task_done (aw_tasks a ! j)"
  shows "all_step a (all_finish i c f a)
    \<and> aw_phase (all_finish i c AwaiterGone a) = AllBroken
    \<and> all_step (all_finish i c CallerDone a) (all_return (all_finish i c CallerDone a))
    \<and> aw_resumes (all_return (all_finish i c CallerDone a)) = 2
    \<and> aw_resumes (all_return (all_finish i c CallerSuspended a)) = 1"
proof -
  obtain m where inv: "all_inv m a" using all_reachable_inv [OF assms(1-3)] by blast
  let ?ts = "(aw_tasks a)[i := fst (task_finish c (aw_tasks a ! i))]"
  have "\<forall>t \<in> set ?ts. task_done t"
    using assms(5,7) by (auto simp: in_set_conv_nth nth_list_update task_finish_def task_done_def)
  then have "unfinished ?ts = 0" by (simp add: unfinished_def filter_empty_conv)
  moreover have "Suc (unfinished ?ts) = unfinished (aw_tasks a)"
    using unfinished_update [OF assms(5), of "fst (task_finish c (aw_tasks a ! i))"] assms(6)
    by (simp add: task_done_def task_finish_def)
  ultimately have "unat (lt_count (aw_latch a)) = 1" using inv assms(4) by (simp add: all_inv_def)
  then have "lt_count (aw_latch a) = 1" by (metis unat_1 unsigned_word_eqI)
  moreover have "aw_resumes a = 0" using inv assms(4) by (simp add: all_inv_def)
  ultimately have finish:
    "aw_phase (all_finish i c AwaiterGone a) = AllBroken"
    "aw_phase (all_finish i c CallerDone a) = AllResuming True" "aw_resumes (all_finish i c CallerDone a) = 1"
    "aw_phase (all_finish i c CallerSuspended a) = AllResuming False"
    "aw_resumes (all_finish i c CallerSuspended a) = 1"
    using assms(4) by (simp_all add: all_finish_def all_notify_def)
  moreover have "all_step a (all_finish i c f a)" by (rule all_step.finish) (rule assms)+
  moreover have "all_step (all_finish i c CallerDone a) (all_return (all_finish i c CallerDone a))"
    using finish(2) by (intro all_step.return) blast
  ultimately show ?thesis by (simp add: all_return_def)
qed

theorem when_all_synchronous_completion_witness:
  "aw_resumes (all_return (all_finish 0 (Inr (10 :: int)) CallerDone all_one_started)) = 2"
proof -
  have "aw_phase (all_one_started :: int awaiter) = AllStarting 1" "0 < length (aw_tasks (all_one_started :: int awaiter))"
    "tk_phase (aw_tasks (all_one_started :: int awaiter) ! 0) = Running"
    "\<forall>j < length (aw_tasks (all_one_started :: int awaiter)). j \<noteq> 0 \<longrightarrow> task_done (aw_tasks (all_one_started :: int awaiter) ! j)"
    by (simp_all add: all_defs)
  from when_all_synchronous_completion [OF _ _ all_one_started_reachable this]
  show ?thesis by simp
qed

section \<open>when_any\<close>


text \<open>Two tasks, the first of them running.\<close>

definition any_two_started :: "'v any_awaiter" where
  "any_two_started = any_start 0 (any_suspend (any_awaiter_new 2))"

lemmas any_defs = any_two_started_def any_suspend_def any_awaiter_new_def any_start_def
  any_set_continuation_def any_latch_def task_new_def any_next_def

lemma any_two_started_reachable: "any_step\<^sup>*\<^sup>* (any_awaiter_new 2) any_two_started"
proof -
  have "any_step (any_awaiter_new 2) (any_suspend (any_awaiter_new 2))"
    by (rule any_step.suspend) (simp add: any_defs)
  then have "any_step\<^sup>*\<^sup>* (any_awaiter_new 2) (any_suspend (any_awaiter_new 2))" by (rule r_into_rtranclp)
  moreover have "any_step (any_suspend (any_awaiter_new 2)) any_two_started"
    unfolding any_two_started_def by (rule any_step.start) (simp_all add: any_defs)
  ultimately show ?thesis by (rule rtranclp.rtrancl_into_rtrancl)
qed


text \<open>A task of when_any that ends while await_suspend is still starting the tasks breaks it,
  whichever task it is and however it ends: the coroutine goes on inside await_suspend, whose loop
  then works on an awaiter that is gone, or, where the awaiter outlives the expression, ends by
  resuming the coroutine a second time.\<close>

theorem when_any_synchronous_completion:
  assumes "n < 2 ^ 32" and "any_step\<^sup>*\<^sup>* (any_awaiter_new n) a"
    and "an_phase a = AnyStarting k" and "i < length (an_tasks a)" and "tk_phase (an_tasks a ! i) = Running"
    and "\<not> an_notified a ! i"
  shows "any_step a (any_done i c a) \<and> any_step (any_done i c a) (any_notified i f (any_done i c a))
    \<and> an_phase (any_notified i AwaiterGone (any_done i c a)) = AnyBroken
    \<and> (\<exists>b. any_step\<^sup>*\<^sup>* (any_notified i CallerDone (any_done i c a)) b \<and> an_resumes b = 2)"
proof -
  obtain m where inv: "any_inv m a" using any_reachable_inv [OF assms(1,2)] by blast
  then have none: "an_resumes a = 0" "count_list (an_notified a) True = 0" and k: "k \<le> length (an_tasks a)"
    using assms(3) by (simp_all add: any_inv_def any_next_def)
  then have zero: "lt_count (an_latch a) = 0"
    using count_zero [of "lt_count (an_latch a)"] inv by (simp add: any_inv_def)
  have "\<exists>b. any_step\<^sup>*\<^sup>* (any_notified i CallerDone (any_done i c a)) b \<and> an_resumes b = 2"
    using assms(3) k none zero
    by (intro any_resuming_twice) (simp_all add: any_notified_def any_notify_def any_done_def)
  moreover have "an_phase (any_notified i AwaiterGone (any_done i c a)) = AnyBroken"
    using assms(3) zero by (simp add: any_notified_def any_notify_def any_done_def)
  moreover have "any_step a (any_done i c a)"
    using assms(3-5) by (intro any_step.finish) (simp_all add: any_next_def)
  moreover have "any_step (any_done i c a) (any_notified i f (any_done i c a))"
    using assms(3-6) by (intro any_step.notify) (simp_all add: any_next_def any_done_def task_finish_def task_done_def)
  ultimately show ?thesis by blast
qed

theorem when_any_synchronous_completion_witness:
  "\<exists>b. any_step\<^sup>*\<^sup>* (any_notified 0 CallerDone (any_done 0 (Inr (1 :: int)) any_two_started)) b \<and> an_resumes b = 2"
proof -
  have "an_phase (any_two_started :: int any_awaiter) = AnyStarting 1"
    "0 < length (an_tasks (any_two_started :: int any_awaiter))"
    "tk_phase (an_tasks (any_two_started :: int any_awaiter) ! 0) = Running"
    "\<not> an_notified (any_two_started :: int any_awaiter) ! 0"
    by (simp_all add: any_defs numeral_2_eq_2)
  from when_any_synchronous_completion [OF _ any_two_started_reachable this, of "Inr 1"]
  show ?thesis by simp
qed

end
