(* ===== verification/Async_Wait.thy ===== *)
theory Async_Wait
  imports Async_Receiver Interfaces
begin

text \<open>
  libs/async: Wait.hpp and detail/Wait.hpp (sync_wait). sync_wait has two
  threads: the caller, which starts the task and waits on a SyncWaitEvent that is a local of
  sync_wait, and the thread on which the task ends, which sets the event. The state has the mutex,
  the flag, the lifetime of the event, and a program counter for each thread; spurious wake-ups of
  the condition variable are steps. After an access to the destroyed event nothing more happens.
\<close>

section \<open>SyncWaitEvent\<close>

datatype wait_thread = Caller | Ender

text \<open>set(): before, in the critical section before and after the store, between the unlock and
  notify_all, and after. wait(): before, holding the lock at the test, blocked, woken, returned;
  then sync_wait takes the result and destroys the event.\<close>

datatype set_point = SetNotCalled | SetLocked | SetStored | SetUnlocked | SetReturned
datatype wait_point = WaitNotCalled | WaitTesting | WaitBlocked | WaitWoken | WaitReturned | SyncWaitReturned

record 'v sync_wait =
  sw_owner :: "wait_thread option"
  sw_set :: bool
  sw_result :: "'v receiver"
  sw_ender :: set_point
  sw_caller :: wait_point
  sw_broken :: bool

definition event_alive :: "'v sync_wait \<Rightarrow> bool" where
  "event_alive s \<longleftrightarrow> sw_caller s \<noteq> SyncWaitReturned"

definition sync_wait_start :: "'v sync_wait" where
  "sync_wait_start =
     \<lparr>sw_owner = None, sw_set = False, sw_result = receiver_new, sw_ender = SetNotCalled,
      sw_caller = WaitNotCalled, sw_broken = False\<rparr>"

text \<open>The task ends: its receiver has the outcome, then the final awaiter calls set().\<close>

definition task_ends :: "'v completion \<Rightarrow> 'v sync_wait \<Rightarrow> 'v sync_wait" where
  "task_ends c s = s\<lparr>sw_result := complete c (sw_result s)\<rparr>"

definition set_lock :: "'v sync_wait \<Rightarrow> 'v sync_wait" where
  "set_lock s = s\<lparr>sw_owner := Some Ender, sw_ender := SetLocked\<rparr>"

definition set_store :: "'v sync_wait \<Rightarrow> 'v sync_wait" where
  "set_store s = s\<lparr>sw_set := True, sw_ender := SetStored\<rparr>"

definition set_unlock :: "'v sync_wait \<Rightarrow> 'v sync_wait" where
  "set_unlock s = s\<lparr>sw_owner := None, sw_ender := SetUnlocked\<rparr>"

definition set_notify :: "'v sync_wait \<Rightarrow> 'v sync_wait" where
  "set_notify s =
     (if event_alive s
      then s\<lparr>sw_ender := SetReturned,
             sw_caller := (if sw_caller s = WaitBlocked then WaitWoken else sw_caller s)\<rparr>
      else s\<lparr>sw_broken := True\<rparr>)"

definition wait_lock :: "'v sync_wait \<Rightarrow> 'v sync_wait" where
  "wait_lock s = s\<lparr>sw_owner := Some Caller, sw_caller := WaitTesting\<rparr>"

text \<open>The test of the predicate: return with the lock released, or release it and block.\<close>

definition wait_test :: "'v sync_wait \<Rightarrow> 'v sync_wait" where
  "wait_test s = s\<lparr>sw_owner := None, sw_caller := (if sw_set s then WaitReturned else WaitBlocked)\<rparr>"

definition wait_spurious :: "'v sync_wait \<Rightarrow> 'v sync_wait" where
  "wait_spurious s = s\<lparr>sw_caller := WaitWoken\<rparr>"

definition sync_wait_return :: "'v sync_wait \<Rightarrow> 'v sync_wait" where
  "sync_wait_return s = s\<lparr>sw_caller := SyncWaitReturned\<rparr>"

text \<open>What sync_wait then returns or throws.\<close>

definition sync_wait_get :: "'v sync_wait \<Rightarrow> 'v completion" where
  "sync_wait_get s = receiver_get (sw_result s)"

inductive wait_step :: "'v sync_wait \<Rightarrow> 'v sync_wait \<Rightarrow> bool" where
  ended: "\<not> sw_broken s \<Longrightarrow> sw_result s = Monostate \<Longrightarrow> wait_step s (task_ends c s)"
| locked: "\<not> sw_broken s \<Longrightarrow> sw_result s \<noteq> Monostate \<Longrightarrow> sw_ender s = SetNotCalled \<Longrightarrow> sw_owner s = None
    \<Longrightarrow> wait_step s (set_lock s)"
| stored: "\<not> sw_broken s \<Longrightarrow> sw_ender s = SetLocked \<Longrightarrow> wait_step s (set_store s)"
| unlocked: "\<not> sw_broken s \<Longrightarrow> sw_ender s = SetStored \<Longrightarrow> wait_step s (set_unlock s)"
| notified: "\<not> sw_broken s \<Longrightarrow> sw_ender s = SetUnlocked \<Longrightarrow> wait_step s (set_notify s)"
| waits: "\<not> sw_broken s \<Longrightarrow> sw_caller s \<in> {WaitNotCalled, WaitWoken} \<Longrightarrow> sw_owner s = None
    \<Longrightarrow> wait_step s (wait_lock s)"
| tests: "\<not> sw_broken s \<Longrightarrow> sw_caller s = WaitTesting \<Longrightarrow> wait_step s (wait_test s)"
| spurious: "\<not> sw_broken s \<Longrightarrow> sw_caller s = WaitBlocked \<Longrightarrow> wait_step s (wait_spurious s)"
| returned: "\<not> sw_broken s \<Longrightarrow> sw_caller s = WaitReturned \<Longrightarrow> wait_step s (sync_wait_return s)"

lemmas wait_defs =
  task_ends_def set_lock_def set_store_def set_unlock_def set_notify_def wait_lock_def wait_test_def
  wait_spurious_def sync_wait_return_def event_alive_def

section \<open>The invariant\<close>

definition wait_inv :: "'v sync_wait \<Rightarrow> bool" where
  "wait_inv s \<longleftrightarrow>
     (sw_owner s = Some Ender \<longleftrightarrow> sw_ender s \<in> {SetLocked, SetStored}) \<and>
     (sw_owner s = Some Caller \<longleftrightarrow> sw_caller s = WaitTesting) \<and>
     (sw_set s \<longleftrightarrow> sw_ender s \<in> {SetStored, SetUnlocked, SetReturned}) \<and>
     (sw_ender s \<noteq> SetNotCalled \<longrightarrow> sw_result s \<noteq> Monostate) \<and>
     (sw_caller s \<in> {WaitReturned, SyncWaitReturned} \<longrightarrow> sw_set s) \<and>
     (sw_caller s = WaitBlocked \<longrightarrow> sw_ender s \<noteq> SetReturned) \<and>
     (sw_broken s \<longrightarrow> sw_caller s = SyncWaitReturned \<and> sw_ender s = SetUnlocked)"

lemma wait_inv_start: "wait_inv sync_wait_start"
  by (simp add: wait_inv_def sync_wait_start_def receiver_new_def)

lemma wait_inv_step: "wait_step s t \<Longrightarrow> wait_inv s \<Longrightarrow> wait_inv t"
  by (induction rule: wait_step.induct) (auto simp: wait_inv_def wait_defs complete_not_empty)

interpretation waiting: invariant_system "\<lambda>s. s = sync_wait_start" wait_step wait_inv
  by unfold_locales (auto intro: wait_inv_start wait_inv_step)

text \<open>C16: sync_wait returns only after the task has ended, with its outcome stored, and no wake-up is
  lost: once set() has returned the caller is not blocked, and as long as the caller has not
  returned and set() has been entered one of the two threads can take a step.\<close>

theorem sync_wait_returns_after_the_task:
  assumes "wait_step\<^sup>*\<^sup>* sync_wait_start s"
  shows "(sw_caller s \<in> {WaitReturned, SyncWaitReturned} \<longrightarrow> sw_result s \<noteq> Monostate) \<and>
    (sw_ender s = SetReturned \<longrightarrow> sw_caller s \<noteq> WaitBlocked) \<and>
    (sw_caller s \<noteq> SyncWaitReturned \<and> sw_result s \<noteq> Monostate \<longrightarrow>
       (\<exists>t. wait_step s t \<and> \<not> (sw_caller s = WaitBlocked \<and> t = wait_spurious s)))"
proof -
  have inv: "wait_inv s" using waiting.inv_reachable [OF refl assms] .
  have "\<exists>t. wait_step s t \<and> \<not> (sw_caller s = WaitBlocked \<and> t = wait_spurious s)"
    if "sw_caller s \<noteq> SyncWaitReturned" "sw_result s \<noteq> Monostate"
  proof -
    have ok: "\<not> sw_broken s" using inv that(1) by (auto simp: wait_inv_def)
    show ?thesis
    proof (cases "sw_caller s = WaitTesting")
      case True
      with wait_step.tests [OF ok] show ?thesis by fastforce
    next
      case free: False
      show ?thesis
      proof (cases "sw_ender s")
        case SetNotCalled
        with inv free have "sw_owner s = None" by (cases "sw_owner s"; cases "the (sw_owner s)") (auto simp: wait_inv_def)
        with wait_step.locked [OF ok that(2) SetNotCalled] SetNotCalled show ?thesis
          by (intro exI [of _ "set_lock s"]) (auto simp: wait_defs dest: arg_cong [where f = sw_ender])
      next
        case SetLocked
        with wait_step.stored [OF ok] show ?thesis
          by (intro exI [of _ "set_store s"]) (auto simp: wait_defs dest: arg_cong [where f = sw_ender])
      next
        case SetStored
        with wait_step.unlocked [OF ok] show ?thesis
          by (intro exI [of _ "set_unlock s"]) (auto simp: wait_defs dest: arg_cong [where f = sw_ender])
      next
        case SetUnlocked
        with wait_step.notified [OF ok] that(1) show ?thesis
          by (intro exI [of _ "set_notify s"]) (auto simp: wait_defs dest: arg_cong [where f = sw_ender])
      next
        case SetReturned
        then have "sw_owner s = None"
          using inv free by (cases "sw_owner s"; cases "the (sw_owner s)") (auto simp: wait_inv_def)
        moreover have "sw_caller s \<noteq> WaitBlocked" using inv SetReturned by (auto simp: wait_inv_def)
        ultimately show ?thesis
          using wait_step.waits [OF ok] wait_step.returned [OF ok] that(1) free
          by (cases "sw_caller s") auto
      qed
    qed
  qed
  with inv show ?thesis by (auto simp: wait_inv_def)
qed

definition demo_wait :: "unit sync_wait" where
  "demo_wait = sync_wait_return (wait_test (wait_lock (set_unlock (set_store (set_lock
     (task_ends (Inr ()) sync_wait_start))))))"

lemma demo_wait_reached: "wait_step\<^sup>*\<^sup>* sync_wait_start demo_wait"
proof -
  let ?a = "task_ends (Inr ()) sync_wait_start :: unit sync_wait"
  note defs = wait_defs sync_wait_start_def receiver_new_def complete_not_empty
  have "wait_step sync_wait_start ?a" by (rule ended) (simp_all add: defs)
  moreover have "wait_step ?a (set_lock ?a)" by (rule locked) (simp_all add: defs)
  moreover have "wait_step (set_lock ?a) (set_store (set_lock ?a))" by (rule stored) (simp_all add: defs)
  moreover have "wait_step (set_store (set_lock ?a)) (set_unlock (set_store (set_lock ?a)))"
    by (rule unlocked) (simp_all add: defs)
  moreover have "wait_step (set_unlock (set_store (set_lock ?a)))
      (wait_lock (set_unlock (set_store (set_lock ?a))))" by (rule waits) (simp_all add: defs)
  moreover have "wait_step (wait_lock (set_unlock (set_store (set_lock ?a))))
      (wait_test (wait_lock (set_unlock (set_store (set_lock ?a)))))" by (rule tests) (simp_all add: defs)
  moreover have "wait_step (wait_test (wait_lock (set_unlock (set_store (set_lock ?a))))) demo_wait"
    unfolding demo_wait_def by (rule returned) (simp_all add: defs)
  ultimately show ?thesis by (meson rtranclp.rtrancl_refl rtranclp.rtrancl_into_rtrancl)
qed

theorem sync_wait_returns_after_the_task_witness:
  "sw_caller demo_wait = SyncWaitReturned \<and> sw_result demo_wait \<noteq> Monostate \<and>
    sync_wait_get demo_wait = Inr ()"
proof -
  have c: "sw_caller demo_wait = SyncWaitReturned" "sync_wait_get demo_wait = Inr ()"
    by (simp_all add: demo_wait_def wait_defs sync_wait_start_def sync_wait_get_def)
  with sync_wait_returns_after_the_task [OF demo_wait_reached] show ?thesis by simp
qed

text \<open>
  set() unlocks before it notifies, and the caller owns the event: in between, the caller can test
  the flag, return and destroy the event, so that notify_all is called on a destroyed condition
  variable.
\<close>

theorem event_may_be_destroyed_before_notify:
  "\<exists>s t. wait_step\<^sup>*\<^sup>* sync_wait_start s \<and> wait_step s t \<and> sw_broken (t :: unit sync_wait)"
proof (intro exI conjI)
  show "wait_step\<^sup>*\<^sup>* sync_wait_start demo_wait" by (rule demo_wait_reached)
  show "wait_step demo_wait (set_notify demo_wait)"
    by (rule notified) (simp_all add: demo_wait_def wait_defs sync_wait_start_def)
  show "sw_broken (set_notify demo_wait)"
    by (simp add: demo_wait_def wait_defs sync_wait_start_def)
qed

end
