(* ===== verification/Async_Operation.thy ===== *)
theory Async_Operation
  imports Async_Receiver
begin

text \<open>
  libs/async: Operation.hpp, Delay.hpp and Race.hpp on one io_context run by one thread. The timer
  is asio's: a wait is outstanding until the timer expires or is cancelled, then its handler is
  queued with or without an error, then it is invoked. Cancelling a timer does not reach a handler
  that is already queued. The order of all this is not fixed: it is a step relation.
\<close>

section \<open>Delay\<close>

datatype wait_state = NoWait | Outstanding | QueuedOk | QueuedAborted | Invoked

record timer =
  tm_expiry :: nat
  tm_wait :: wait_state

record 'r delay =
  dl_timer :: "timer option"
  dl_duration :: nat
  dl_return :: 'r

definition delay_new :: "nat \<Rightarrow> 'r \<Rightarrow> 'r delay" where
  "delay_new d r = \<lparr>dl_timer = None, dl_duration = d, dl_return = r\<rparr>"

definition delay_start :: "'r delay \<Rightarrow> 'r delay" where
  "delay_start d = d\<lparr>dl_timer := Some \<lparr>tm_expiry = 0, tm_wait = NoWait\<rparr>\<rparr>"

definition delay_is_ready :: "'r delay \<Rightarrow> bool" where
  "delay_is_ready d = False"

definition delay_on_done :: "nat \<Rightarrow> 'r delay \<Rightarrow> abort + 'r delay" where
  "delay_on_done now d =
     (case dl_timer d of
        None \<Rightarrow> Inl UndefinedBehaviour
      | Some t \<Rightarrow> Inr (d\<lparr>dl_timer := Some \<lparr>tm_expiry = now + dl_duration d, tm_wait = Outstanding\<rparr>\<rparr>))"

definition delay_cancel :: "'r delay \<Rightarrow> abort + 'r delay" where
  "delay_cancel d =
     (case dl_timer d of
        None \<Rightarrow> Inl UndefinedBehaviour
      | Some t \<Rightarrow> Inr (d\<lparr>dl_timer := Some
          (if tm_wait t = Outstanding then t\<lparr>tm_wait := QueuedAborted\<rparr> else t)\<rparr>))"

definition delay_result :: "'r delay \<Rightarrow> 'r" where
  "delay_result d = dl_return d"

definition wait_of :: "'r delay \<Rightarrow> wait_state" where
  "wait_of d = (case dl_timer d of None \<Rightarrow> NoWait | Some t \<Rightarrow> tm_wait t)"

definition set_wait :: "wait_state \<Rightarrow> 'r delay \<Rightarrow> 'r delay" where
  "set_wait ws d = d\<lparr>dl_timer := map_option (\<lambda>t. t\<lparr>tm_wait := ws\<rparr>) (dl_timer d)\<rparr>"

definition expired :: "nat \<Rightarrow> 'r delay \<Rightarrow> bool" where
  "expired now d \<longleftrightarrow> (case dl_timer d of None \<Rightarrow> False | Some t \<Rightarrow> tm_wait t = Outstanding \<and> tm_expiry t \<le> now)"

section \<open>Operation\<close>

record 'r operation =
  op_op :: "'r delay"
  op_done :: bool

definition operation_new :: "'r delay \<Rightarrow> 'r operation" where
  "operation_new d = \<lparr>op_op = d, op_done = False\<rparr>"

definition operation_await_ready :: "'r operation \<Rightarrow> bool \<times> 'r operation" where
  "operation_await_ready x = (let x' = x\<lparr>op_op := delay_start (op_op x)\<rparr> in (delay_is_ready (op_op x'), x'))"

definition operation_await_suspend :: "nat \<Rightarrow> 'r operation \<Rightarrow> abort + 'r operation" where
  "operation_await_suspend now x = map_sum id (\<lambda>d. x\<lparr>op_op := d\<rparr>) (delay_on_done now (op_op x))"

definition operation_await_resume :: "'r operation \<Rightarrow> 'r" where
  "operation_await_resume x = delay_result (op_op x)"

definition operation_cancel :: "'r operation \<Rightarrow> abort + bool \<times> 'r operation" where
  "operation_cancel x =
     (if op_done x then Inr (False, x)
      else map_sum id (\<lambda>d. (True, x\<lparr>op_op := d, op_done := True\<rparr>)) (delay_cancel (op_op x)))"

text \<open>co_await: await_ready, then await_suspend.\<close>

definition operation_await :: "nat \<Rightarrow> 'r operation \<Rightarrow> abort + 'r operation" where
  "operation_await now x =
     (case operation_await_ready x of (ready, x') \<Rightarrow> if ready then Inr x' else operation_await_suspend now x')"

text \<open>ContextFreeOperation does not start what it awaits, so a Delay in it has no timer yet.\<close>

definition context_free_await_ready :: "'r operation \<Rightarrow> bool \<times> 'r operation" where
  "context_free_await_ready x = (delay_is_ready (op_op x), x)"

definition context_free_await_suspend :: "nat \<Rightarrow> 'r operation \<Rightarrow> abort + 'r operation" where
  "context_free_await_suspend now x = map_sum id (\<lambda>d. x\<lparr>op_op := d\<rparr>) (delay_on_done now (op_op x))"

definition context_free_cancel :: "'r operation \<Rightarrow> abort + bool \<times> 'r operation" where
  "context_free_cancel x =
     (if op_done x then Inr (False, x)
      else map_sum id (\<lambda>d. (True, x\<lparr>op_op := d, op_done := True\<rparr>)) (delay_cancel (op_op x)))"

lemma context_free_delay_has_no_timer:
  "context_free_await_suspend now (snd (context_free_await_ready (operation_new (delay_new d r)))) = Inl UndefinedBehaviour"
  "operation_await now (operation_new (delay_new d r)) \<noteq> Inl e"
  by (simp_all add: context_free_await_ready_def context_free_await_suspend_def delay_on_done_def operation_new_def
      delay_new_def operation_await_def operation_await_ready_def operation_await_suspend_def delay_start_def delay_is_ready_def)

text \<open>The handler: on success safe_resume, and when that returns the flag is set.\<close>

definition handler_starts :: "'r operation \<Rightarrow> 'r operation" where
  "handler_starts x = x\<lparr>op_op := set_wait Invoked (op_op x)\<rparr>"

definition handler_ends :: "'r operation \<Rightarrow> 'r operation" where
  "handler_ends x = x\<lparr>op_done := True\<rparr>"

lemmas operation_defs =
  delay_new_def delay_start_def delay_is_ready_def delay_on_done_def delay_cancel_def wait_of_def set_wait_def expired_def
  operation_new_def operation_await_ready_def operation_await_suspend_def operation_cancel_def operation_await_def
  handler_starts_def handler_ends_def

section \<open>One operation that is awaited once\<close>

text \<open>\<open>ow_resumed\<close> counts the resumptions of the awaiting coroutine, \<open>ow_cancels\<close> has what the
  calls of cancel returned.\<close>

record 'r op_world =
  ow_clock :: nat
  ow_op :: "'r operation"
  ow_awaited :: "nat option"
  ow_resumed :: nat
  ow_in_handler :: bool
  ow_cancels :: "bool list"

definition op_start :: "nat \<Rightarrow> 'r \<Rightarrow> 'r op_world" where
  "op_start d r =
     \<lparr>ow_clock = 0, ow_op = operation_new (delay_new d r), ow_awaited = None, ow_resumed = 0,
      ow_in_handler = False, ow_cancels = []\<rparr>"

inductive op_step :: "'r op_world \<Rightarrow> abort + 'r op_world \<Rightarrow> bool" where
  awaits: "ow_awaited w = None \<Longrightarrow> operation_await (ow_clock w) (ow_op w) = Inr x \<Longrightarrow>
    op_step w (Inr (w\<lparr>ow_op := x, ow_awaited := Some (ow_clock w)\<rparr>))"
| passes: "op_step w (Inr (w\<lparr>ow_clock := Suc (ow_clock w)\<rparr>))"
| expires: "expired (ow_clock w) (op_op (ow_op w)) \<Longrightarrow>
    op_step w (Inr (w\<lparr>ow_op := (ow_op w)\<lparr>op_op := set_wait QueuedOk (op_op (ow_op w))\<rparr>\<rparr>))"
| resumes: "wait_of (op_op (ow_op w)) = QueuedOk \<Longrightarrow>
    op_step w (Inr (w\<lparr>ow_op := handler_starts (ow_op w), ow_resumed := Suc (ow_resumed w), ow_in_handler := True\<rparr>))"
| returns: "ow_in_handler w \<Longrightarrow>
    op_step w (Inr (w\<lparr>ow_op := handler_ends (ow_op w), ow_in_handler := False\<rparr>))"
| aborts: "wait_of (op_op (ow_op w)) = QueuedAborted \<Longrightarrow>
    op_step w (Inr (w\<lparr>ow_op := handler_starts (ow_op w)\<rparr>))"
| cancels: "operation_cancel (ow_op w) = Inr (b, x) \<Longrightarrow>
    op_step w (Inr (w\<lparr>ow_op := x, ow_cancels := ow_cancels w @ [b]\<rparr>))"
| cancel_fails: "operation_cancel (ow_op w) = Inl e \<Longrightarrow> op_step w (Inl e)"

abbreviation op_moves :: "'r op_world \<Rightarrow> 'r op_world \<Rightarrow> bool" where
  "op_moves w w' \<equiv> op_step w (Inr w')"

definition op_inv :: "nat \<Rightarrow> 'r op_world \<Rightarrow> bool" where
  "op_inv d w \<longleftrightarrow>
     dl_duration (op_op (ow_op w)) = d \<and> length (filter id (ow_cancels w)) \<le> 1 \<and>
     (True \<in> set (ow_cancels w) \<longrightarrow> op_done (ow_op w)) \<and>
     (case ow_awaited w of
        None \<Rightarrow> dl_timer (op_op (ow_op w)) = None \<and> \<not> op_done (ow_op w) \<and> ow_resumed w = 0 \<and> \<not> ow_in_handler w
      | Some t \<Rightarrow> t \<le> ow_clock w \<and> (\<exists>ws. dl_timer (op_op (ow_op w)) = Some \<lparr>tm_expiry = t + d, tm_wait = ws\<rparr> \<and>
          (case ws of
             NoWait \<Rightarrow> False
           | Outstanding \<Rightarrow> ow_resumed w = 0 \<and> \<not> ow_in_handler w \<and> \<not> op_done (ow_op w)
           | QueuedOk \<Rightarrow> ow_resumed w = 0 \<and> \<not> ow_in_handler w \<and> t + d \<le> ow_clock w \<and>
               (op_done (ow_op w) \<longrightarrow> True \<in> set (ow_cancels w))
           | QueuedAborted \<Rightarrow> ow_resumed w = 0 \<and> \<not> ow_in_handler w \<and> True \<in> set (ow_cancels w)
           | Invoked \<Rightarrow> (if ow_resumed w = 0 then True \<in> set (ow_cancels w) \<and> \<not> ow_in_handler w
               else ow_resumed w = 1 \<and> t + d \<le> ow_clock w \<and> (ow_in_handler w \<or> op_done (ow_op w))))))"

lemma filter_id_none: "True \<notin> set bs \<Longrightarrow> filter id bs = []"
  by (induction bs) auto

lemma op_inv_start: "op_inv d (op_start d r)"
  by (simp add: op_inv_def op_start_def operation_defs)

lemma op_inv_step:
  assumes step: "op_moves w w'" and inv: "op_inv d w"
  shows "op_inv d w'"
proof (cases "ow_awaited w")
  case None
  with inv have w: "dl_timer (op_op (ow_op w)) = None" "\<not> op_done (ow_op w)" "ow_resumed w = 0" "\<not> ow_in_handler w"
    "dl_duration (op_op (ow_op w)) = d" "length (filter id (ow_cancels w)) \<le> 1" "True \<notin> set (ow_cancels w)"
    by (auto simp: op_inv_def)
  from step show ?thesis
    by cases (use None w in \<open>auto simp: op_inv_def operation_defs\<close>)
next
  case (Some t)
  with inv obtain ws where w: "dl_timer (op_op (ow_op w)) = Some \<lparr>tm_expiry = t + d, tm_wait = ws\<rparr>"
    by (auto simp: op_inv_def)
  from step show ?thesis
    by (cases; cases ws) (use inv Some w in \<open>auto simp: op_inv_def operation_defs filter_id_none split: if_splits\<close>)
qed

lemma op_inv_reached: "op_moves\<^sup>*\<^sup>* (op_start d r) w \<Longrightarrow> op_inv d w"
  by (induction rule: rtranclp_induct) (auto intro: op_inv_start op_inv_step)

text \<open>After a cancel that the timer obeys the coroutine is never resumed.\<close>

definition op_gone :: "'r op_world \<Rightarrow> bool" where
  "op_gone w \<longleftrightarrow> ow_awaited w \<noteq> None \<and> ow_resumed w = 0 \<and> \<not> ow_in_handler w \<and>
     wait_of (op_op (ow_op w)) \<in> {QueuedAborted, Invoked}"

lemma op_gone_stays: "op_moves\<^sup>*\<^sup>* w w' \<Longrightarrow> op_gone w \<Longrightarrow> op_gone w'"
proof (induction rule: rtranclp_induct)
  case (step u v)
  then have g: "op_gone u" by simp
  from step.hyps(2) show ?case
    by cases (use g in \<open>auto simp: op_gone_def operation_defs split: option.splits if_splits\<close>)
qed

lemma clock_passes: "op_moves\<^sup>*\<^sup>* w (w\<lparr>ow_clock := ow_clock w + k\<rparr>)"
proof (induction k)
  case (Suc k)
  from op_step.passes [of "w\<lparr>ow_clock := ow_clock w + k\<rparr>"] Suc show ?case
    by (auto intro: rtranclp.rtrancl_into_rtrancl)
qed simp

lemma resumed_at_last:
  assumes "op_inv d w" and "ow_awaited w = Some t" and "True \<notin> set (ow_cancels w)"
  shows "\<exists>w'. op_moves\<^sup>*\<^sup>* w w' \<and> ow_resumed w' = 1"
proof -
  have queued: "\<exists>w'. op_moves\<^sup>*\<^sup>* u w' \<and> ow_resumed w' = 1"
    if "wait_of (op_op (ow_op u)) = QueuedOk" "ow_resumed u = 0" for u :: "'a op_world"
    using op_step.resumes [OF that(1)] that(2) by (auto intro!: exI r_into_rtranclp)
  obtain ws where ws: "dl_timer (op_op (ow_op w)) = Some \<lparr>tm_expiry = t + d, tm_wait = ws\<rparr>"
    using assms(1,2) by (auto simp: op_inv_def)
  show ?thesis
  proof (cases ws)
    case Outstanding
    let ?u = "w\<lparr>ow_clock := ow_clock w + (t + d)\<rparr>"
    let ?v = "?u\<lparr>ow_op := (ow_op ?u)\<lparr>op_op := set_wait QueuedOk (op_op (ow_op ?u))\<rparr>\<rparr>"
    have "op_moves\<^sup>*\<^sup>* w ?u" by (rule clock_passes)
    moreover have "op_moves ?u ?v"
      by (rule op_step.expires) (simp add: expired_def ws Outstanding)
    moreover obtain w' where "op_moves\<^sup>*\<^sup>* ?v w'" "ow_resumed w' = 1"
      using queued [of ?v] assms(1,2) ws Outstanding by (auto simp: op_inv_def operation_defs)
    ultimately show ?thesis by (meson rtranclp.rtrancl_into_rtrancl rtranclp_trans)
  next
    case QueuedOk
    with queued [of w] ws assms show ?thesis by (auto simp: op_inv_def wait_of_def)
  qed (use assms ws in \<open>auto simp: op_inv_def split: if_splits\<close>)
qed

lemma op_inv_bounds:
  assumes "op_inv d w"
  shows "ow_resumed w \<le> 1 \<and> (ow_resumed w = 1 \<longrightarrow> (\<exists>t. ow_awaited w = Some t \<and> t + d \<le> ow_clock w)) \<and>
      length (filter id (ow_cancels w)) \<le> 1"
proof (cases "ow_awaited w")
  case (Some t)
  with assms obtain ws where "dl_timer (op_op (ow_op w)) = Some \<lparr>tm_expiry = t + d, tm_wait = ws\<rparr>"
    by (auto simp: op_inv_def)
  with Some assms show ?thesis by (cases ws) (auto simp: op_inv_def split: if_splits)
qed (use assms in \<open>auto simp: op_inv_def\<close>)

text \<open>C17: The coroutine that awaits a delay is resumed at most once and never before the delay is over; it
  can always still be resumed as long as no cancel succeeded. A cancel succeeds at most once, and when
  the timer has not expired by then the coroutine is never resumed. Cancelling what was not awaited
  yet is the only way to go wrong.\<close>

theorem operation_resumes_once_or_is_cancelled:
  assumes "op_moves\<^sup>*\<^sup>* (op_start d r) w"
  shows "ow_resumed w \<le> 1
    \<and> (ow_resumed w = 1 \<longrightarrow> (\<exists>t. ow_awaited w = Some t \<and> t + d \<le> ow_clock w))
    \<and> (ow_awaited w \<noteq> None \<and> True \<notin> set (ow_cancels w) \<longrightarrow> (\<exists>w'. op_moves\<^sup>*\<^sup>* w w' \<and> ow_resumed w' = 1))
    \<and> length (filter id (ow_cancels w)) \<le> 1
    \<and> (wait_of (op_op (ow_op w)) = Outstanding \<longrightarrow> (\<exists>x. operation_cancel (ow_op w) = Inr (True, x) \<and>
        (\<forall>w'. op_moves\<^sup>*\<^sup>* (w\<lparr>ow_op := x, ow_cancels := ow_cancels w @ [True]\<rparr>) w' \<longrightarrow> ow_resumed w' = 0)))
    \<and> ((\<exists>e. op_step w (Inl e)) \<longleftrightarrow> ow_awaited w = None)"
proof -
  have inv: "op_inv d w" by (rule op_inv_reached [OF assms])
  have "\<exists>x. operation_cancel (ow_op w) = Inr (True, x) \<and>
        (\<forall>w'. op_moves\<^sup>*\<^sup>* (w\<lparr>ow_op := x, ow_cancels := ow_cancels w @ [True]\<rparr>) w' \<longrightarrow> ow_resumed w' = 0)"
    if "wait_of (op_op (ow_op w)) = Outstanding"
  proof -
    define x where "x = (ow_op w)\<lparr>op_op := set_wait QueuedAborted (op_op (ow_op w)), op_done := True\<rparr>"
    have "operation_cancel (ow_op w) = Inr (True, x)" and "op_gone (w\<lparr>ow_op := x, ow_cancels := ow_cancels w @ [True]\<rparr>)"
      using inv that by (auto simp: x_def op_inv_def op_gone_def operation_defs split: option.splits)
    with op_gone_stays show ?thesis unfolding op_gone_def by blast
  qed
  moreover note op_inv_bounds [OF inv]
  moreover have "(\<exists>e. op_step w (Inl e)) \<longleftrightarrow> ow_awaited w = None"
    using inv by (auto simp: op_step.simps op_inv_def operation_defs split: option.splits)
  moreover have "ow_awaited w \<noteq> None \<and> True \<notin> set (ow_cancels w) \<longrightarrow> (\<exists>w'. op_moves\<^sup>*\<^sup>* w w' \<and> ow_resumed w' = 1)"
    using resumed_at_last [OF inv] by blast
  ultimately show ?thesis by blast
qed

definition op_demo :: "unit op_world" where
  "op_demo =
     \<lparr>ow_clock = 0, ow_op = \<lparr>op_op = \<lparr>dl_timer = Some \<lparr>tm_expiry = 0, tm_wait = Invoked\<rparr>, dl_duration = 0, dl_return = ()\<rparr>,
        op_done = False\<rparr>, ow_awaited = Some 0, ow_resumed = 1, ow_in_handler = True, ow_cancels = []\<rparr>"

lemma op_demo_reached: "op_moves\<^sup>*\<^sup>* (op_start 0 ()) op_demo"
proof -
  let ?d = "\<lambda>ws. op_demo\<lparr>ow_op := \<lparr>op_op = \<lparr>dl_timer = Some \<lparr>tm_expiry = 0, tm_wait = ws\<rparr>, dl_duration = 0, dl_return = ()\<rparr>,
        op_done = False\<rparr>, ow_resumed := 0, ow_in_handler := False\<rparr>"
  have "op_moves (op_start 0 ()) (?d Outstanding)"
    using op_step.awaits [of "op_start 0 ()" "ow_op (?d Outstanding)"] by (simp add: op_start_def op_demo_def operation_defs)
  moreover have "op_moves (?d Outstanding) (?d QueuedOk)"
    using op_step.expires [of "?d Outstanding"] by (simp add: op_demo_def operation_defs)
  moreover have "op_moves (?d QueuedOk) op_demo"
    using op_step.resumes [of "?d QueuedOk"] by (simp add: op_demo_def operation_defs)
  ultimately show ?thesis by (meson rtranclp.rtrancl_refl rtranclp.rtrancl_into_rtrancl)
qed

theorem operation_resumes_once_or_is_cancelled_witness:
  "ow_resumed op_demo = 1 \<and> (\<exists>t. ow_awaited op_demo = Some t \<and> t + 0 \<le> ow_clock op_demo) \<and>
     \<not> (\<exists>e. op_step op_demo (Inl e))"
  using operation_resumes_once_or_is_cancelled [OF op_demo_reached] by (simp add: op_demo_def)

section \<open>race\<close>

text \<open>
  The coroutine of race is resumed inside the handler of the first operation to complete. The tasks
  of when_any, with the coroutines that await the operations, are destroyed at the end of the
  co_await; then every operation is cancelled, the first one included. A handler that runs after
  that resumes a coroutine that no longer exists.
\<close>

record 'r race =
  rc_clock :: nat
  rc_ops :: "'r operation list"
  rc_over :: bool

fun on_each :: "('x \<Rightarrow> abort + 'x) \<Rightarrow> 'x list \<Rightarrow> abort + 'x list" where
  "on_each f [] = Inr []"
| "on_each f (x # xs) = (case f x of Inl e \<Rightarrow> Inl e | Inr y \<Rightarrow> map_sum id (Cons y) (on_each f xs))"

definition race_start :: "nat \<Rightarrow> 'r operation list \<Rightarrow> abort + 'r race" where
  "race_start now ops =
     map_sum id (\<lambda>xs. \<lparr>rc_clock = now, rc_ops = xs, rc_over = False\<rparr>) (on_each (operation_await now) ops)"

definition race_cancel :: "'r operation list \<Rightarrow> abort + 'r operation list" where
  "race_cancel ops = on_each (\<lambda>x. map_sum id snd (operation_cancel x)) ops"

definition race_resumed :: "nat \<Rightarrow> 'r race \<Rightarrow> abort + 'r race" where
  "race_resumed i s =
     (if rc_over s then Inl UndefinedBehaviour
      else map_sum id (\<lambda>ops. s\<lparr>rc_ops := ops[i := handler_ends (ops ! i)], rc_over := True\<rparr>)
        (race_cancel ((rc_ops s)[i := handler_starts (rc_ops s ! i)])))"

inductive race_step :: "'r race \<Rightarrow> abort + 'r race \<Rightarrow> bool" where
  race_passes: "race_step s (Inr (s\<lparr>rc_clock := Suc (rc_clock s)\<rparr>))"
| race_expires: "i < length (rc_ops s) \<Longrightarrow> expired (rc_clock s) (op_op (rc_ops s ! i)) \<Longrightarrow>
    race_step s (Inr (s\<lparr>rc_ops := (rc_ops s)[i := (rc_ops s ! i)\<lparr>op_op := set_wait QueuedOk (op_op (rc_ops s ! i))\<rparr>]\<rparr>))"
| race_resumes: "i < length (rc_ops s) \<Longrightarrow> wait_of (op_op (rc_ops s ! i)) = QueuedOk \<Longrightarrow>
    race_step s (race_resumed i s)"
| race_aborts: "i < length (rc_ops s) \<Longrightarrow> wait_of (op_op (rc_ops s ! i)) = QueuedAborted \<Longrightarrow>
    race_step s (Inr (s\<lparr>rc_ops := (rc_ops s)[i := handler_starts (rc_ops s ! i)]\<rparr>))"

abbreviation race_moves :: "'r race \<Rightarrow> 'r race \<Rightarrow> bool" where
  "race_moves s s' \<equiv> race_step s (Inr s')"

definition waits :: "'r race \<Rightarrow> wait_state list" where
  "waits s = map (wait_of \<circ> op_op) (rc_ops s)"

lemma on_each_Inr:
  assumes "\<And>x. x \<in> set xs \<Longrightarrow> f x = Inr (g x)"
  shows "on_each f xs = Inr (map g xs)"
  using assms by (induction xs) auto

lemma race_start_waits:
  "race_start now (map operation_new ds) = Inr s \<Longrightarrow>
     \<not> rc_over s \<and> length (rc_ops s) = length ds \<and> set (waits s) \<subseteq> {Outstanding, QueuedOk} \<and> (\<forall>x \<in> set (rc_ops s). \<not> op_done x)"
proof -
  have "on_each (operation_await now) (map operation_new ds) = Inr (map (\<lambda>x. projr (operation_await now x)) (map operation_new ds))"
    by (rule on_each_Inr) (auto simp: operation_defs)
  moreover assume "race_start now (map operation_new ds) = Inr s"
  ultimately show ?thesis
    by (auto simp: race_start_def waits_def operation_defs)
qed

text \<open>Until the first handler runs, and after a handler has run while no other was queued.\<close>

definition racing :: "nat \<Rightarrow> 'r race \<Rightarrow> bool" where
  "racing n s \<longleftrightarrow> \<not> rc_over s \<and> length (rc_ops s) = n \<and> set (waits s) \<subseteq> {Outstanding, QueuedOk} \<and>
     (\<forall>x \<in> set (rc_ops s). \<not> op_done x)"

definition race_settled :: "'r race \<Rightarrow> bool" where
  "race_settled s \<longleftrightarrow> rc_over s \<and> set (waits s) \<subseteq> {Invoked, QueuedAborted}"

lemma waits_nth: "j < length (rc_ops s) \<Longrightarrow> waits s ! j = wait_of (op_op (rc_ops s ! j))"
  by (simp add: waits_def)

lemma waits_in: "set (waits s) \<subseteq> A \<Longrightarrow> j < length (rc_ops s) \<Longrightarrow> wait_of (op_op (rc_ops s ! j)) \<in> A"
  by (auto simp: waits_def)

lemma waits_update:
  "waits (s\<lparr>rc_ops := (rc_ops s)[i := x]\<rparr>) = (waits s)[i := wait_of (op_op x)]"
  "waits (s\<lparr>rc_clock := t\<rparr>) = waits s"
  by (simp_all add: waits_def map_update)

lemma wait_of_set: "wait_of d \<noteq> NoWait \<Longrightarrow> wait_of (set_wait ws d) = ws"
  by (auto simp: wait_of_def set_wait_def split: option.splits)

lemma expired_wait: "expired now d \<Longrightarrow> wait_of d = Outstanding"
  by (auto simp: expired_def wait_of_def split: option.splits)

lemma race_resumed_waits:
  assumes "racing n s" and "i < n" and "waits s ! i = QueuedOk"
  shows "\<exists>s'. race_resumed i s = Inr s' \<and> rc_over s' \<and> length (rc_ops s') = n \<and> (\<forall>j < n. waits s' ! j =
    (if j = i then Invoked else if waits s ! j = Outstanding then QueuedAborted else QueuedOk))"
proof -
  define g where "g x = snd (projr (operation_cancel x))" for x :: "'a operation"
  let ?ops = "(rc_ops s)[i := handler_starts (rc_ops s ! i)]"
  have n: "length (rc_ops s) = n" using assms(1) by (simp add: racing_def)
  have op: "\<not> op_done (rc_ops s ! j)" "wait_of (op_op (rc_ops s ! j)) \<in> {Outstanding, QueuedOk}" if "j < n" for j
    using assms(1) that n waits_in [of s _ j] by (auto simp: racing_def)
  have cancel: "operation_cancel x = Inr (True, g x) \<and>
      wait_of (op_op (g x)) = (if wait_of (op_op x) = Outstanding then QueuedAborted else wait_of (op_op x))"
    if "\<not> op_done x" "wait_of (op_op x) \<noteq> NoWait" for x
    using that by (auto simp: g_def operation_defs split: option.splits)
  have at: "\<not> op_done (?ops ! j) \<and> wait_of (op_op (?ops ! j)) = (if j = i then Invoked else waits s ! j)" if "j < n" for j
    using that op [of j] assms(2) n by (auto simp: nth_list_update handler_starts_def wait_of_set waits_nth)
  have "on_each (\<lambda>x. map_sum id snd (operation_cancel x)) ?ops = Inr (map g ?ops)"
  proof (rule on_each_Inr)
    fix x
    assume "x \<in> set ?ops"
    then obtain j where "j < n" "x = ?ops ! j" using n by (auto simp: in_set_conv_nth)
    with at [of j] op(2) [of j] cancel [of x] n show "map_sum id snd (operation_cancel x) = Inr (g x)"
      by (auto simp: waits_nth split: if_splits)
  qed
  then have res: "race_resumed i s = Inr (s\<lparr>rc_ops := (map g ?ops)[i := handler_ends (map g ?ops ! i)], rc_over := True\<rparr>)"
    using assms(1) by (simp add: race_resumed_def race_cancel_def racing_def)
  moreover have "wait_of (op_op ((map g ?ops)[i := handler_ends (map g ?ops ! i)] ! j)) =
      (if j = i then Invoked else if waits s ! j = Outstanding then QueuedAborted else QueuedOk)" if "j < n" for j
    using at [OF that] cancel [of "?ops ! j"] op(2) [OF that] that n assms(2)
    by (auto simp: nth_list_update handler_ends_def waits_nth)
  ultimately show ?thesis using n by (auto simp: waits_def)
qed

lemma racing_step:
  assumes "race_moves s s'" and "racing n s"
  shows "racing n s' \<or> rc_over s'"
  using assms(1)
proof cases
  case (race_expires i)
  with assms(2) show ?thesis
    by (auto simp: racing_def waits_update wait_of_set expired_wait dest: set_update_subset_insert [THEN subsetD])
next
  case (race_resumes i)
  with assms(2) race_resumed_waits [OF assms(2), of i] show ?thesis by (auto simp: racing_def waits_nth)
next
  case (race_aborts i)
  with assms(2) waits_in [of s "{Outstanding, QueuedOk}" i] show ?thesis by (auto simp: racing_def)
qed (use assms(2) in \<open>auto simp: racing_def waits_update\<close>)

lemma over_step: "race_moves s s' \<Longrightarrow> rc_over s \<Longrightarrow> rc_over s'"
  by (cases rule: race_step.cases, assumption) (auto simp: race_resumed_def)

lemma settled_step:
  assumes "race_step s r" and "race_settled s"
  shows "\<exists>s'. r = Inr s' \<and> race_settled s'"
  using assms(1)
proof cases
  case (race_expires i)
  with assms(2) waits_in [of s "{Invoked, QueuedAborted}" i] show ?thesis
    by (auto simp: race_settled_def dest!: expired_wait)
next
  case (race_resumes i)
  with assms(2) waits_in [of s "{Invoked, QueuedAborted}" i] show ?thesis by (auto simp: race_settled_def)
next
  case (race_aborts i)
  with assms(2) show ?thesis
    by (auto simp: race_settled_def waits_update handler_starts_def wait_of_set
        dest: set_update_subset_insert [THEN subsetD])
qed (use assms(2) in \<open>auto simp: race_settled_def waits_update\<close>)

lemma racing_reached:
  assumes "race_start now (map operation_new ds) = Inr s0" and "race_moves\<^sup>*\<^sup>* s0 s" and "\<not> rc_over s"
  shows "racing (length ds) s"
  using assms(2,3)
proof (induction rule: rtranclp_induct)
  case base
  with race_start_waits [OF assms(1)] show ?case by (simp add: racing_def)
next
  case (step u v)
  with over_step racing_step show ?case by blast
qed

text \<open>C18: When the handler of the first timer runs, race ends. If no other timer has expired by then,
  nothing ever goes wrong afterwards; if another one has, its handler is queued and can no longer be
  cancelled, and it will resume a coroutine that race has destroyed.\<close>

theorem race_ends_cleanly_iff_one_timer_expired:
  assumes "race_start now (map operation_new ds) = Inr s0" and "race_moves\<^sup>*\<^sup>* s0 s" and "\<not> rc_over s"
    and "i < length ds" and "waits s ! i = QueuedOk"
  shows "\<exists>s'. race_resumed i s = Inr s' \<and> rc_over s' \<and>
    ((\<forall>s'' e. race_moves\<^sup>*\<^sup>* s' s'' \<longrightarrow> \<not> race_step s'' (Inl e)) \<longleftrightarrow>
     (\<forall>j < length ds. waits s ! j = QueuedOk \<longrightarrow> j = i))"
proof -
  have racing: "racing (length ds) s" by (rule racing_reached [OF assms(1-3)])
  obtain s' where s': "race_resumed i s = Inr s'" "rc_over s'" "length (rc_ops s') = length ds" "\<forall>j < length ds. waits s' ! j =
      (if j = i then Invoked else if waits s ! j = Outstanding then QueuedAborted else QueuedOk)"
    using race_resumed_waits [OF racing assms(4,5)] by blast
  have two: "\<exists>e. race_step s' (Inl e)" if j: "j < length ds" "waits s ! j = QueuedOk" "j \<noteq> i" for j
  proof -
    have "wait_of (op_op (rc_ops s' ! j)) = QueuedOk" using s'(3,4) j by (simp add: waits_nth [symmetric])
    from race_resumes [OF _ this] s'(2,3) j(1) show ?thesis by (auto simp: race_resumed_def)
  qed
  have one: "\<not> race_step s'' (Inl e)"
    if only: "\<forall>j < length ds. waits s ! j = QueuedOk \<longrightarrow> j = i" and "race_moves\<^sup>*\<^sup>* s' s''" for s'' e
  proof -
    have "waits s ! j \<in> {Outstanding, QueuedOk}" if "j < length ds" for j
      using racing that waits_in [of s "{Outstanding, QueuedOk}" j] by (simp add: racing_def waits_nth)
    then have later: "waits s' ! j \<in> {Invoked, QueuedAborted}" if "j < length ds" for j
      using s'(4) only that by auto
    have "x \<in> {Invoked, QueuedAborted}" if x: "x \<in> set (waits s')" for x
    proof -
      from x obtain j where "j < length (waits s')" "x = waits s' ! j" by (auto simp: in_set_conv_nth)
      with later [of j] s'(3) show ?thesis by (simp only: waits_def length_map)
    qed
    with s'(2) have "race_settled s'" unfolding race_settled_def by blast
    with that(2) have "race_settled s''"
      by (induction rule: rtranclp_induct) (use settled_step in blast)+
    with settled_step show ?thesis by blast
  qed
  have "(\<forall>s'' e. race_moves\<^sup>*\<^sup>* s' s'' \<longrightarrow> \<not> race_step s'' (Inl e)) \<longleftrightarrow> (\<forall>j < length ds. waits s ! j = QueuedOk \<longrightarrow> j = i)"
  proof
    assume all: "\<forall>s'' e. race_moves\<^sup>*\<^sup>* s' s'' \<longrightarrow> \<not> race_step s'' (Inl e)"
    then have "\<not> race_step s' (Inl e)" for e by blast
    with two show "\<forall>j < length ds. waits s ! j = QueuedOk \<longrightarrow> j = i" by blast
  qed (use one in blast)
  with s'(1,2) show ?thesis by blast
qed

text \<open>Two delays of no time: both timers have expired before the first handler runs.\<close>

definition race_demo :: "wait_state \<Rightarrow> wait_state \<Rightarrow> nat race" where
  "race_demo v w =
     \<lparr>rc_clock = 0, rc_ops =
        [\<lparr>op_op = \<lparr>dl_timer = Some \<lparr>tm_expiry = 0, tm_wait = v\<rparr>, dl_duration = 0, dl_return = 1\<rparr>, op_done = False\<rparr>,
         \<lparr>op_op = \<lparr>dl_timer = Some \<lparr>tm_expiry = 0, tm_wait = w\<rparr>, dl_duration = 0, dl_return = 2\<rparr>, op_done = False\<rparr>],
      rc_over = False\<rparr>"

lemma race_demo_start:
  "race_start 0 (map operation_new [delay_new 0 1, delay_new 0 2]) = Inr (race_demo Outstanding Outstanding)"
  by (simp add: race_start_def race_demo_def operation_defs)

lemma race_demo_reached: "race_moves\<^sup>*\<^sup>* (race_demo Outstanding Outstanding) (race_demo QueuedOk QueuedOk)"
proof -
  have "race_moves (race_demo Outstanding Outstanding) (race_demo QueuedOk Outstanding)"
    using race_expires [of 0 "race_demo Outstanding Outstanding"] by (simp add: race_demo_def operation_defs)
  moreover have "race_moves (race_demo QueuedOk Outstanding) (race_demo QueuedOk QueuedOk)"
    using race_expires [of 1 "race_demo QueuedOk Outstanding"] by (simp add: race_demo_def operation_defs)
  ultimately show ?thesis by (meson rtranclp.rtrancl_refl rtranclp.rtrancl_into_rtrancl)
qed

theorem race_ends_cleanly_iff_one_timer_expired_witness:
  "\<exists>s' s'' e. race_resumed 0 (race_demo QueuedOk QueuedOk) = Inr s' \<and> race_moves\<^sup>*\<^sup>* s' s'' \<and> race_step s'' (Inl e)"
proof -
  have d: "\<not> rc_over (race_demo QueuedOk QueuedOk)" "waits (race_demo QueuedOk QueuedOk) = [QueuedOk, QueuedOk]"
    by (simp_all add: race_demo_def waits_def wait_of_def)
  then have "\<not> (\<forall>j < length [delay_new 0 1, delay_new 0 (2 :: nat)]. waits (race_demo QueuedOk QueuedOk) ! j = QueuedOk \<longrightarrow> j = 0)"
    by (auto intro!: exI [of _ 1])
  with race_ends_cleanly_iff_one_timer_expired [OF race_demo_start race_demo_reached d(1), of 0] d(2)
  show ?thesis by fastforce
qed

end
