(* ===== verification/Async_Pool.thy ===== *)
theory Async_Pool
  imports Async_Receiver Interfaces
begin

text \<open>
  libs/async: Executor.hpp and src/Executor.cpp (TaskPool), Schedule.hpp. An io_context is the list
  of the functions posted to it; asio::post never calls the function in the posting call. The
  wrapper coroutine of operator\<open><<\<close> is a capturing lambda: its frame refers to the closure object,
  which is a local of operator\<open><<\<close>, so that the captured \<open>this\<close> can only be read during that call.
\<close>

section \<open>Posting\<close>

datatype pool_job = ResumeWrapper nat | Cleanup | ResumeCoroutine nat

definition post :: "pool_job list \<Rightarrow> pool_job \<Rightarrow> pool_job list" where
  "post q j = q @ [j]"

text \<open>schedule_on: the awaiting coroutine is never ready; it is resumed by the executor.\<close>

definition schedule_ready :: bool where
  "schedule_ready = False"

definition schedule_suspend :: "pool_job list \<Rightarrow> nat \<Rightarrow> pool_job list" where
  "schedule_suspend q co = post q (ResumeCoroutine co)"

section \<open>TaskPool\<close>

text \<open>How far a wrapper is, and what the wrapped task does when it is resumed.\<close>

datatype wrapper_state = WrapperSuspended | WrapperAwaiting | WrapperDone

datatype task_move = TaskReturns | TaskThrows | TaskSuspends

record task_pool =
  tp_tasks :: "nat list"
  tp_jobs :: "pool_job list"
  tp_wrapper :: "nat \<Rightarrow> wrapper_state"
  tp_next :: nat
  tp_call :: "nat option"

definition task_pool_new :: task_pool where
  "task_pool_new =
     \<lparr>tp_tasks = [], tp_jobs = [], tp_wrapper = (\<lambda>_. WrapperSuspended), tp_next = 0, tp_call = None\<rparr>"

text \<open>operator\<open><<\<close>, up to its return statement and after it.\<close>

definition pool_push :: "task_pool \<Rightarrow> task_pool" where
  "pool_push p =
     (let n = tp_next p
      in p\<lparr>tp_tasks := tp_tasks p @ [n], tp_jobs := post (tp_jobs p) (ResumeWrapper n),
           tp_next := Suc n, tp_call := Some n\<rparr>)"

definition pool_push_return :: "task_pool \<Rightarrow> task_pool" where
  "pool_push_return p = p\<lparr>tp_call := None\<rparr>"

text \<open>The wrapped task made a move: when it returned, the wrapper posts the clean-up through the
  captured \<open>this\<close>; an exception ends the wrapper before that.\<close>

definition wrapper_move :: "nat \<Rightarrow> task_move \<Rightarrow> task_pool \<Rightarrow> abort + task_pool" where
  "wrapper_move n e p =
     (case e of
        TaskSuspends \<Rightarrow> Inr (p\<lparr>tp_wrapper := (tp_wrapper p)(n := WrapperAwaiting)\<rparr>)
      | TaskThrows \<Rightarrow> Inr (p\<lparr>tp_wrapper := (tp_wrapper p)(n := WrapperDone)\<rparr>)
      | TaskReturns \<Rightarrow>
          if tp_call p = Some n
          then Inr (p\<lparr>tp_wrapper := (tp_wrapper p)(n := WrapperDone), tp_jobs := post (tp_jobs p) Cleanup\<rparr>)
          else Inl UndefinedBehaviour)"

definition cleanup :: "task_pool \<Rightarrow> task_pool" where
  "cleanup p = p\<lparr>tp_tasks := filter (\<lambda>n. tp_wrapper p n \<noteq> WrapperDone) (tp_tasks p)\<rparr>"

text \<open>The context runs its first function; a resumed wrapper runs the wrapped task.\<close>

definition run_job :: "task_move \<Rightarrow> task_pool \<Rightarrow> abort + task_pool" where
  "run_job e p =
     (case tp_jobs p of
        [] \<Rightarrow> Inr p
      | j # js \<Rightarrow>
          let p' = p\<lparr>tp_jobs := js\<rparr>
          in (case j of
                ResumeWrapper n \<Rightarrow> wrapper_move n e p'
              | Cleanup \<Rightarrow> Inr (cleanup p')
              | ResumeCoroutine co \<Rightarrow> Inr p'))"

text \<open>One thread uses the pool and runs the context; a suspended task goes on at any time.\<close>

inductive pool_step :: "abort + task_pool \<Rightarrow> abort + task_pool \<Rightarrow> bool" where
  push: "tp_call p = None \<Longrightarrow> pool_step (Inr p) (Inr (pool_push p))"
| pushed: "tp_call p \<noteq> None \<Longrightarrow> pool_step (Inr p) (Inr (pool_push_return p))"
| run: "tp_call p = None \<Longrightarrow> pool_step (Inr p) (run_job e p)"
| awaited: "tp_call p = None \<Longrightarrow> n < tp_next p \<Longrightarrow> tp_wrapper p n = WrapperAwaiting
    \<Longrightarrow> pool_step (Inr p) (wrapper_move n e p)"

lemmas pool_defs = pool_push_def pool_push_return_def wrapper_move_def run_job_def cleanup_def post_def

text \<open>Every task given to the pool is kept, and the clean-up is never posted.\<close>

definition pool_inv :: "abort + task_pool \<Rightarrow> bool" where
  "pool_inv s \<longleftrightarrow>
     (case s of Inl e \<Rightarrow> e = UndefinedBehaviour
      | Inr p \<Rightarrow> tp_tasks p = [0..<tp_next p] \<and> Cleanup \<notin> set (tp_jobs p))"

lemma pool_inv_step: "pool_inv s \<Longrightarrow> pool_step s t \<Longrightarrow> pool_inv t"
  by (erule pool_step.cases)
    (auto simp: pool_inv_def pool_defs Let_def split: list.splits pool_job.splits task_move.splits)

interpretation pools: invariant_system "\<lambda>s. s = Inr task_pool_new" pool_step pool_inv
proof
  show "pool_inv s" if "s = Inr task_pool_new" for s
    using that by (simp add: pool_inv_def task_pool_new_def)
qed (rule pool_inv_step)



end
