(* ===== verification/Rpc_Codec.thy ===== *)
theory Rpc_Codec
  imports Core_Result "HOL-Library.Word"
begin

text \<open>
  libs/rpc: Types.hpp, messages.proto, Serializer.hpp and Serializer.cpp. Protocol buffers are a
  parameter, the record codec; codec_ok is the documented round trip of its messages, whose string
  fields must be valid text.
\<close>

section \<open>Types\<close>

type_synonym bytes = string
type_synonym peer_id = string
type_synonym request_id = string

record rpc_error =
  er_code :: int
  er_what :: string

definition timeout_code :: int where "timeout_code = 0"
definition failed_to_send_request_code :: int where "failed_to_send_request_code = 1"
definition function_not_found_code :: int where "function_not_found_code = 2"
definition internal_error_code :: int where "internal_error_code = 3"

definition send_request_failure :: rpc_error where
  "send_request_failure = \<lparr>er_code = failed_to_send_request_code, er_what = ''Failed to send request''\<rparr>"

definition timeout_failure :: rpc_error where
  "timeout_failure = \<lparr>er_code = timeout_code, er_what = ''Response timeout''\<rparr>"

definition internal_error :: "string \<Rightarrow> rpc_error" where
  "internal_error message = \<lparr>er_code = internal_error_code, er_what = message\<rparr>"

type_synonym raw_reply = "(bytes, rpc_error) outcome"

section \<open>Messages\<close>

record request =
  rq_id :: request_id
  rq_function_name :: string
  rq_name_space :: string
  rq_arguments :: "bytes list"

datatype payload = NoPayload | Payload bytes | PayloadError int string

record reply =
  rp_request_id :: request_id
  rp_payload :: payload

text \<open>The values of serializable types; a floating-point value is its bits, a message type of the application a number.\<close>

datatype rvalue = VBool bool | VDouble "64 word" | VFloat "32 word" | VString string
  | VInt32 "32 word" | VInt64 "64 word" | VUInt32 "32 word" | VUInt64 "64 word" | VMessage nat string

datatype rtype = TBool | TDouble | TFloat | TString | TInt32 | TInt64 | TUInt32 | TUInt64 | TMessage nat

fun type_of :: "rvalue \<Rightarrow> rtype" where
  "type_of (VBool b) = TBool"
| "type_of (VDouble w) = TDouble"
| "type_of (VFloat w) = TFloat"
| "type_of (VString s) = TString"
| "type_of (VInt32 w) = TInt32"
| "type_of (VInt64 w) = TInt64"
| "type_of (VUInt32 w) = TUInt32"
| "type_of (VUInt64 w) = TUInt64"
| "type_of (VMessage k s) = TMessage k"

text \<open>The messages of the protocol: the wrappers of google/protobuf/wrappers.proto, those of the application, Request and Reply.\<close>

datatype proto = BoolValue bool | DoubleValue "64 word" | FloatValue "32 word" | StringValue string
  | Int32Value "32 word" | Int64Value "64 word" | UInt32Value "32 word" | UInt64Value "64 word"
  | Application nat string | RequestMessage request | ReplyMessage reply

datatype proto_type = BoolValueT | DoubleValueT | FloatValueT | StringValueT | Int32ValueT | Int64ValueT
  | UInt32ValueT | UInt64ValueT | ApplicationT nat | RequestT | ReplyT

fun proto_type_of :: "proto \<Rightarrow> proto_type" where
  "proto_type_of (BoolValue b) = BoolValueT"
| "proto_type_of (DoubleValue w) = DoubleValueT"
| "proto_type_of (FloatValue w) = FloatValueT"
| "proto_type_of (StringValue s) = StringValueT"
| "proto_type_of (Int32Value w) = Int32ValueT"
| "proto_type_of (Int64Value w) = Int64ValueT"
| "proto_type_of (UInt32Value w) = UInt32ValueT"
| "proto_type_of (UInt64Value w) = UInt64ValueT"
| "proto_type_of (Application k s) = ApplicationT k"
| "proto_type_of (RequestMessage r) = RequestT"
| "proto_type_of (ReplyMessage r) = ReplyT"

section \<open>Protocol buffers\<close>

record codec =
  serialize_as_string :: "proto \<Rightarrow> bytes"
  parse_from_string :: "proto_type \<Rightarrow> bytes \<Rightarrow> proto option"
  is_text :: "string \<Rightarrow> bool"

fun proto_text :: "codec \<Rightarrow> proto \<Rightarrow> bool" where
  "proto_text cd (StringValue s) = is_text cd s"
| "proto_text cd (RequestMessage r) =
     (is_text cd (rq_id r) \<and> is_text cd (rq_function_name r) \<and> is_text cd (rq_name_space r))"
| "proto_text cd (ReplyMessage r) =
     (is_text cd (rp_request_id r) \<and> (case rp_payload r of PayloadError c w \<Rightarrow> is_text cd w | _ \<Rightarrow> True))"
| "proto_text cd p = True"

definition codec_ok :: "codec \<Rightarrow> bool" where
  "codec_ok cd \<longleftrightarrow>
     (\<forall>p. proto_text cd p \<longrightarrow> parse_from_string cd (proto_type_of p) (serialize_as_string cd p) = Some p)
     \<and> (\<forall>t b p. parse_from_string cd t b = Some p \<longrightarrow> proto_type_of p = t)"

section \<open>Serializers\<close>

fun wrapper_of :: "rvalue \<Rightarrow> proto" where
  "wrapper_of (VBool b) = BoolValue b"
| "wrapper_of (VDouble w) = DoubleValue w"
| "wrapper_of (VFloat w) = FloatValue w"
| "wrapper_of (VString s) = StringValue s"
| "wrapper_of (VInt32 w) = Int32Value w"
| "wrapper_of (VInt64 w) = Int64Value w"
| "wrapper_of (VUInt32 w) = UInt32Value w"
| "wrapper_of (VUInt64 w) = UInt64Value w"
| "wrapper_of (VMessage k s) = Application k s"

fun wrapper_type :: "rtype \<Rightarrow> proto_type" where
  "wrapper_type TBool = BoolValueT"
| "wrapper_type TDouble = DoubleValueT"
| "wrapper_type TFloat = FloatValueT"
| "wrapper_type TString = StringValueT"
| "wrapper_type TInt32 = Int32ValueT"
| "wrapper_type TInt64 = Int64ValueT"
| "wrapper_type TUInt32 = UInt32ValueT"
| "wrapper_type TUInt64 = UInt64ValueT"
| "wrapper_type (TMessage k) = ApplicationT k"

fun unwrap :: "proto \<Rightarrow> rvalue option" where
  "unwrap (BoolValue b) = Some (VBool b)"
| "unwrap (DoubleValue w) = Some (VDouble w)"
| "unwrap (FloatValue w) = Some (VFloat w)"
| "unwrap (StringValue s) = Some (VString s)"
| "unwrap (Int32Value w) = Some (VInt32 w)"
| "unwrap (Int64Value w) = Some (VInt64 w)"
| "unwrap (UInt32Value w) = Some (VUInt32 w)"
| "unwrap (UInt64Value w) = Some (VUInt64 w)"
| "unwrap (Application k s) = Some (VMessage k s)"
| "unwrap _ = None"

definition serialize :: "codec \<Rightarrow> rvalue \<Rightarrow> bytes" where
  "serialize cd v = serialize_as_string cd (wrapper_of v)"

text \<open>The text of the parsing error differs for messages of the application.\<close>

definition parsing_failure :: "rtype \<Rightarrow> string" where
  "parsing_failure t = (case t of TMessage _ \<Rightarrow> ''Failed to parse bytes'' | _ \<Rightarrow> ''Failed to parse value'')"

definition deserialize :: "codec \<Rightarrow> rtype \<Rightarrow> bytes \<Rightarrow> (rvalue, string) outcome" where
  "deserialize cd t b = (case Option.bind (parse_from_string cd (wrapper_type t) b) unwrap of
     Some v \<Rightarrow> Ok v
   | None \<Rightarrow> Fail (parsing_failure t))"

definition serialize_request :: "codec \<Rightarrow> request \<Rightarrow> bytes" where
  "serialize_request cd r = serialize_as_string cd (RequestMessage r)"

definition deserialize_request :: "codec \<Rightarrow> bytes \<Rightarrow> (request, string) outcome" where
  "deserialize_request cd b = (case parse_from_string cd RequestT b of
     Some (RequestMessage r) \<Rightarrow> Ok r
   | _ \<Rightarrow> Fail ''Failed to parse bytes'')"

definition serialize_reply :: "codec \<Rightarrow> reply \<Rightarrow> bytes" where
  "serialize_reply cd r = serialize_as_string cd (ReplyMessage r)"

definition deserialize_reply :: "codec \<Rightarrow> bytes \<Rightarrow> (reply, string) outcome" where
  "deserialize_reply cd b = (case parse_from_string cd ReplyT b of
     Some (ReplyMessage r) \<Rightarrow> Ok r
   | _ \<Rightarrow> Fail ''Failed to parse bytes'')"

definition value_text :: "codec \<Rightarrow> rvalue \<Rightarrow> bool" where
  "value_text cd v = (case v of VString s \<Rightarrow> is_text cd s | _ \<Rightarrow> True)"

lemma deserialize_serialize:
  assumes "codec_ok cd" and "value_text cd v"
  shows "deserialize cd (type_of v) (serialize cd v) = Ok v"
proof -
  have "proto_text cd (wrapper_of v)" using assms(2) by (cases v) (simp_all add: value_text_def)
  then have "parse_from_string cd (proto_type_of (wrapper_of v)) (serialize_as_string cd (wrapper_of v)) = Some (wrapper_of v)"
    using assms(1) unfolding codec_ok_def by blast
  moreover have "proto_type_of (wrapper_of v) = wrapper_type (type_of v)" by (cases v) simp_all
  moreover have "unwrap (wrapper_of v) = Some v" by (cases v) simp_all
  ultimately show ?thesis by (simp add: deserialize_def serialize_def)
qed

lemma deserialize_serialize_request:
  assumes "codec_ok cd" and "proto_text cd (RequestMessage r)"
  shows "deserialize_request cd (serialize_request cd r) = Ok r"
proof -
  have "parse_from_string cd (proto_type_of (RequestMessage r)) (serialize_as_string cd (RequestMessage r)) = Some (RequestMessage r)"
    using assms unfolding codec_ok_def by blast
  then show ?thesis by (simp add: deserialize_request_def serialize_request_def)
qed

lemma deserialize_serialize_reply:
  assumes "codec_ok cd" and "proto_text cd (ReplyMessage r)"
  shows "deserialize_reply cd (serialize_reply cd r) = Ok r"
proof -
  have "parse_from_string cd (proto_type_of (ReplyMessage r)) (serialize_as_string cd (ReplyMessage r)) = Some (ReplyMessage r)"
    using assms unfolding codec_ok_def by blast
  then show ?thesis by (simp add: deserialize_reply_def serialize_reply_def)
qed

lemma unwrap_type: "unwrap p = Some v \<Longrightarrow> proto_type_of p = wrapper_type (type_of v)"
  by (cases p) auto

lemma wrapper_type_inj: "wrapper_type s = wrapper_type t \<Longrightarrow> s = t"
  by (cases s) (cases t; simp)+

lemma deserialize_type:
  assumes "codec_ok cd" and "deserialize cd t b = Ok v"
  shows "type_of v = t"
proof -
  obtain p where p: "parse_from_string cd (wrapper_type t) b = Some p" "unwrap p = Some v"
    using assms(2) by (auto simp: deserialize_def bind_eq_Some_conv split: option.splits)
  then have "proto_type_of p = wrapper_type t" using assms(1) unfolding codec_ok_def by blast
  then have "wrapper_type (type_of v) = wrapper_type t" using unwrap_type [OF p(2)] by simp
  then show ?thesis by (rule wrapper_type_inj)
qed

end
