(* ===== verification/Rpc_Function.thy ===== *)
theory Rpc_Function
  imports Rpc_Codec
begin

text \<open>
  libs/rpc: FunctionUtils.hpp and the server side of Function.hpp. An implementation is what its
  task ends with; an empty std::function throws bad_function_call when it is called.
\<close>

section \<open>Arguments and results\<close>

text \<open>for_constexpr over the parameter types: after the first error the other arguments are skipped; args[index] is not checked.\<close>

fun extract_args :: "codec \<Rightarrow> rtype list \<Rightarrow> bytes list \<Rightarrow> abort + (rvalue list, string) outcome" where
  "extract_args cd [] bs = Inr (Ok [])"
| "extract_args cd (t # ts) [] = Inl UndefinedBehaviour"
| "extract_args cd (t # ts) (b # bs) = (case deserialize cd t b of
     Fail e \<Rightarrow> Inr (Fail e)
   | Ok v \<Rightarrow> (case extract_args cd ts bs of
        Inl a \<Rightarrow> Inl a
      | Inr (Fail e) \<Rightarrow> Inr (Fail e)
      | Inr (Ok vs) \<Rightarrow> Inr (Ok (v # vs))))"

definition serialize_args :: "codec \<Rightarrow> rvalue list \<Rightarrow> bytes list" where
  "serialize_args cd vs = map (serialize cd) vs"

text \<open>How a coroutine of the library ends: with its value or with an exception, an rpc::Error or another one.\<close>

datatype 'a ending = Returns 'a | ThrowsError rpc_error | ThrowsOther string

text \<open>A value that does not parse is a ParsingError thrown by Result::value.\<close>

definition get_return_value :: "codec \<Rightarrow> rtype \<Rightarrow> raw_reply \<Rightarrow> (rvalue, rpc_error) outcome ending" where
  "get_return_value cd t r = (case r of
     Ok b \<Rightarrow> (case result_value (deserialize cd t b) of
         Inr v \<Rightarrow> Returns (Ok v)
       | Inl (ThrownError e) \<Rightarrow> ThrowsOther e
       | Inl BadVariantAccess \<Rightarrow> ThrowsOther ''bad variant access'')
   | Fail e \<Rightarrow> Returns (Fail e))"

section \<open>Functions\<close>

record rfunction =
  fn_name :: string
  fn_name_space :: string
  fn_params :: "rtype list"
  fn_return :: rtype
  fn_impl :: "(rvalue list \<Rightarrow> rvalue ending) option"

definition new_function :: "string \<Rightarrow> rtype list \<Rightarrow> rtype \<Rightarrow> rfunction" where
  "new_function n ts t = \<lparr>fn_name = n, fn_name_space = '''', fn_params = ts, fn_return = t, fn_impl = None\<rparr>"

definition set_name_space :: "string \<Rightarrow> rfunction \<Rightarrow> rfunction" where
  "set_name_space n f = f\<lparr>fn_name_space := n\<rparr>"

text \<open>RemoteService sets up every function of every schema, with the name_space of the schema if it has one.\<close>

definition setup_functions :: "string option \<times> rfunction list \<Rightarrow> rfunction list" where
  "setup_functions sc = (case fst sc of Some n \<Rightarrow> map (set_name_space n) (snd sc) | None \<Rightarrow> snd sc)"

definition set_implementation :: "(rvalue list \<Rightarrow> rvalue ending) \<Rightarrow> rfunction \<Rightarrow> rfunction" where
  "set_implementation impl f = f\<lparr>fn_impl := Some impl\<rparr>"

text \<open>bind_to: the implementation is the remote call of another function.\<close>

definition bind_to :: "(rvalue list \<Rightarrow> (rvalue, rpc_error) outcome ending) \<Rightarrow> rfunction \<Rightarrow> rfunction" where
  "bind_to call f = f\<lparr>fn_impl := Some (\<lambda>args. case call args of
      Returns (Ok v) \<Rightarrow> Returns v
    | Returns (Fail e) \<Rightarrow> ThrowsError e
    | ThrowsError e \<Rightarrow> ThrowsError e
    | ThrowsOther w \<Rightarrow> ThrowsOther w)\<rparr>"

definition call_implementation :: "rfunction \<Rightarrow> rvalue list \<Rightarrow> rvalue ending" where
  "call_implementation f args = (case fn_impl f of
     Some impl \<Rightarrow> impl args
   | None \<Rightarrow> ThrowsOther ''bad_function_call'')"

text \<open>Function::invoke, on the server; only rpc::Error is caught.\<close>

definition invoke_function ::
    "codec \<Rightarrow> rfunction \<Rightarrow> bytes list \<Rightarrow> abort + (raw_reply, rpc_error) outcome ending" where
  "invoke_function cd f args = (case extract_args cd (fn_params f) args of
     Inl a \<Rightarrow> Inl a
   | Inr (Fail what) \<Rightarrow> Inr (Returns (Fail (internal_error what)))
   | Inr (Ok vs) \<Rightarrow> Inr (case call_implementation f vs of
        Returns v \<Rightarrow> Returns (Ok (Ok (serialize cd v)))
      | ThrowsError e \<Rightarrow> Returns (Fail e)
      | ThrowsOther w \<Rightarrow> ThrowsOther w))"

section \<open>Lemmas\<close>

lemma extract_serialized:
  assumes "codec_ok cd" and "\<forall>v \<in> set vs. value_text cd v"
  shows "extract_args cd (map type_of vs) (serialize_args cd vs @ extra) = Inr (Ok vs)"
  using assms(2) by (induction vs) (simp_all add: serialize_args_def deserialize_serialize [OF assms(1)])

lemma extract_types:
  "codec_ok cd \<Longrightarrow> extract_args cd ts bs = Inr (Ok vs) \<Longrightarrow> map type_of vs = ts"
proof (induction ts arbitrary: bs vs)
  case (Cons t ts)
  then show ?case
    by (cases bs) (auto simp: deserialize_type split: outcome.splits sum.splits)
qed simp

lemma extract_defined: "extract_args cd ts bs = Inl a \<Longrightarrow> length bs < length ts"
proof (induction ts arbitrary: bs)
  case (Cons t ts)
  then show ?case by (cases bs) (auto split: outcome.splits sum.splits)
qed simp

lemma invoke_serialized:
  assumes "codec_ok cd" and "\<forall>v \<in> set vs. value_text cd v" and "fn_params f = map type_of vs"
  shows "invoke_function cd f (serialize_args cd vs @ extra) =
    Inr (case call_implementation f vs of
        Returns v \<Rightarrow> Returns (Ok (Ok (serialize cd v)))
      | ThrowsError e \<Rightarrow> Returns (Fail e)
      | ThrowsOther w \<Rightarrow> ThrowsOther w)"
  by (simp add: invoke_function_def assms(3) extract_serialized [OF assms(1,2)])

lemma get_serialized:
  "codec_ok cd \<Longrightarrow> value_text cd v \<Longrightarrow> get_return_value cd (type_of v) (Ok (serialize cd v)) = Returns (Ok v)"
  by (simp add: get_return_value_def deserialize_serialize)

end
