(* ===== verification/Rpc_Service.thy ===== *)
theory Rpc_Service
  imports Rpc_Function
begin

text \<open>
  libs/rpc: Service.hpp and Service.cpp. Poll empties the inbox of the transport and spawns one
  task per request into the task pool; the tasks run later, one after the other. What the transport
  returns from send is ignored by the code and by the model.
\<close>

section \<open>State\<close>

text \<open>A schema: its name_space, where it declares one, and its functions in field order.\<close>

type_synonym schema = "string option \<times> rfunction list"

datatype server_task =
    SendTask peer_id reply
  | ExecTask "rfunction option" "bytes list" peer_id request_id

record server =
  sv_schemas :: "schema list"
  sv_inbox :: "(peer_id \<times> bytes) list"
  sv_tasks :: "server_task list"
  sv_sent :: "(peer_id \<times> bytes) list"
  sv_armed :: bool

definition server_start :: "server \<Rightarrow> server" where
  "server_start s = s\<lparr>sv_armed := True\<rparr>"

section \<open>Finding a function\<close>

definition function_matches :: "string \<Rightarrow> string \<Rightarrow> string option \<Rightarrow> rfunction \<Rightarrow> bool" where
  "function_matches ns name declared f \<longleftrightarrow>
     fn_name f = name \<and> (case declared of Some n \<Rightarrow> ns = n | None \<Rightarrow> ns = '''')"

text \<open>Every match replaces the one before.\<close>

definition find_in_schema :: "string \<Rightarrow> string \<Rightarrow> schema \<Rightarrow> rfunction option \<Rightarrow> rfunction option" where
  "find_in_schema ns name sc result =
     foldl (\<lambda>r f. if function_matches ns name (fst sc) f then Some f else r) result (snd sc)"

definition find_function :: "schema list \<Rightarrow> string \<Rightarrow> string \<Rightarrow> rfunction option" where
  "find_function schemas ns name = foldl (\<lambda>r sc. find_in_schema ns name sc r) None schemas"

section \<open>Operations\<close>

definition send_reply :: "codec \<Rightarrow> peer_id \<Rightarrow> reply \<Rightarrow> server \<Rightarrow> server" where
  "send_reply cd peer r s = s\<lparr>sv_sent := sv_sent s @ [(peer, serialize_reply cd r)]\<rparr>"

definition error_reply :: "rpc_error \<Rightarrow> request_id \<Rightarrow> reply" where
  "error_reply e i = \<lparr>rp_request_id = i, rp_payload = PayloadError (er_code e) (er_what e)\<rparr>"

definition send_error :: "codec \<Rightarrow> rpc_error \<Rightarrow> peer_id \<Rightarrow> request_id \<Rightarrow> server \<Rightarrow> server" where
  "send_error cd e peer i s = send_reply cd peer (error_reply e i) s"

text \<open>
  exec: after an error reply the code goes on to the value of the failed result, which throws the
  error; the exception stays in the task. A null function is a virtual call on a null pointer.
\<close>

definition exec_task :: "codec \<Rightarrow> rfunction option \<Rightarrow> bytes list \<Rightarrow> peer_id \<Rightarrow> request_id \<Rightarrow> server
    \<Rightarrow> abort + unit ending \<times> server" where
  "exec_task cd f args peer i s = (case f of
     None \<Rightarrow> Inl UndefinedBehaviour
   | Some fn \<Rightarrow> (case invoke_function cd fn args of
        Inl a \<Rightarrow> Inl a
      | Inr (ThrowsError e) \<Rightarrow> Inr (ThrowsError e, s)
      | Inr (ThrowsOther w) \<Rightarrow> Inr (ThrowsOther w, s)
      | Inr (Returns (Fail e)) \<Rightarrow> Inr (ThrowsError e, send_error cd e peer i s)
      | Inr (Returns (Ok (Fail e))) \<Rightarrow> Inr (ThrowsError e, send_error cd e peer i s)
      | Inr (Returns (Ok (Ok b))) \<Rightarrow>
          Inr (Returns (), send_reply cd peer \<lparr>rp_request_id = i, rp_payload = Payload b\<rparr> s)))"

fun run_task :: "codec \<Rightarrow> server_task \<Rightarrow> server \<Rightarrow> abort + unit ending \<times> server" where
  "run_task cd (SendTask peer r) s = Inr (Returns (), send_reply cd peer r s)"
| "run_task cd (ExecTask f args peer i) s = exec_task cd f args peer i s"

definition not_found_error :: "request \<Rightarrow> rpc_error" where
  "not_found_error r = \<lparr>er_code = function_not_found_code,
     er_what = ''Function '' @ rq_name_space r @ ''.'' @ rq_function_name r @ '' not found''\<rparr>"

text \<open>What poll spawns for one message; a message that does not parse is skipped.\<close>

definition tasks_of_message :: "codec \<Rightarrow> schema list \<Rightarrow> peer_id \<times> bytes \<Rightarrow> server_task list" where
  "tasks_of_message cd schemas m = (case deserialize_request cd (snd m) of
     Fail e \<Rightarrow> []
   | Ok r \<Rightarrow> (let f = find_function schemas (rq_name_space r) (rq_function_name r) in
       (if f = None then [SendTask (fst m) (error_reply (not_found_error r) (rq_id r))] else [])
       @ [ExecTask f (rq_arguments r) (fst m) (rq_id r)]))"

fun receive_all :: "codec \<Rightarrow> (peer_id \<times> bytes) list \<Rightarrow> server \<Rightarrow> server" where
  "receive_all cd [] s = s"
| "receive_all cd (m # ms) s =
     receive_all cd ms (s\<lparr>sv_inbox := ms, sv_tasks := sv_tasks s @ tasks_of_message cd (sv_schemas s) m\<rparr>)"

definition server_poll :: "codec \<Rightarrow> server \<Rightarrow> server" where
  "server_poll cd s = server_start (receive_all cd (sv_inbox s) s)"

text \<open>The executor runs the spawned tasks in the order in which they were posted.\<close>

fun run_tasks :: "codec \<Rightarrow> server_task list \<Rightarrow> server \<Rightarrow> abort + server" where
  "run_tasks cd [] s = Inr s"
| "run_tasks cd (t # ts) s = (case run_task cd t (s\<lparr>sv_tasks := ts\<rparr>) of
     Inl a \<Rightarrow> Inl a
   | Inr (e, s') \<Rightarrow> run_tasks cd ts s')"

definition serve :: "codec \<Rightarrow> server \<Rightarrow> abort + server" where
  "serve cd s = (let s' = server_poll cd s in run_tasks cd (sv_tasks s') s')"

section \<open>Lemmas\<close>

lemma foldl_last:
  "foldl (\<lambda>r x. if P x then Some x else r) r xs = (if filter P xs = [] then r else Some (last (filter P xs)))"
  by (induction xs rule: rev_induct) simp_all

lemma find_in_schema_last:
  "find_in_schema ns name sc r =
    (let fs = filter (function_matches ns name (fst sc)) (snd sc) in if fs = [] then r else Some (last fs))"
  by (simp add: find_in_schema_def foldl_last Let_def)

lemma receive_all_tasks:
  "receive_all cd ms s = s\<lparr>sv_inbox := if ms = [] then sv_inbox s else [],
     sv_tasks := sv_tasks s @ concat (map (tasks_of_message cd (sv_schemas s)) ms)\<rparr>"
  by (induction ms arbitrary: s) simp_all

lemma server_poll_tasks:
  "server_poll cd s = s\<lparr>sv_inbox := [],
     sv_tasks := sv_tasks s @ concat (map (tasks_of_message cd (sv_schemas s)) (sv_inbox s)), sv_armed := True\<rparr>"
  by (simp add: server_poll_def server_start_def receive_all_tasks)

section \<open>What is promised\<close>

text \<open>The payload a request for a known function is answered with; none when another exception leaves the implementation.\<close>

definition answer :: "codec \<Rightarrow> rfunction \<Rightarrow> bytes list \<Rightarrow> payload option" where
  "answer cd f args = (case extract_args cd (fn_params f) args of
     Inl a \<Rightarrow> None
   | Inr (Fail what) \<Rightarrow> Some (PayloadError internal_error_code what)
   | Inr (Ok vs) \<Rightarrow> (case call_implementation f vs of
        Returns v \<Rightarrow> Some (Payload (serialize cd v))
      | ThrowsError e \<Rightarrow> Some (PayloadError (er_code e) (er_what e))
      | ThrowsOther w \<Rightarrow> None))"

definition answers :: "codec \<Rightarrow> schema list \<Rightarrow> peer_id \<times> bytes \<Rightarrow> (peer_id \<times> bytes) list" where
  "answers cd schemas m = (case deserialize_request cd (snd m) of
     Fail e \<Rightarrow> []
   | Ok r \<Rightarrow> (case find_function schemas (rq_name_space r) (rq_function_name r) of
        None \<Rightarrow> []
      | Some f \<Rightarrow> (case answer cd f (rq_arguments r) of
           None \<Rightarrow> []
         | Some p \<Rightarrow> [(fst m, serialize_reply cd \<lparr>rp_request_id = rq_id r, rp_payload = p\<rparr>)])))"

text \<open>A request that names no function, or passes fewer arguments than its function has parameters.\<close>

definition crashes :: "codec \<Rightarrow> schema list \<Rightarrow> peer_id \<times> bytes \<Rightarrow> bool" where
  "crashes cd schemas m = (case deserialize_request cd (snd m) of
     Fail e \<Rightarrow> False
   | Ok r \<Rightarrow> (case find_function schemas (rq_name_space r) (rq_function_name r) of
        None \<Rightarrow> True
      | Some f \<Rightarrow> (case extract_args cd (fn_params f) (rq_arguments r) of Inl a \<Rightarrow> True | Inr x \<Rightarrow> False)))"

lemma extract_abort: "extract_args cd ts bs = Inl a \<Longrightarrow> a = UndefinedBehaviour"
proof (induction ts arbitrary: bs)
  case (Cons t ts)
  then show ?case by (cases bs) (auto split: outcome.splits sum.splits)
qed simp

lemma exec_task_answer:
  "exec_task cd (Some f) args peer i s = (case extract_args cd (fn_params f) args of
     Inl a \<Rightarrow> Inl UndefinedBehaviour
   | Inr x \<Rightarrow> Inr (fst (projr (exec_task cd (Some f) args peer i s)),
       s\<lparr>sv_sent := sv_sent s @ (case answer cd f args of
         None \<Rightarrow> [] | Some p \<Rightarrow> [(peer, serialize_reply cd \<lparr>rp_request_id = i, rp_payload = p\<rparr>)])\<rparr>))"
proof (cases "extract_args cd (fn_params f) args")
  case (Inl a)
  then show ?thesis using extract_abort [OF Inl] by (simp add: exec_task_def invoke_function_def)
next
  case (Inr x)
  show ?thesis
  proof (cases x)
    case (Ok vs)
    with Inr show ?thesis
      by (cases "call_implementation f vs")
         (simp_all add: exec_task_def invoke_function_def answer_def send_reply_def send_error_def error_reply_def)
  next
    case (Fail e)
    with Inr show ?thesis
      by (simp add: exec_task_def invoke_function_def answer_def send_reply_def send_error_def error_reply_def
        internal_error_def)
  qed
qed

lemma run_message:
  assumes "sv_tasks s = tasks_of_message cd schemas m @ ts"
  shows "run_tasks cd (tasks_of_message cd schemas m @ ts) s =
    (if crashes cd schemas m then Inl UndefinedBehaviour
     else run_tasks cd ts (s\<lparr>sv_tasks := ts, sv_sent := sv_sent s @ answers cd schemas m\<rparr>))"
proof (cases "deserialize_request cd (snd m)")
  case (Fail e)
  then have "sv_tasks s = ts" using assms by (simp add: tasks_of_message_def)
  then have "s\<lparr>sv_tasks := ts\<rparr> = s" by (cases s) simp
  with Fail show ?thesis by (simp add: tasks_of_message_def crashes_def answers_def)
next
  case (Ok r)
  show ?thesis
  proof (cases "find_function schemas (rq_name_space r) (rq_function_name r)")
    case None
    with Ok show ?thesis by (simp add: tasks_of_message_def crashes_def exec_task_def send_reply_def)
  next
    case (Some f)
    let ?args = "rq_arguments r"
    show ?thesis
    proof (cases "extract_args cd (fn_params f) ?args")
      case (Inl a)
      with Ok Some show ?thesis
        by (simp add: tasks_of_message_def crashes_def exec_task_answer [of cd f ?args])
    next
      case (Inr x)
      have "exec_task cd (Some f) ?args (fst m) (rq_id r) (s\<lparr>sv_tasks := ts\<rparr>) =
        Inr (fst (projr (exec_task cd (Some f) ?args (fst m) (rq_id r) (s\<lparr>sv_tasks := ts\<rparr>))),
          s\<lparr>sv_tasks := ts, sv_sent := sv_sent s @ answers cd schemas m\<rparr>)"
        by (subst exec_task_answer) (simp add: Inr Ok Some answers_def)
      then obtain e where "exec_task cd (Some f) ?args (fst m) (rq_id r) (s\<lparr>sv_tasks := ts\<rparr>) =
        Inr (e, s\<lparr>sv_tasks := ts, sv_sent := sv_sent s @ answers cd schemas m\<rparr>)" by blast
      then show ?thesis by (simp add: Ok Some Inr tasks_of_message_def crashes_def)
    qed
  qed
qed

lemma run_messages:
  "sv_tasks s = concat (map (tasks_of_message cd schemas) ms) \<Longrightarrow>
    run_tasks cd (concat (map (tasks_of_message cd schemas) ms)) s =
    (if \<exists>m \<in> set ms. crashes cd schemas m then Inl UndefinedBehaviour
     else Inr (s\<lparr>sv_tasks := [], sv_sent := sv_sent s @ concat (map (answers cd schemas) ms)\<rparr>))"
proof (induction ms arbitrary: s)
  case (Cons m ms)
  have "sv_tasks s = tasks_of_message cd schemas m @ concat (map (tasks_of_message cd schemas) ms)"
    using Cons.prems by simp
  from run_message [OF this] show ?case by (auto simp: Cons.IH)
qed simp

lemma serve_batch:
  assumes "sv_tasks s = []"
  shows "serve cd s =
    (if \<exists>m \<in> set (sv_inbox s). crashes cd (sv_schemas s) m then Inl UndefinedBehaviour
     else Inr (s\<lparr>sv_inbox := [], sv_armed := True,
       sv_sent := sv_sent s @ concat (map (answers cd (sv_schemas s)) (sv_inbox s))\<rparr>))"
  using assms by (simp add: serve_def server_poll_tasks run_messages)

end
