(* ===== verification/Rpc_Client.thy ===== *)
theory Rpc_Client
  imports Rpc_Function
begin

text \<open>
  libs/rpc: RemoteService.hpp, RemoteService.cpp, Function.cpp and the client side of Function.hpp.
  A call of a remote function is numbered; its number stands for the frame of its coroutine, for
  the RawReply in that frame (a slot) and for the continuation that wakes it.
\<close>

section \<open>State\<close>

text \<open>A query points to the reply to fill and holds the function to wake; a null pointer and an empty function are None.\<close>

record query =
  q_reply :: "nat option"
  q_wake :: "nat option"

datatype call_state = NotCalled | Sending request_id rtype | AwaitingReply request_id rtype
  | Ended "(rvalue, rpc_error) outcome ending"

record client =
  cl_queries :: "request_id \<Rightarrow> query option"
  cl_outbox :: "bytes list"
  cl_inbox :: "bytes list"
  cl_posted :: "nat option list"
  cl_slots :: "nat \<Rightarrow> raw_reply option"
  cl_calls :: "nat \<Rightarrow> call_state"
  cl_armed :: bool

definition new_client :: client where
  "new_client = \<lparr>cl_queries = Map.empty, cl_outbox = [], cl_inbox = [], cl_posted = [],
     cl_slots = Map.empty, cl_calls = \<lambda>_. NotCalled, cl_armed = False\<rparr>"

text \<open>queries[id]: a new entry has a null reply and an empty wake.\<close>

definition query_at :: "client \<Rightarrow> request_id \<Rightarrow> query" where
  "query_at c i = (case cl_queries c i of Some q \<Rightarrow> q | None \<Rightarrow> \<lparr>q_reply = None, q_wake = None\<rparr>)"

definition client_start :: "client \<Rightarrow> client" where
  "client_start c = c\<lparr>cl_armed := True\<rparr>"

section \<open>Calling\<close>

definition make_request :: "request_id \<Rightarrow> string \<Rightarrow> string \<Rightarrow> bytes list \<Rightarrow> request" where
  "make_request i ns name args =
     \<lparr>rq_id = i, rq_function_name = name, rq_name_space = ns, rq_arguments = args\<rparr>"

text \<open>RemoteServiceBaseImpl::invoke up to its co_await; the request id is the random one.\<close>

definition remote_invoke :: "codec \<Rightarrow> string \<Rightarrow> string \<Rightarrow> bytes list \<Rightarrow> nat \<Rightarrow> request_id \<Rightarrow> client \<Rightarrow> client" where
  "remote_invoke cd ns name args k i c =
     c\<lparr>cl_queries := (cl_queries c)(i \<mapsto> (query_at c i)\<lparr>q_reply := Some k\<rparr>),
       cl_outbox := cl_outbox c @ [serialize_request cd (make_request i ns name args)]\<rparr>"

text \<open>Function::operator() and invoke_remote up to that point; the reply starts as a default RawReply.\<close>

definition call_function :: "codec \<Rightarrow> rfunction \<Rightarrow> rvalue list \<Rightarrow> nat \<Rightarrow> request_id \<Rightarrow> client \<Rightarrow> client" where
  "call_function cd f vs k i c =
     (let c' = remote_invoke cd (fn_name_space f) (fn_name f) (serialize_args cd vs) k i c
      in c'\<lparr>cl_slots := (cl_slots c')(k \<mapsto> result_default ''''),
            cl_calls := (cl_calls c')(k := Sending i (fn_return f))\<rparr>)"

definition set_response_callback :: "request_id \<Rightarrow> nat \<Rightarrow> client \<Rightarrow> client" where
  "set_response_callback i k c =
     c\<lparr>cl_queries := (cl_queries c)(i \<mapsto> (query_at c i)\<lparr>q_wake := Some k\<rparr>)\<rparr>"

definition end_call :: "nat \<Rightarrow> (rvalue, rpc_error) outcome ending \<Rightarrow> client \<Rightarrow> client" where
  "end_call k r c = c\<lparr>cl_slots := (cl_slots c)(k := None), cl_calls := (cl_calls c)(k := Ended r)\<rparr>"

text \<open>The transport has sent the request or failed to; a failure ends the call, its query stays.\<close>

definition send_completed :: "(unit, rpc_error) outcome \<Rightarrow> nat \<Rightarrow> client \<Rightarrow> client" where
  "send_completed r k c = (case cl_calls c k of
     Sending i t \<Rightarrow> (case r of
         Fail e \<Rightarrow> end_call k (Returns (Fail e)) c
       | Ok u \<Rightarrow> set_response_callback i k (c\<lparr>cl_calls := (cl_calls c)(k := AwaitingReply i t)\<rparr>))
   | _ \<Rightarrow> c)"

section \<open>Replies\<close>

definition raw_reply_of :: "payload \<Rightarrow> raw_reply" where
  "raw_reply_of p = (case p of
     Payload b \<Rightarrow> Ok b
   | PayloadError code w \<Rightarrow> Fail \<lparr>er_code = code, er_what = w\<rparr>
   | NoPayload \<Rightarrow> Fail \<lparr>er_code = 0, er_what = ''''\<rparr>)"

text \<open>Writing through a null pointer, or into a frame that is gone, is undefined.\<close>

definition receive_reply :: "codec \<Rightarrow> bytes \<Rightarrow> client \<Rightarrow> abort + client" where
  "receive_reply cd data c = (case deserialize_reply cd data of
     Fail e \<Rightarrow> Inr c
   | Ok r \<Rightarrow> (case cl_queries c (rp_request_id r) of
        None \<Rightarrow> Inr c
      | Some q \<Rightarrow> (case q_reply q of
           None \<Rightarrow> Inl UndefinedBehaviour
         | Some k \<Rightarrow>
             if cl_slots c k = None then Inl UndefinedBehaviour
             else Inr (c\<lparr>cl_slots := (cl_slots c)(k \<mapsto> raw_reply_of (rp_payload r)),
                       cl_posted := cl_posted c @ [q_wake q],
                       cl_queries := (cl_queries c)(rp_request_id r := None)\<rparr>))))"

fun receive_replies :: "codec \<Rightarrow> bytes list \<Rightarrow> client \<Rightarrow> abort + client" where
  "receive_replies cd [] c = Inr c"
| "receive_replies cd (b # bs) c = (case receive_reply cd b (c\<lparr>cl_inbox := bs\<rparr>) of
     Inl a \<Rightarrow> Inl a
   | Inr c' \<Rightarrow> receive_replies cd bs c')"

definition client_poll :: "codec \<Rightarrow> client \<Rightarrow> abort + client" where
  "client_poll cd c = (case receive_replies cd (cl_inbox c) c of
     Inl a \<Rightarrow> Inl a
   | Inr c' \<Rightarrow> Inr (client_start c'))"

section \<open>Waking\<close>

text \<open>The woken coroutine reads its reply and ends.\<close>

definition resume_call :: "codec \<Rightarrow> nat \<Rightarrow> client \<Rightarrow> abort + client" where
  "resume_call cd k c = (case (cl_calls c k, cl_slots c k) of
     (AwaitingReply i t, Some r) \<Rightarrow> Inr (end_call k (get_return_value cd t r) c)
   | _ \<Rightarrow> Inl UndefinedBehaviour)"

text \<open>The executor runs what was posted; an empty function throws bad_function_call out of its loop.\<close>

definition run_posted :: "codec \<Rightarrow> client \<Rightarrow> abort + unit ending \<times> client" where
  "run_posted cd c = (case cl_posted c of
     [] \<Rightarrow> Inr (Returns (), c)
   | None # ws \<Rightarrow> Inr (ThrowsOther ''bad_function_call'', c\<lparr>cl_posted := ws\<rparr>)
   | Some k # ws \<Rightarrow> (case resume_call cd k (c\<lparr>cl_posted := ws\<rparr>) of
        Inl a \<Rightarrow> Inl a
      | Inr c' \<Rightarrow> Inr (Returns (), c')))"

end
