(* ===== verification/Rpc_Example.thy ===== *)
theory Rpc_Example
  imports Rpc_Codec
begin

text \<open>
  A codec: self-delimiting unary numbers, strings and lists with their length in front. It shows
  that the laws asked of protocol buffers hold of a concrete serialization, and the examples of
  remote calls are computed with it.
\<close>

fun put_nat :: "nat \<Rightarrow> bytes" where
  "put_nat 0 = ''0''"
| "put_nat (Suc n) = CHR ''1'' # put_nat n"

fun take_nat :: "bytes \<Rightarrow> (nat \<times> bytes) option" where
  "take_nat [] = None"
| "take_nat (c # cs) = (if c = CHR ''1'' then map_option (\<lambda>(n, r). (Suc n, r)) (take_nat cs) else Some (0, cs))"

definition put_string :: "string \<Rightarrow> bytes" where
  "put_string s = put_nat (length s) @ s"

definition take_string :: "bytes \<Rightarrow> (string \<times> bytes) option" where
  "take_string b = (case take_nat b of Some (n, r) \<Rightarrow> Some (take n r, drop n r) | None \<Rightarrow> None)"

definition put_int :: "int \<Rightarrow> bytes" where
  "put_int i = put_nat (if i < 0 then 1 else 0) @ put_nat (nat \<bar>i\<bar>)"

definition take_int :: "bytes \<Rightarrow> (int \<times> bytes) option" where
  "take_int b = (case take_nat b of
     None \<Rightarrow> None
   | Some (s, r) \<Rightarrow> (case take_nat r of
        None \<Rightarrow> None
      | Some (n, r') \<Rightarrow> Some (if s = 1 then - int n else int n, r')))"

fun take_strings :: "nat \<Rightarrow> bytes \<Rightarrow> (string list \<times> bytes) option" where
  "take_strings 0 b = Some ([], b)"
| "take_strings (Suc n) b = (case take_string b of
     None \<Rightarrow> None
   | Some (s, r) \<Rightarrow> (case take_strings n r of None \<Rightarrow> None | Some (ss, r') \<Rightarrow> Some (s # ss, r')))"

definition put_word :: "'a :: len word \<Rightarrow> bytes" where
  "put_word w = put_nat (unat w)"

definition take_word :: "('a :: len word \<Rightarrow> 'b) \<Rightarrow> bytes \<Rightarrow> ('b \<times> bytes) option" where
  "take_word f b = map_option (\<lambda>(n, r). (f (of_nat n), r)) (take_nat b)"

fun put_payload :: "payload \<Rightarrow> bytes" where
  "put_payload NoPayload = put_nat 0"
| "put_payload (Payload b) = put_nat 1 @ put_string b"
| "put_payload (PayloadError c w) = put_nat 2 @ put_int c @ put_string w"

definition take_payload :: "bytes \<Rightarrow> (payload \<times> bytes) option" where
  "take_payload b = (case take_nat b of
     None \<Rightarrow> None
   | Some (k, r) \<Rightarrow>
       if k = 0 then Some (NoPayload, r)
       else if k = 1 then map_option (\<lambda>(s, r'). (Payload s, r')) (take_string r)
       else (case take_int r of
          None \<Rightarrow> None
        | Some (c, r') \<Rightarrow> map_option (\<lambda>(w, r''). (PayloadError c w, r'')) (take_string r')))"

fun put_proto :: "proto \<Rightarrow> bytes" where
  "put_proto (BoolValue b) = put_nat (if b then 1 else 0)"
| "put_proto (DoubleValue w) = put_word w"
| "put_proto (FloatValue w) = put_word w"
| "put_proto (StringValue s) = put_string s"
| "put_proto (Int32Value w) = put_word w"
| "put_proto (Int64Value w) = put_word w"
| "put_proto (UInt32Value w) = put_word w"
| "put_proto (UInt64Value w) = put_word w"
| "put_proto (Application k s) = put_string s"
| "put_proto (RequestMessage q) = put_string (rq_id q) @ put_string (rq_function_name q)
     @ put_string (rq_name_space q) @ put_nat (length (rq_arguments q)) @ concat (map put_string (rq_arguments q))"
| "put_proto (ReplyMessage p) = put_string (rp_request_id p) @ put_payload (rp_payload p)"

definition take_request :: "bytes \<Rightarrow> (proto \<times> bytes) option" where
  "take_request b = (case take_string b of None \<Rightarrow> None | Some (i, r1) \<Rightarrow>
     (case take_string r1 of None \<Rightarrow> None | Some (n, r2) \<Rightarrow>
     (case take_string r2 of None \<Rightarrow> None | Some (ns, r3) \<Rightarrow>
     (case take_nat r3 of None \<Rightarrow> None | Some (k, r4) \<Rightarrow>
     map_option (\<lambda>(args, r5). (RequestMessage \<lparr>rq_id = i, rq_function_name = n, rq_name_space = ns,
       rq_arguments = args\<rparr>, r5)) (take_strings k r4)))))"

definition take_reply :: "bytes \<Rightarrow> (proto \<times> bytes) option" where
  "take_reply b = (case take_string b of None \<Rightarrow> None | Some (i, r) \<Rightarrow>
     map_option (\<lambda>(p, r'). (ReplyMessage \<lparr>rp_request_id = i, rp_payload = p\<rparr>, r')) (take_payload r))"

fun take_proto :: "proto_type \<Rightarrow> bytes \<Rightarrow> (proto \<times> bytes) option" where
  "take_proto BoolValueT b = map_option (\<lambda>(n, r). (BoolValue (n = 1), r)) (take_nat b)"
| "take_proto DoubleValueT b = take_word DoubleValue b"
| "take_proto FloatValueT b = take_word FloatValue b"
| "take_proto StringValueT b = map_option (\<lambda>(s, r). (StringValue s, r)) (take_string b)"
| "take_proto Int32ValueT b = take_word Int32Value b"
| "take_proto Int64ValueT b = take_word Int64Value b"
| "take_proto UInt32ValueT b = take_word UInt32Value b"
| "take_proto UInt64ValueT b = take_word UInt64Value b"
| "take_proto (ApplicationT k) b = map_option (\<lambda>(s, r). (Application k s, r)) (take_string b)"
| "take_proto RequestT b = take_request b"
| "take_proto ReplyT b = take_reply b"

definition unary_codec :: codec where
  "unary_codec = \<lparr>serialize_as_string = put_proto,
     parse_from_string = \<lambda>t b. (case take_proto t b of Some (p, []) \<Rightarrow> Some p | _ \<Rightarrow> None),
     is_text = \<lambda>s. True\<rparr>"

lemma take_put_nat [simp]: "take_nat (put_nat n @ r) = Some (n, r)"
  by (induction n) simp_all

lemma take_put_string [simp]: "take_string (put_string s @ r) = Some (s, r)"
  by (simp add: take_string_def put_string_def)

lemma take_put_int [simp]: "take_int (put_int i @ r) = Some (i, r)"
  by (simp add: take_int_def put_int_def)

lemma take_put_strings [simp]: "take_strings (length ss) (concat (map put_string ss) @ r) = Some (ss, r)"
  by (induction ss) simp_all

lemma take_put_word [simp]: "take_word f (put_word w @ r) = Some (f w, r)"
  by (simp add: take_word_def put_word_def)

lemma take_put_payload [simp]: "take_payload (put_payload p @ r) = Some (p, r)"
  by (cases p) (simp_all add: take_payload_def)

lemma take_put_proto: "take_proto (proto_type_of p) (put_proto p @ r) = Some (p, r)"
  by (cases p) (simp_all add: take_request_def take_reply_def)

lemma take_proto_type: "take_proto t b = Some (p, r) \<Longrightarrow> proto_type_of p = t"
  by (cases t) (auto simp: take_request_def take_reply_def take_word_def split: option.splits)

lemma unary_codec_ok: "codec_ok unary_codec"
proof -
  have "take_proto (proto_type_of p) (put_proto p) = Some (p, [])" for p
    using take_put_proto [of p "[]"] by simp
  moreover have "proto_type_of p = t"
    if "(case take_proto t b of Some (p, []) \<Rightarrow> Some p | _ \<Rightarrow> None) = Some p" for t b p
    using that by (auto split: option.splits list.splits intro: take_proto_type)
  ultimately show ?thesis by (simp add: codec_ok_def unary_codec_def)
qed

lemma unary_text [simp]: "is_text unary_codec s"
  by (simp add: unary_codec_def)

lemma unary_value_text [simp]: "value_text unary_codec v"
  by (cases v) (simp_all add: value_text_def)

lemma unary_proto_text [simp]: "proto_text unary_codec p"
  by (cases "(unary_codec, p)" rule: proto_text.cases) (auto split: payload.splits)

end
