(* ===== verification/Rpc_Props.thy ===== *)
theory Rpc_Props
  imports Rpc_Service Rpc_Client Rpc_Example
begin

text \<open>
  The properties of remote calls: client and server composed over one request and its reply, what
  the service answers to a batch of requests, and what goes wrong with unknown functions, early
  replies and failed sends.
\<close>

section \<open>Lemmas\<close>

lemma find_function_last:
  "find_function schemas ns name =
    (let fs = concat (map (\<lambda>sc. filter (function_matches ns name (fst sc)) (snd sc)) schemas)
     in if fs = [] then None else Some (last fs))"
proof (induction schemas rule: rev_induct)
  case (snoc sc schemas)
  then show ?case by (auto simp: find_function_def find_in_schema_last Let_def)
qed (simp add: find_function_def)

lemma answers_at_most_once: "length (answers cd schemas m) \<le> 1"
  by (simp add: answers_def split: outcome.split option.split)

lemma answers_to_sender: "x \<in> set (answers cd schemas m) \<Longrightarrow> fst x = fst m"
  by (auto simp: answers_def split: outcome.splits option.splits)

lemma extract_short:
  assumes "codec_ok cd" and "\<forall>v \<in> set us. value_text cd v"
  shows "map type_of us = take (length us) ts \<Longrightarrow> length us < length ts \<Longrightarrow>
    extract_args cd ts (serialize_args cd us) = Inl UndefinedBehaviour"
  using assms(2)
proof (induction us arbitrary: ts)
  case Nil
  then show ?case by (cases ts) (simp_all add: serialize_args_def)
next
  case (Cons u us)
  then obtain ts' where "ts = type_of u # ts'" "map type_of us = take (length us) ts'" by (cases ts) auto
  then show ?case using Cons by (simp add: serialize_args_def deserialize_serialize [OF assms(1)])
qed

section \<open>Remote calls\<close>

text \<open>What the caller of a remote function sees of the ending of its implementation.\<close>

definition seen_by_caller :: "rvalue ending \<Rightarrow> (rvalue, rpc_error) outcome ending" where
  "seen_by_caller e = (case e of
     Returns v \<Rightarrow> Returns (Ok v)
   | ThrowsError err \<Rightarrow> Returns (Fail err)
   | ThrowsOther w \<Rightarrow> ThrowsOther w)"

lemma called_then_sent:
  assumes "cl_queries c i = None"
  shows "send_completed (Ok ()) k (call_function cd f vs k i c) =
    c\<lparr>cl_queries := (cl_queries c)(i \<mapsto> \<lparr>q_reply = Some k, q_wake = Some k\<rparr>),
      cl_outbox := cl_outbox c @ [serialize_request cd (make_request i (fn_name_space f) (fn_name f) (serialize_args cd vs))],
      cl_slots := (cl_slots c)(k \<mapsto> Ok ''''),
      cl_calls := (cl_calls c)(k := AwaitingReply i (fn_return f))\<rparr>"
  using assms
  by (simp add: send_completed_def call_function_def remote_invoke_def set_response_callback_def query_at_def
    Let_def result_default_def)

lemma reply_wakes_call:
  assumes "cl_queries c i = None" and "cl_posted c = []" and "deserialize_reply cd b = Ok \<lparr>rp_request_id = i, rp_payload = p\<rparr>"
  shows "\<exists>c' c''. client_poll cd ((send_completed (Ok ()) k (call_function cd f vs k i c))\<lparr>cl_inbox := [b]\<rparr>) = Inr c'
    \<and> run_posted cd c' = Inr (Returns (), c'')
    \<and> cl_calls c'' k = Ended (get_return_value cd (fn_return f) (raw_reply_of p))
    \<and> cl_queries c'' = cl_queries c"
proof -
  have "(cl_queries c)(i := None) = cl_queries c" using assms(1) by auto
  then show ?thesis
    using assms
    by (simp add: called_then_sent client_poll_def receive_reply_def run_posted_def resume_call_def end_call_def
      client_start_def)
qed

text \<open>C3: A remote call is a local call: the request that calling a function of the remote service
  sends, served by a service that has the function, is answered by one reply, which wakes the call
  with exactly what the implementation returned, or with the rpc::Error it threw, and leaves no
  query behind; for every serialization that meets the documented round trip.\<close>

theorem remote_call_is_a_local_call:
  assumes codec: "codec_ok cd"
    and server: "sv_inbox s = []" "sv_tasks s = []" "find_function (sv_schemas s) (fn_name_space f) (fn_name f) = Some g"
    and types: "fn_params g = fn_params f" "fn_return g = fn_return f" "map type_of vs = fn_params f"
    and texts: "\<forall>v \<in> set vs. value_text cd v" "is_text cd i" "is_text cd (fn_name f)" "is_text cd (fn_name_space f)"
    and ending: "case call_implementation g vs of
        Returns v \<Rightarrow> type_of v = fn_return g \<and> value_text cd v
      | ThrowsError e \<Rightarrow> is_text cd (er_what e)
      | ThrowsOther w \<Rightarrow> False"
    and client: "cl_queries c i = None" "cl_posted c = []"
  shows "\<exists>m s' b c' c''. cl_outbox (call_function cd f vs k i c) = cl_outbox c @ [m]
    \<and> serve cd (s\<lparr>sv_inbox := [(peer, m)]\<rparr>) = Inr s' \<and> sv_sent s' = sv_sent s @ [(peer, b)]
    \<and> client_poll cd ((send_completed (Ok ()) k (call_function cd f vs k i c))\<lparr>cl_inbox := [b]\<rparr>) = Inr c'
    \<and> run_posted cd c' = Inr (Returns (), c'')
    \<and> cl_calls c'' k = Ended (seen_by_caller (call_implementation g vs))
    \<and> cl_queries c'' = cl_queries c"
proof -
  let ?r = "make_request i (fn_name_space f) (fn_name f) (serialize_args cd vs)"
  have outbox: "cl_outbox (call_function cd f vs k i c) = cl_outbox c @ [serialize_request cd ?r]"
    by (simp add: call_function_def remote_invoke_def Let_def)
  have request: "deserialize_request cd (serialize_request cd ?r) = Ok ?r"
    using texts by (intro deserialize_serialize_request [OF codec]) (simp add: make_request_def)
  have args: "extract_args cd (fn_params g) (serialize_args cd vs) = Inr (Ok vs)"
    using extract_serialized [OF codec texts(1), of "[]"] types by simp
  obtain p where p: "answer cd g (serialize_args cd vs) = Some p"
    and seen: "get_return_value cd (fn_return f) (raw_reply_of p) = seen_by_caller (call_implementation g vs)"
    and ptext: "proto_text cd (ReplyMessage \<lparr>rp_request_id = i, rp_payload = p\<rparr>)"
  proof (cases "call_implementation g vs")
    case (Returns v)
    then show ?thesis
      using that [of "Payload (serialize cd v)"] ending texts(2) types(2) get_serialized [OF codec, of v]
      by (simp add: answer_def args raw_reply_of_def seen_by_caller_def)
  next
    case (ThrowsError e)
    then show ?thesis
      using that [of "PayloadError (er_code e) (er_what e)"] ending texts(2)
      by (simp add: answer_def args raw_reply_of_def seen_by_caller_def get_return_value_def)
  next
    case (ThrowsOther w)
    then show ?thesis using ending by simp
  qed
  let ?b = "serialize_reply cd \<lparr>rp_request_id = i, rp_payload = p\<rparr>"
  let ?m = "(peer, serialize_request cd ?r)"
  have "\<not> crashes cd (sv_schemas s) ?m"
    using request server(3) args by (simp add: crashes_def make_request_def)
  moreover have "answers cd (sv_schemas s) ?m = [(peer, ?b)]"
    using request server(3) p by (simp add: answers_def make_request_def)
  ultimately obtain s' where s': "serve cd (s\<lparr>sv_inbox := [?m]\<rparr>) = Inr s'" "sv_sent s' = sv_sent s @ [(peer, ?b)]"
    using server(2) by (simp add: serve_batch)
  have "deserialize_reply cd ?b = Ok \<lparr>rp_request_id = i, rp_payload = p\<rparr>"
    by (rule deserialize_serialize_reply [OF codec ptext])
  from reply_wakes_call [OF client this, of k f vs]
  obtain c' c'' where "client_poll cd ((send_completed (Ok ()) k (call_function cd f vs k i c))\<lparr>cl_inbox := [?b]\<rparr>) = Inr c'"
    "run_posted cd c' = Inr (Returns (), c'')"
    "cl_calls c'' k = Ended (seen_by_caller (call_implementation g vs))" "cl_queries c'' = cl_queries c"
    unfolding seen by blast
  with outbox s' show ?thesis by blast
qed

text \<open>A service with one function, which adds a greeting, and the stub of it that a client has.\<close>

definition greet_stub :: rfunction where
  "greet_stub = set_name_space ''v1'' (new_function ''greet'' [TString] TString)"

definition greet :: rfunction where
  "greet = set_implementation (\<lambda>vs. case vs of [VString s] \<Rightarrow> Returns (VString (''hello '' @ s))
     | _ \<Rightarrow> ThrowsError (internal_error ''arguments'')) (new_function ''greet'' [TString] TString)"

definition greeter :: server where
  "greeter = \<lparr>sv_schemas = [(Some ''v1'', [greet])], sv_inbox = [], sv_tasks = [], sv_sent = [], sv_armed = True\<rparr>"

lemmas greet_defs = greet_stub_def greet_def greeter_def set_name_space_def set_implementation_def new_function_def
  call_implementation_def find_function_def find_in_schema_def function_matches_def new_client_def

theorem remote_call_is_a_local_call_witness:
  "\<exists>m s' b c' c''. cl_outbox (call_function unary_codec greet_stub [VString ''ez''] 0 ''1'' new_client) = [m]
    \<and> serve unary_codec (greeter\<lparr>sv_inbox := [(''peer'', m)]\<rparr>) = Inr s' \<and> sv_sent s' = [(''peer'', b)]
    \<and> client_poll unary_codec ((send_completed (Ok ()) 0
        (call_function unary_codec greet_stub [VString ''ez''] 0 ''1'' new_client))\<lparr>cl_inbox := [b]\<rparr>) = Inr c'
    \<and> run_posted unary_codec c' = Inr (Returns (), c'')
    \<and> cl_calls c'' 0 = Ended (Returns (Ok (VString ''hello ez'')))"
proof -
  have "find_function (sv_schemas greeter) (fn_name_space greet_stub) (fn_name greet_stub) = Some greet"
    "call_implementation greet [VString ''ez''] = Returns (VString ''hello ez'')"
    by (simp_all add: greet_defs)
  note call = remote_call_is_a_local_call [OF unary_codec_ok _ _ this(1),
      of "[VString ''ez'']" "''1''" new_client 0 "''peer''", unfolded this(2)]
  show ?thesis using call by (simp add: greet_defs seen_by_caller_def) blast
qed

section \<open>The service\<close>


definition greeting_request :: request where
  "greeting_request = make_request ''7'' ''v1'' ''greet'' [serialize unary_codec (VString ''you'')]"

lemma greeting_parsed: "deserialize_request unary_codec (serialize_request unary_codec q) = Ok q"
  by (simp add: deserialize_serialize_request [OF unary_codec_ok])

lemma greeter_finds: "find_function (sv_schemas greeter) (rq_name_space greeting_request) (rq_function_name greeting_request) = Some greet"
  by (simp add: greet_defs greeting_request_def make_request_def)

lemma greeting_args: "extract_args unary_codec (fn_params greet) (rq_arguments greeting_request) = Inr (Ok [VString ''you''])"
  using extract_serialized [OF unary_codec_ok, of "[VString ''you'']" "[]"]
  by (simp add: greet_defs greeting_request_def make_request_def serialize_args_def)


text \<open>One request that names no function of the service, or passes fewer arguments than the
  function has parameters, makes serving its whole batch undefined, whatever the other requests
  are: poll spawns exec with the null function after the FunctionNotFound reply, and extract_args
  indexes past the end of the arguments.\<close>

theorem bad_request_is_undefined:
  assumes "codec_ok cd" and "sv_tasks s = []" and "m \<in> set (sv_inbox s)" and "deserialize_request cd (snd m) = Ok r"
    and "find_function (sv_schemas s) (rq_name_space r) (rq_function_name r) = None
      \<or> (\<exists>f us. find_function (sv_schemas s) (rq_name_space r) (rq_function_name r) = Some f
          \<and> rq_arguments r = serialize_args cd us \<and> (\<forall>v \<in> set us. value_text cd v)
          \<and> map type_of us = take (length us) (fn_params f) \<and> length us < length (fn_params f))"
  shows "serve cd s = Inl UndefinedBehaviour"
proof -
  have "crashes cd (sv_schemas s) m"
    using assms(5)
  proof
    assume "find_function (sv_schemas s) (rq_name_space r) (rq_function_name r) = None"
    then show ?thesis using assms(4) by (simp add: crashes_def)
  next
    assume "\<exists>f us. find_function (sv_schemas s) (rq_name_space r) (rq_function_name r) = Some f
          \<and> rq_arguments r = serialize_args cd us \<and> (\<forall>v \<in> set us. value_text cd v)
          \<and> map type_of us = take (length us) (fn_params f) \<and> length us < length (fn_params f)"
    then obtain f us where f: "find_function (sv_schemas s) (rq_name_space r) (rq_function_name r) = Some f"
      and us: "rq_arguments r = serialize_args cd us" "\<forall>v \<in> set us. value_text cd v"
        "map type_of us = take (length us) (fn_params f)" "length us < length (fn_params f)" by blast
    have "extract_args cd (fn_params f) (rq_arguments r) = Inl UndefinedBehaviour"
      unfolding us(1) by (rule extract_short [OF assms(1) us(2-4)])
    then show ?thesis using assms(4) f by (simp add: crashes_def)
  qed
  then show ?thesis using serve_batch [OF assms(2)] assms(3) by auto
qed

theorem bad_request_is_undefined_witness:
  "serve unary_codec (greeter\<lparr>sv_inbox := [(''p'', serialize_request unary_codec (make_request ''8'' ''v1'' ''greet'' [])),
      (''q'', serialize_request unary_codec greeting_request)]\<rparr>) = Inl UndefinedBehaviour"
proof -
  let ?r = "make_request ''8'' ''v1'' ''greet'' []"
  let ?m = "(''p'', serialize_request unary_codec ?r)"
  let ?s = "greeter\<lparr>sv_inbox := [?m, (''q'', serialize_request unary_codec greeting_request)]\<rparr>"
  have "find_function (sv_schemas ?s) (rq_name_space ?r) (rq_function_name ?r) = Some greet \<and>
      rq_arguments ?r = serialize_args unary_codec [] \<and> (\<forall>v \<in> set []. value_text unary_codec v) \<and>
      map type_of [] = take (length ([] :: rvalue list)) (fn_params greet) \<and> length ([] :: rvalue list) < length (fn_params greet)"
    by (simp add: greet_defs make_request_def serialize_args_def)
  then have "find_function (sv_schemas ?s) (rq_name_space ?r) (rq_function_name ?r) = None \<or>
     (\<exists>f us. find_function (sv_schemas ?s) (rq_name_space ?r) (rq_function_name ?r) = Some f
          \<and> rq_arguments ?r = serialize_args unary_codec us \<and> (\<forall>v \<in> set us. value_text unary_codec v)
          \<and> map type_of us = take (length us) (fn_params f) \<and> length us < length (fn_params f))" by blast
  moreover have "sv_tasks ?s = []" "?m \<in> set (sv_inbox ?s)" "deserialize_request unary_codec (snd ?m) = Ok ?r"
    by (simp_all add: greet_defs greeting_parsed)
  ultimately show ?thesis by (intro bad_request_is_undefined [OF unary_codec_ok])
qed

section \<open>The client\<close>

text \<open>A reply that arrives before the call has set its callback is lost and breaks the client:
  the empty wake that poll posts throws bad_function_call out of the executor's loop, the call then
  registers itself under a new entry without a reply to write to and waits for ever, and another
  reply under its id is a write through a null pointer.\<close>

theorem early_reply_breaks_the_client:
  assumes "codec_ok cd" and "cl_queries c i = None" and "cl_posted c = []"
    and "proto_text cd (ReplyMessage r)" and "rp_request_id r = i"
  shows "\<exists>c2 c3. client_poll cd ((call_function cd f vs k i c)\<lparr>cl_inbox := [serialize_reply cd r]\<rparr>) = Inr c2
    \<and> run_posted cd c2 = Inr (ThrowsOther ''bad_function_call'', c3) \<and> cl_posted c3 = []
    \<and> cl_calls (send_completed (Ok ()) k c3) k = AwaitingReply i (fn_return f)
    \<and> cl_queries (send_completed (Ok ()) k c3) i = Some \<lparr>q_reply = None, q_wake = Some k\<rparr>
    \<and> receive_reply cd (serialize_reply cd r) (send_completed (Ok ()) k c3) = Inl UndefinedBehaviour"
proof -
  have parsed: "deserialize_reply cd (serialize_reply cd r) = Ok r"
    by (rule deserialize_serialize_reply [OF assms(1,4)])
  let ?c1 = "call_function cd f vs k i c"
  let ?c2 = "?c1\<lparr>cl_inbox := [], cl_armed := True, cl_queries := (cl_queries ?c1)(i := None),
    cl_slots := (cl_slots ?c1)(k \<mapsto> raw_reply_of (rp_payload r)), cl_posted := [None]\<rparr>"
  have c1: "cl_queries ?c1 i = Some \<lparr>q_reply = Some k, q_wake = None\<rparr>" "cl_slots ?c1 k = Some (Ok '''')"
    "cl_posted ?c1 = []" "cl_calls ?c1 k = Sending i (fn_return f)"
    using assms(2,3)
    by (simp_all add: call_function_def remote_invoke_def query_at_def Let_def result_default_def)
  have poll: "client_poll cd (?c1\<lparr>cl_inbox := [serialize_reply cd r]\<rparr>) = Inr ?c2"
    using c1 by (simp add: client_poll_def receive_reply_def parsed assms(5) client_start_def)
  have posted: "run_posted cd ?c2 = Inr (ThrowsOther ''bad_function_call'', ?c2\<lparr>cl_posted := []\<rparr>)"
    by (simp add: run_posted_def)
  let ?c3 = "?c2\<lparr>cl_posted := []\<rparr>"
  have "send_completed (Ok ()) k ?c3 =
      ?c3\<lparr>cl_calls := (cl_calls ?c1)(k := AwaitingReply i (fn_return f)),
        cl_queries := (cl_queries ?c1)(i \<mapsto> \<lparr>q_reply = None, q_wake = Some k\<rparr>)\<rparr>"
    using c1(4) by (simp add: send_completed_def set_response_callback_def query_at_def)
  then have "cl_calls (send_completed (Ok ()) k ?c3) k = AwaitingReply i (fn_return f)"
    "cl_queries (send_completed (Ok ()) k ?c3) i = Some \<lparr>q_reply = None, q_wake = Some k\<rparr>" by simp_all
  moreover from this(2) have "receive_reply cd (serialize_reply cd r) (send_completed (Ok ()) k ?c3) = Inl UndefinedBehaviour"
    by (simp add: receive_reply_def parsed assms(5))
  ultimately show ?thesis using poll posted by force
qed

theorem early_reply_breaks_the_client_witness:
  "\<exists>c2 c3. client_poll unary_codec ((call_function unary_codec greet_stub [VString ''ez''] 0 ''1'' new_client)
      \<lparr>cl_inbox := [serialize_reply unary_codec \<lparr>rp_request_id = ''1'', rp_payload = Payload ''x''\<rparr>]\<rparr>) = Inr c2
    \<and> run_posted unary_codec c2 = Inr (ThrowsOther ''bad_function_call'', c3)"
proof -
  have "cl_queries new_client ''1'' = None" "cl_posted new_client = []" by (simp_all add: new_client_def)
  from early_reply_breaks_the_client [OF unary_codec_ok this unary_proto_text, of "\<lparr>rp_request_id = ''1'', rp_payload = Payload ''x''\<rparr>"]
  show ?thesis by simp blast
qed

text \<open>A call whose request could not be sent ends with that error but leaves its query behind,
  still pointing to the reply in its finished frame: should a reply under its id arrive after all,
  poll writes into a frame that is gone.\<close>

theorem failed_send_leaves_the_query:
  assumes "codec_ok cd" and "proto_text cd (ReplyMessage r)" and "rp_request_id r = i"
  shows "cl_calls (send_completed (Fail e) k (call_function cd f vs k i c)) k = Ended (Returns (Fail e))
    \<and> (\<exists>q. cl_queries (send_completed (Fail e) k (call_function cd f vs k i c)) i = Some q \<and> q_reply q = Some k)
    \<and> receive_reply cd (serialize_reply cd r) (send_completed (Fail e) k (call_function cd f vs k i c))
        = Inl UndefinedBehaviour"
  using deserialize_serialize_reply [OF assms(1,2)] assms(3)
  by (simp add: send_completed_def call_function_def remote_invoke_def end_call_def Let_def receive_reply_def)

theorem failed_send_leaves_the_query_witness:
  "receive_reply unary_codec (serialize_reply unary_codec \<lparr>rp_request_id = ''1'', rp_payload = Payload ''x''\<rparr>)
    (send_completed (Fail send_request_failure) 0
      (call_function unary_codec greet_stub [VString ''ez''] 0 ''1'' new_client)) = Inl UndefinedBehaviour"
  using failed_send_leaves_the_query [OF unary_codec_ok unary_proto_text, of "\<lparr>rp_request_id = ''1'', rp_payload = Payload ''x''\<rparr>"]
  by simp

end
