(* ===== verification/Core_Cow.thy ===== *)
theory Core_Cow
  imports Core_Shared
begin

text \<open>
  libs/core/headers/ez/Cow.hpp: Cow<T> is a std::shared_ptr that is copied before it is written
  when another Cow shares it. The state is the store of the cells and the list of the objects that
  were constructed, each with its pointer: null after a move and after its destruction.
\<close>

section \<open>The operations of Cow\<close>

record 'v cows =
  cw_store :: "'v store"
  cw_objects :: "shared list"

definition cows_empty :: "'v cows" where
  "cows_empty = \<lparr>cw_store = [], cw_objects = []\<rparr>"

text \<open>Cow(val), Cow(in_place, ...): std::make_shared.\<close>

definition cow_make :: "'v \<Rightarrow> 'v cows \<Rightarrow> 'v cows" where
  "cow_make v c = (case shared_new (cw_store c) v of (p, h) \<Rightarrow>
     c\<lparr>cw_store := h, cw_objects := cw_objects c @ [p]\<rparr>)"

definition cow_copy :: "nat \<Rightarrow> 'v cows \<Rightarrow> 'v cows" where
  "cow_copy i c = c\<lparr>cw_objects := cw_objects c @ [cw_objects c ! i]\<rparr>"

definition cow_move :: "nat \<Rightarrow> 'v cows \<Rightarrow> 'v cows" where
  "cow_move i c = c\<lparr>cw_objects := (cw_objects c)[i := None] @ [cw_objects c ! i]\<rparr>"

definition cow_assign :: "nat \<Rightarrow> nat \<Rightarrow> 'v cows \<Rightarrow> 'v cows" where
  "cow_assign i j c = c\<lparr>cw_objects := (cw_objects c)[i := cw_objects c ! j]\<rparr>"

text \<open>Moving a shared_ptr onto itself leaves it as it was.\<close>

definition cow_move_assign :: "nat \<Rightarrow> nat \<Rightarrow> 'v cows \<Rightarrow> 'v cows" where
  "cow_move_assign i j c =
     (if i = j then c
      else c\<lparr>cw_objects := (cw_objects c)[i := cw_objects c ! j, j := None]\<rparr>)"

definition cow_destroy :: "nat \<Rightarrow> 'v cows \<Rightarrow> 'v cows" where
  "cow_destroy i c = c\<lparr>cw_objects := (cw_objects c)[i := None]\<rparr>"

definition cow_use_count :: "nat \<Rightarrow> 'v cows \<Rightarrow> nat" where
  "cow_use_count i c = use_count (cw_objects c) (cw_objects c ! i)"

definition cow_is_unique :: "nat \<Rightarrow> 'v cows \<Rightarrow> bool" where
  "cow_is_unique i c \<longleftrightarrow> cow_use_count i c = 1"

definition cow_value :: "nat \<Rightarrow> 'v cows \<Rightarrow> abort + 'v" where
  "cow_value i c = shared_value (cw_store c) (cw_objects c ! i)"

definition cow_detach :: "nat \<Rightarrow> 'v cows \<Rightarrow> abort + 'v cows" where
  "cow_detach i c = (case cow_value i c of
     Inl e \<Rightarrow> Inl e
   | Inr v \<Rightarrow> (case shared_new (cw_store c) v of (p, h) \<Rightarrow>
        Inr (c\<lparr>cw_store := h, cw_objects := (cw_objects c)[i := p]\<rparr>)))"

definition cow_edit_in_place :: "('v \<Rightarrow> 'v) \<Rightarrow> nat \<Rightarrow> 'v cows \<Rightarrow> abort + 'v cows" where
  "cow_edit_in_place f i c = (case cow_value i c of
     Inl e \<Rightarrow> Inl e
   | Inr v \<Rightarrow> (case shared_assign_value (cw_store c) (cw_objects c ! i) (f v) of
        Inl e \<Rightarrow> Inl e
      | Inr h \<Rightarrow> Inr (c\<lparr>cw_store := h\<rparr>)))"

definition cow_edit :: "('v \<Rightarrow> 'v) \<Rightarrow> nat \<Rightarrow> 'v cows \<Rightarrow> abort + 'v cows" where
  "cow_edit f i c =
     (case (if cow_is_unique i c then Inr c else cow_detach i c) of
        Inl e \<Rightarrow> Inl e
      | Inr c' \<Rightarrow> cow_edit_in_place f i c')"

definition cow_set :: "'v \<Rightarrow> nat \<Rightarrow> 'v cows \<Rightarrow> abort + 'v cows" where
  "cow_set v i c = cow_edit (\<lambda>_. v) i c"

definition cow_eq_value :: "nat \<Rightarrow> 'v \<Rightarrow> 'v cows \<Rightarrow> abort + bool" where
  "cow_eq_value i v c = map_sum id (\<lambda>x. x = v) (cow_value i c)"

definition cow_eq :: "nat \<Rightarrow> nat \<Rightarrow> 'v cows \<Rightarrow> abort + bool" where
  "cow_eq i j c = (case cow_value i c of
     Inl e \<Rightarrow> Inl e
   | Inr v \<Rightarrow> (case cow_value j c of Inl e \<Rightarrow> Inl e | Inr w \<Rightarrow> Inr (v = w)))"

section \<open>Value semantics\<close>

text \<open>Programs over Cow objects, and the same programs over plain values (None: moved from or destroyed).\<close>

datatype 'v cow_command = MakeCow 'v | CopyCow nat | MoveCow nat | AssignCow nat nat
  | MoveAssignCow nat nat | DestroyCow nat | EditCow nat "'v \<Rightarrow> 'v" | SetCow nat 'v

definition run_cow_command :: "'v cow_command \<Rightarrow> 'v cows \<Rightarrow> abort + 'v cows" where
  "run_cow_command x c = (case x of
     MakeCow v \<Rightarrow> Inr (cow_make v c)
   | CopyCow i \<Rightarrow> Inr (cow_copy i c)
   | MoveCow i \<Rightarrow> Inr (cow_move i c)
   | AssignCow i j \<Rightarrow> Inr (cow_assign i j c)
   | MoveAssignCow i j \<Rightarrow> Inr (cow_move_assign i j c)
   | DestroyCow i \<Rightarrow> Inr (cow_destroy i c)
   | EditCow i f \<Rightarrow> cow_edit f i c
   | SetCow i v \<Rightarrow> cow_set v i c)"

definition value_edit :: "('v \<Rightarrow> 'v) \<Rightarrow> nat \<Rightarrow> 'v option list \<Rightarrow> abort + 'v option list" where
  "value_edit f i xs = (case xs ! i of
     None \<Rightarrow> Inl UndefinedBehaviour
   | Some v \<Rightarrow> Inr (xs[i := Some (f v)]))"

definition run_value_command :: "'v cow_command \<Rightarrow> 'v option list \<Rightarrow> abort + 'v option list" where
  "run_value_command x xs = (case x of
     MakeCow v \<Rightarrow> Inr (xs @ [Some v])
   | CopyCow i \<Rightarrow> Inr (xs @ [xs ! i])
   | MoveCow i \<Rightarrow> Inr (xs[i := None] @ [xs ! i])
   | AssignCow i j \<Rightarrow> Inr (xs[i := xs ! j])
   | MoveAssignCow i j \<Rightarrow> Inr (if i = j then xs else xs[i := xs ! j, j := None])
   | DestroyCow i \<Rightarrow> Inr (xs[i := None])
   | EditCow i f \<Rightarrow> value_edit f i xs
   | SetCow i v \<Rightarrow> value_edit (\<lambda>_. v) i xs)"

text \<open>A command may only name objects that exist; a program that names others does not compile.\<close>

fun command_objects :: "'v cow_command \<Rightarrow> nat list" where
  "command_objects (MakeCow v) = []"
| "command_objects (CopyCow i) = [i]"
| "command_objects (MoveCow i) = [i]"
| "command_objects (AssignCow i j) = [i, j]"
| "command_objects (MoveAssignCow i j) = [i, j]"
| "command_objects (DestroyCow i) = [i]"
| "command_objects (EditCow i f) = [i]"
| "command_objects (SetCow i v) = [i]"

fun run_cow_program :: "'v cow_command list \<Rightarrow> 'v cows \<Rightarrow> (abort + 'v cows) option" where
  "run_cow_program [] c = Some (Inr c)"
| "run_cow_program (x # xs) c =
     (if \<exists>i \<in> set (command_objects x). length (cw_objects c) \<le> i then None
      else (case run_cow_command x c of
          Inl e \<Rightarrow> Some (Inl e)
        | Inr c' \<Rightarrow> run_cow_program xs c'))"

fun run_value_program :: "'v cow_command list \<Rightarrow> 'v option list \<Rightarrow> (abort + 'v option list) option" where
  "run_value_program [] vs = Some (Inr vs)"
| "run_value_program (x # xs) vs =
     (if \<exists>i \<in> set (command_objects x). length vs \<le> i then None
      else (case run_value_command x vs of
          Inl e \<Rightarrow> Some (Inl e)
        | Inr vs' \<Rightarrow> run_value_program xs vs'))"

definition cow_values :: "'v cows \<Rightarrow> 'v option list" where
  "cow_values c = map (map_option ((!) (cw_store c))) (cw_objects c)"

definition cows_inv :: "'v cows \<Rightarrow> bool" where
  "cows_inv c \<longleftrightarrow> (\<forall>a. Some a \<in> set (cw_objects c) \<longrightarrow> a < length (cw_store c))"

section \<open>Lemmas\<close>

lemma cow_values_length [simp]: "length (cow_values c) = length (cw_objects c)"
  by (simp add: cow_values_def)

lemma cow_value_values:
  assumes "cows_inv c" and "i < length (cw_objects c)"
  shows "cow_value i c = (case cow_values c ! i of None \<Rightarrow> Inl UndefinedBehaviour | Some v \<Rightarrow> Inr v)"
proof (cases "cw_objects c ! i")
  case None
  then show ?thesis using assms(2) by (simp add: cow_value_def shared_value_def cow_values_def)
next
  case (Some a)
  then have "a < length (cw_store c)" using assms nth_mem [OF assms(2)] by (auto simp: cows_inv_def)
  then show ?thesis using Some assms(2)
    by (simp add: cow_value_def shared_value_def shared_get_def cow_values_def)
qed

lemma cow_values_grow:
  assumes "\<forall>a. Some a \<in> set ps \<longrightarrow> a < length h"
  shows "map (map_option ((!) (h @ [v]))) ps = map (map_option ((!) h)) ps"
proof (rule map_cong [OF refl])
  fix p assume "p \<in> set ps"
  with assms show "map_option ((!) (h @ [v])) p = map_option ((!) h) p" by (cases p) (auto simp: nth_append)
qed

lemma cow_make_values:
  "cows_inv c \<Longrightarrow> cow_values (cow_make v c) = cow_values c @ [Some v] \<and> cows_inv (cow_make v c)"
  using cow_values_grow [of "cw_objects c" "cw_store c" v]
  by (auto simp: cow_make_def cow_values_def cows_inv_def shared_new_def shared_make_def)

lemma cow_detach_values:
  assumes "cows_inv c" and "i < length (cw_objects c)"
  shows "case cow_detach i c of
      Inl e \<Rightarrow> e = UndefinedBehaviour \<and> cow_values c ! i = None
    | Inr c' \<Rightarrow> cows_inv c' \<and> cow_values c' = cow_values c \<and> length (cw_objects c') = length (cw_objects c)
        \<and> cow_is_unique i c' \<and> cow_values c ! i \<noteq> None"
proof (cases "cow_values c ! i")
  case None
  then show ?thesis by (simp add: cow_detach_def cow_value_values [OF assms])
next
  case (Some v)
  let ?n = "length (cw_store c)"
  let ?c = "c\<lparr>cw_store := cw_store c @ [v], cw_objects := (cw_objects c)[i := Some ?n]\<rparr>"
  have detach: "cow_detach i c = Inr ?c"
    by (simp add: cow_detach_def cow_value_values [OF assms] Some shared_new_def shared_make_def)
  have old: "Some a \<in> set (cw_objects c) \<Longrightarrow> a < ?n" for a using assms(1) by (simp add: cows_inv_def)
  have inv: "cows_inv ?c"
    using set_update_subset_insert [of "cw_objects c" i "Some ?n"] old by (fastforce simp: cows_inv_def)
  have "cow_values ?c = (map (map_option ((!) (cw_store c @ [v]))) (cw_objects c))[i := Some v]"
    by (simp add: cow_values_def map_update)
  also have "\<dots> = (cow_values c)[i := Some v]"
    unfolding cow_values_def by (subst cow_values_grow) (use old in auto)
  also have "\<dots> = cow_values c" using Some by (metis list_update_id)
  finally have "cow_values ?c = cow_values c" .
  moreover have "filter (\<lambda>q. q = Some ?n) ((cw_objects c)[i := Some ?n]) = [Some ?n]"
  proof -
    have "filter (\<lambda>q. q = Some ?n) (take i (cw_objects c)) = []"
      "filter (\<lambda>q. q = Some ?n) (drop (Suc i) (cw_objects c)) = []"
      using old by (auto simp: filter_empty_conv dest!: in_set_takeD in_set_dropD)
    then show ?thesis using assms(2) by (simp add: upd_conv_take_nth_drop)
  qed
  then have "cow_is_unique i ?c"
    using assms(2) by (simp add: cow_is_unique_def cow_use_count_def use_count_def)
  ultimately show ?thesis using inv by (simp add: detach Some)
qed

lemma unique_object:
  assumes "cow_is_unique i c" and "i < length (cw_objects c)" and "cw_objects c ! i = Some a"
    and "j < length (cw_objects c)" and "cw_objects c ! j = Some a"
  shows "j = i"
proof -
  have "card {k. k < length (cw_objects c) \<and> cw_objects c ! k = Some a} = 1"
    using assms(1,3) by (simp add: cow_is_unique_def cow_use_count_def use_count_def length_filter_conv_card)
  then obtain k where k: "{k. k < length (cw_objects c) \<and> cw_objects c ! k = Some a} = {k}"
    by (rule card_1_singletonE)
  have "i \<in> {k}" unfolding k [symmetric] using assms(2,3) by simp
  moreover have "j \<in> {k}" unfolding k [symmetric] using assms(4,5) by simp
  ultimately show ?thesis by simp
qed

lemma edit_in_place_values:
  assumes "cows_inv c" and "i < length (cw_objects c)" and "cow_is_unique i c"
  shows "\<exists>c'. cow_edit_in_place f i c = Inr c' \<and> cows_inv c' \<and> cow_values c ! i \<noteq> None
    \<and> cow_values c' = (cow_values c)[i := map_option f (cow_values c ! i)]"
proof -
  obtain a where a: "cw_objects c ! i = Some a"
    using assms(3) by (cases "cw_objects c ! i") (simp_all add: cow_is_unique_def cow_use_count_def use_count_def)
  then have lt: "a < length (cw_store c)" using assms nth_mem [OF assms(2)] by (auto simp: cows_inv_def)
  let ?c = "c\<lparr>cw_store := (cw_store c)[a := f (cw_store c ! a)]\<rparr>"
  have vi: "cow_values c ! i = Some (cw_store c ! a)" using assms(2) a by (simp add: cow_values_def)
  have "cow_edit_in_place f i c = Inr ?c"
    by (simp add: cow_edit_in_place_def cow_value_values [OF assms(1,2)] vi shared_assign_value_def a shared_set_def)
  moreover have "cows_inv ?c" using assms(1) by (simp add: cows_inv_def)
  moreover have "cow_values ?c = (cow_values c)[i := Some (f (cw_store c ! a))]"
  proof (rule nth_equalityI)
    fix j assume "j < length (cow_values ?c)"
    then have j: "j < length (cw_objects c)" by simp
    show "cow_values ?c ! j = (cow_values c)[i := Some (f (cw_store c ! a))] ! j"
    proof (cases "cw_objects c ! j")
      case None
      then have "i \<noteq> j" using a by auto
      then show ?thesis using None j by (simp add: cow_values_def)
    next
      case (Some b)
      show ?thesis
      proof (cases "a = b")
        case True
        then have "j = i" using unique_object [OF assms(3,2) a j] Some by simp
        then show ?thesis using j a lt by (simp add: cow_values_def)
      next
        case False
        then have "j \<noteq> i" using Some a by auto
        then show ?thesis using False Some j by (simp add: cow_values_def)
      qed
    qed
  qed simp
  ultimately show ?thesis by (simp add: vi)
qed

lemma cow_edit_values:
  assumes "cows_inv c" and "i < length (cw_objects c)"
  shows "map_sum id cow_values (cow_edit f i c) = value_edit f i (cow_values c)
    \<and> (\<forall>c'. cow_edit f i c = Inr c' \<longrightarrow> cows_inv c')"
proof (cases "cow_is_unique i c")
  case True
  then show ?thesis
    using edit_in_place_values [OF assms True, of f] by (auto simp: cow_edit_def value_edit_def)
next
  case False
  show ?thesis
  proof (cases "cow_detach i c")
    case (Inl e)
    then show ?thesis
      using False cow_detach_values [OF assms] by (simp add: cow_edit_def value_edit_def)
  next
    case (Inr c1)
    then have c1: "cows_inv c1" "i < length (cw_objects c1)" "cow_is_unique i c1" "cow_values c1 = cow_values c"
      using cow_detach_values [OF assms] assms(2) by simp_all
    from edit_in_place_values [OF c1(1-3), of f] show ?thesis
      using False Inr by (auto simp: cow_edit_def value_edit_def c1(4))
  qed
qed

lemma cows_inv_objects:
  "cows_inv c \<Longrightarrow> set ps \<subseteq> insert None (set (cw_objects c)) \<Longrightarrow> cows_inv (c\<lparr>cw_objects := ps\<rparr>)"
  by (auto simp: cows_inv_def)

lemma update_subset: "x \<in> insert None (set ps) \<Longrightarrow> set ps \<subseteq> A \<Longrightarrow> None \<in> A \<Longrightarrow> set (ps[i := x]) \<subseteq> A"
  using set_update_subset_insert [of ps i x] by auto

lemma cow_command_values:
  assumes inv: "cows_inv c" and "\<forall>i \<in> set (command_objects x). i < length (cw_objects c)"
  shows "map_sum id cow_values (run_cow_command x c) = run_value_command x (cow_values c)
    \<and> (\<forall>c'. run_cow_command x c = Inr c' \<longrightarrow> cows_inv c')"
proof (cases x)
  case (MakeCow v)
  then show ?thesis using cow_make_values [OF inv] by (simp add: run_cow_command_def run_value_command_def)
next
  case (CopyCow i)
  moreover have "cows_inv (cow_copy i c)"
    unfolding cow_copy_def using assms CopyCow by (intro cows_inv_objects) auto
  ultimately show ?thesis using assms
    by (simp add: run_cow_command_def run_value_command_def cow_copy_def cow_values_def)
next
  case (MoveCow i)
  moreover have "cows_inv (cow_move i c)"
    unfolding cow_move_def using assms MoveCow update_subset [of None "cw_objects c" "insert None (set (cw_objects c))" i]
    by (intro cows_inv_objects) auto
  ultimately show ?thesis using assms
    by (simp add: run_cow_command_def run_value_command_def cow_move_def cow_values_def map_update)
next
  case (AssignCow i j)
  moreover have "cows_inv (cow_assign i j c)"
    unfolding cow_assign_def using assms AssignCow by (intro cows_inv_objects update_subset) auto
  ultimately show ?thesis using assms
    by (simp add: run_cow_command_def run_value_command_def cow_assign_def cow_values_def map_update)
next
  case (MoveAssignCow i j)
  moreover have "cows_inv (cow_move_assign i j c)"
  proof (cases "i = j")
    case False
    then show ?thesis
      unfolding cow_move_assign_def using assms MoveAssignCow
      by (simp, intro cows_inv_objects update_subset) auto
  qed (simp add: cow_move_assign_def inv)
  ultimately show ?thesis using assms
    by (simp add: run_cow_command_def run_value_command_def cow_move_assign_def cow_values_def map_update)
next
  case (DestroyCow i)
  moreover have "cows_inv (cow_destroy i c)"
    unfolding cow_destroy_def using assms by (intro cows_inv_objects update_subset) auto
  ultimately show ?thesis using assms
    by (simp add: run_cow_command_def run_value_command_def cow_destroy_def cow_values_def map_update)
next
  case (EditCow i f)
  then show ?thesis using assms cow_edit_values [OF inv, of i f]
    by (simp add: run_cow_command_def run_value_command_def)
next
  case (SetCow i v)
  then show ?thesis using assms cow_edit_values [OF inv, of i "\<lambda>_. v"]
    by (simp add: run_cow_command_def run_value_command_def cow_set_def)
qed

lemma cow_program_values:
  "cows_inv c \<Longrightarrow> map_option (map_sum id cow_values) (run_cow_program xs c) = run_value_program xs (cow_values c)"
proof (induction xs arbitrary: c)
  case (Cons x xs)
  show ?case
  proof (cases "\<exists>i \<in> set (command_objects x). length (cw_objects c) \<le> i")
    case False
    then have "map_sum id cow_values (run_cow_command x c) = run_value_command x (cow_values c)"
      "\<forall>c'. run_cow_command x c = Inr c' \<longrightarrow> cows_inv c'"
      using cow_command_values [OF Cons.prems, of x] by force+
    then show ?thesis
      using False Cons.IH
      by (cases "run_cow_command x c") (auto simp del: bex_simps dest!: sym [of _ "run_value_command x (cow_values c)"])
  qed simp
qed simp

section \<open>Properties\<close>

text \<open>C20: Copy on write cannot be observed: every program that constructs, copies, moves, assigns,
  edits, sets and destroys Cow objects leaves each of them with the value it would have if every
  object held its own copy, and is undefined exactly where it edits an object that was moved from.\<close>

theorem cow_has_value_semantics:
  "map_option (map_sum id cow_values) (run_cow_program xs cows_empty) = run_value_program xs []"
  using cow_program_values [of "cows_empty" xs] by (simp add: cows_empty_def cows_inv_def cow_values_def)

end
