(* ===== verification/Core_Atomic.thy ===== *)
theory Core_Atomic
  imports Interfaces "HOL-Library.Multiset"
begin

text \<open>
  libs/core/headers/ez/Atomic.hpp: an object behind a mutex. Objects are their addresses. Every
  operation is the sequence of what its lock guards and its body do; threads run sequences of
  operations and their actions interleave. With std::shared_mutex shared locks can be held
  together; with std::mutex LockHelper makes every lock exclusive. The functions passed to read and
  edit do not use Atomic objects themselves.
\<close>

section \<open>Operations\<close>

datatype lock = Lock nat bool

text \<open>Lock a True is the unique lock of the object at a, Lock a False a shared one.\<close>

datatype access = ReadData nat | EditData nat | CopyData nat nat | MoveData nat nat

datatype action = Acquire lock | Release lock | Access access

datatype atomic_operation = AtomicRead nat | AtomicEdit nat | AtomicSet nat
  | CopyConstruct nat nat | MoveConstruct nat nat | CopyAssign nat nat | MoveAssign nat nat

definition guarded :: "lock \<Rightarrow> action list \<Rightarrow> action list" where
  "guarded l body = Acquire l # body @ [Release l]"

text \<open>Copy assignment locks the object at the lower address first and does nothing on itself; moves do not lock their source.\<close>

fun actions_of :: "atomic_operation \<Rightarrow> action list" where
  "actions_of (AtomicRead a) = guarded (Lock a False) [Access (ReadData a)]"
| "actions_of (AtomicEdit a) = guarded (Lock a True) [Access (EditData a)]"
| "actions_of (AtomicSet a) = guarded (Lock a True) [Access (EditData a)]"
| "actions_of (CopyConstruct a b) = guarded (Lock b False) [Access (CopyData a b)]"
| "actions_of (MoveConstruct a b) = [Access (MoveData a b)]"
| "actions_of (CopyAssign a b) =
     (if a < b then guarded (Lock a True) (guarded (Lock b False) [Access (CopyData a b)])
      else if b < a then guarded (Lock b False) (guarded (Lock a True) [Access (CopyData a b)])
      else [])"
| "actions_of (MoveAssign a b) = guarded (Lock a True) [Access (MoveData a b)]"

definition thread_actions :: "atomic_operation list \<Rightarrow> action list" where
  "thread_actions ops = concat (map actions_of ops)"

section \<open>Threads\<close>

text \<open>The readers and the writer of every mutex, and what is left of every thread.\<close>

record atomics =
  at_readers :: "nat \<Rightarrow> nat"
  at_writer :: "nat \<Rightarrow> bool"
  at_threads :: "action list list"

definition atomics_start :: "atomic_operation list list \<Rightarrow> atomics" where
  "atomics_start ts = \<lparr>at_readers = \<lambda>_. 0, at_writer = \<lambda>_. False, at_threads = map thread_actions ts\<rparr>"

definition can_acquire :: "bool \<Rightarrow> lock \<Rightarrow> atomics \<Rightarrow> bool" where
  "can_acquire shared_mutex l s = (case l of Lock a unique \<Rightarrow>
     \<not> at_writer s a \<and> (at_readers s a = 0 \<or> shared_mutex \<and> \<not> unique))"

definition acquire :: "lock \<Rightarrow> atomics \<Rightarrow> atomics" where
  "acquire l s = (case l of Lock a unique \<Rightarrow>
     if unique then s\<lparr>at_writer := (at_writer s)(a := True)\<rparr>
     else s\<lparr>at_readers := (at_readers s)(a := Suc (at_readers s a))\<rparr>)"

definition release :: "lock \<Rightarrow> atomics \<Rightarrow> atomics" where
  "release l s = (case l of Lock a unique \<Rightarrow>
     if unique then s\<lparr>at_writer := (at_writer s)(a := False)\<rparr>
     else s\<lparr>at_readers := (at_readers s)(a := at_readers s a - 1)\<rparr>)"

definition enabled :: "bool \<Rightarrow> action \<Rightarrow> atomics \<Rightarrow> bool" where
  "enabled shared_mutex x s = (case x of Acquire l \<Rightarrow> can_acquire shared_mutex l s | _ \<Rightarrow> True)"

definition perform :: "action \<Rightarrow> atomics \<Rightarrow> atomics" where
  "perform x s = (case x of Acquire l \<Rightarrow> acquire l s | Release l \<Rightarrow> release l s | Access d \<Rightarrow> s)"

inductive atomic_step :: "bool \<Rightarrow> atomics \<Rightarrow> atomics \<Rightarrow> bool" for shared_mutex where
  "t < length (at_threads s) \<Longrightarrow> at_threads s ! t = x # p \<Longrightarrow> enabled shared_mutex x s \<Longrightarrow>
    atomic_step shared_mutex s ((perform x s)\<lparr>at_threads := (at_threads s)[t := p]\<rparr>)"

inductive_cases atomic_stepE: "atomic_step m s s'"

section \<open>What a thread holds\<close>

text \<open>The locks held before the rest of a thread: those it releases without acquiring them.\<close>

fun held :: "action list \<Rightarrow> lock multiset" where
  "held [] = {#}"
| "held (Acquire l # p) = held p - {#l#}"
| "held (Release l # p) = add_mset l (held p)"
| "held (Access d # p) = held p"

text \<open>Every lock is acquired above those that are held, and released.\<close>

fun lock_address :: "lock \<Rightarrow> nat" where
  "lock_address (Lock a u) = a"

fun ordered :: "action list \<Rightarrow> bool" where
  "ordered [] = True"
| "ordered (Acquire l # p) = (ordered p \<and> l \<in># held p \<and>
     (\<forall>k \<in># held p - {#l#}. lock_address k < lock_address l))"
| "ordered (Release l # p) = ordered p"
| "ordered (Access d # p) = ordered p"

lemma ordered_append: "held q = {#} \<Longrightarrow> ordered p \<Longrightarrow> ordered q \<Longrightarrow> held (p @ q) = held p \<and> ordered (p @ q)"
  by (induction p rule: held.induct) simp_all

lemma actions_ordered: "ordered (actions_of x) \<and> held (actions_of x) = {#}"
  by (cases x) (auto simp: guarded_def)

lemma thread_ordered: "ordered (thread_actions ops) \<and> held (thread_actions ops) = {#}"
proof (induction ops)
  case (Cons x ops)
  have "thread_actions (x # ops) = actions_of x @ thread_actions ops" by (simp add: thread_actions_def)
  then show ?case
    using Cons actions_ordered [of x] ordered_append [of "thread_actions ops" "actions_of x"] by simp
qed (simp add: thread_actions_def)

definition all_held :: "action list list \<Rightarrow> lock multiset" where
  "all_held ps = sum_list (map held ps)"

lemma all_held_update:
  "t < length ps \<Longrightarrow> all_held (ps[t := p]) + held (ps ! t) = all_held ps + held p"
proof (induction ps arbitrary: t)
  case (Cons q ps)
  show ?case
  proof (cases t)
    case (Suc i)
    then show ?thesis using Cons.IH [of i] Cons.prems by (simp add: all_held_def add.assoc add.left_commute)
  qed (simp add: all_held_def)
qed simp

lemma all_held_member: "t < length ps \<Longrightarrow> l \<in># held (ps ! t) \<Longrightarrow> l \<in># all_held ps"
  by (induction ps arbitrary: t) (auto simp: all_held_def nth_Cons split: nat.splits)

lemma all_held_obtain: "l \<in># all_held ps \<Longrightarrow> \<exists>t < length ps. l \<in># held (ps ! t)"
proof (induction ps)
  case (Cons p ps)
  then consider "l \<in># held p" | "l \<in># all_held ps" by (auto simp: all_held_def)
  then show ?case
  proof cases
    case 2
    then obtain t where "t < length ps" "l \<in># held (ps ! t)" using Cons.IH by blast
    then show ?thesis by (intro exI [of _ "Suc t"]) simp
  qed (auto intro: exI [of _ 0])
qed (simp add: all_held_def)

section \<open>Invariant\<close>

text \<open>The mutexes are in the state that the held locks say, and unique locks exclude all others.\<close>

definition atomics_inv :: "atomics \<Rightarrow> bool" where
  "atomics_inv s \<longleftrightarrow> (\<forall>p \<in> set (at_threads s). ordered p)
     \<and> (\<forall>a. at_readers s a = count (all_held (at_threads s)) (Lock a False))
     \<and> (\<forall>a. count (all_held (at_threads s)) (Lock a True) = (if at_writer s a then 1 else 0))
     \<and> (\<forall>a. at_writer s a \<longrightarrow> at_readers s a = 0)"

lemma ordered_tail: "ordered (x # p) \<Longrightarrow> ordered p"
  by (cases x) simp_all

lemma held_step:
  "ordered (x # p) \<Longrightarrow> held p = (case x of Acquire l \<Rightarrow> add_mset l (held (x # p))
    | Release l \<Rightarrow> held (x # p) - {#l#} | Access d \<Rightarrow> held (x # p))"
  by (cases x) simp_all

lemma atomics_inv_start: "atomics_inv (atomics_start ts)"
proof -
  have "all_held (map thread_actions ts) = {#}"
    by (induction ts) (simp_all add: all_held_def thread_ordered)
  then show ?thesis by (auto simp: atomics_inv_def atomics_start_def thread_ordered)
qed

lemma held_after:
  assumes "t < length ps" and "ps ! t = x # p" and "ordered (x # p)"
  shows "all_held (ps[t := p]) = (case x of Acquire l \<Rightarrow> add_mset l (all_held ps)
    | Release l \<Rightarrow> all_held ps - {#l#} | Access d \<Rightarrow> all_held ps)"
proof -
  have sum: "all_held (ps[t := p]) + held (x # p) = all_held ps + held p"
    using all_held_update [OF assms(1), of p] assms(2) by simp
  show ?thesis
  proof (cases x)
    case (Acquire l)
    then obtain h where h: "held p = add_mset l h" using assms(3) by (auto dest: multi_member_split)
    then have "all_held (ps[t := p]) + h = all_held ps + add_mset l h" using sum Acquire by simp
    then have "all_held (ps[t := p]) = add_mset l (all_held ps)" by simp
    then show ?thesis using Acquire by simp
  next
    case (Release l)
    then have "held (x # p) = add_mset l (held p)" by simp
    then have "add_mset l (all_held (ps[t := p])) = all_held ps" using sum by simp
    then have "all_held (ps[t := p]) = all_held ps - {#l#}" by (metis add_mset_remove_trivial)
    then show ?thesis using Release by simp
  next
    case (Access d)
    then show ?thesis using sum by simp
  qed
qed

lemma atomics_inv_step:
  assumes inv: "atomics_inv s" and t: "t < length (at_threads s)" "at_threads s ! t = x # p"
    and enabled: "enabled m x s"
  shows "atomics_inv ((perform x s)\<lparr>at_threads := (at_threads s)[t := p]\<rparr>)"
proof -
  have ord: "ordered (x # p)" using inv t nth_mem [OF t(1)] by (simp add: atomics_inv_def)
  have all: "\<forall>q \<in> set ((at_threads s)[t := p]). ordered q"
    using inv ordered_tail [OF ord] set_update_subset_insert [of "at_threads s" t p]
    by (auto simp: atomics_inv_def)
  note after = held_after [OF t ord]
  have readers: "\<forall>a. at_readers s a = count (all_held (at_threads s)) (Lock a False)"
    and writers: "\<forall>a. count (all_held (at_threads s)) (Lock a True) = (if at_writer s a then 1 else 0)"
    and excl: "\<forall>a. at_writer s a \<longrightarrow> at_readers s a = 0"
    using inv unfolding atomics_inv_def by blast+
  show ?thesis
  proof (cases x)
    case (Access d)
    then show ?thesis using all after readers writers excl by (simp add: atomics_inv_def perform_def)
  next
    case (Acquire l)
    obtain a u where l: "l = Lock a u" by (cases l)
    then show ?thesis
      using Acquire all after readers writers excl enabled
      by (cases u) (simp_all add: atomics_inv_def perform_def acquire_def enabled_def can_acquire_def)
  next
    case (Release l)
    obtain a u where l: "l = Lock a u" by (cases l)
    have "l \<in># all_held (at_threads s)" using all_held_member [OF t(1), of l] t(2) Release by simp
    then have pos: "0 < count (all_held (at_threads s)) (Lock a u)" by (simp add: l)
    show ?thesis
    proof (cases u)
      case True
      then have "at_writer s a" using pos writers by (metis less_irrefl)
      then show ?thesis using Release l True all after readers writers excl
        by (simp add: atomics_inv_def perform_def release_def)
    next
      case False
      then have "\<not> at_writer s a" using pos readers excl by (metis less_irrefl)
      then show ?thesis using Release l False all after readers writers excl
        by (simp add: atomics_inv_def perform_def release_def)
    qed
  qed
qed

interpretation atomic_system: invariant_system "\<lambda>s. \<exists>ts. s = atomics_start ts" "atomic_step m" atomics_inv for m
proof
  show "atomics_inv s" if "\<exists>ts. s = atomics_start ts" for s
    using that atomics_inv_start by blast
  show "atomics_inv s'" if "atomics_inv s" "atomic_step m s s'" for s s'
    using that(2) by (rule atomic_stepE) (use atomics_inv_step [OF that(1)] in simp)
qed

section \<open>Properties\<close>

text \<open>The addresses that threads wait for.\<close>

definition waited_for :: "atomics \<Rightarrow> nat set" where
  "waited_for s = {lock_address l |l t p. t < length (at_threads s) \<and> at_threads s ! t = Acquire l # p}"

lemma waited_for_finite: "finite (waited_for s)"
proof (rule finite_subset)
  show "waited_for s \<subseteq> (\<lambda>t. case at_threads s ! t of Acquire l # p \<Rightarrow> lock_address l | _ \<Rightarrow> 0) ` {..<length (at_threads s)}"
  proof
    fix a assume "a \<in> waited_for s"
    then obtain l t p where "a = lock_address l" "t < length (at_threads s)" "at_threads s ! t = Acquire l # p"
      by (auto simp: waited_for_def)
    then show "a \<in> (\<lambda>t. case at_threads s ! t of Acquire l # p \<Rightarrow> lock_address l | _ \<Rightarrow> 0) ` {..<length (at_threads s)}"
      by (intro image_eqI [of _ _ t]) simp_all
  qed
qed simp

lemma blocked_by_holder:
  assumes "atomics_inv s" and "\<not> can_acquire m l s"
  shows "\<exists>k. k \<in># all_held (at_threads s) \<and> lock_address k = lock_address l"
proof -
  obtain a u where l: "l = Lock a u" by (cases l)
  then have "at_writer s a \<or> at_readers s a \<noteq> 0" using assms(2) by (auto simp: can_acquire_def)
  then have "count (all_held (at_threads s)) (Lock a True) \<noteq> 0 \<or> count (all_held (at_threads s)) (Lock a False) \<noteq> 0"
    using assms(1) unfolding atomics_inv_def by (metis one_neq_zero)
  then show ?thesis by (auto simp: l)
qed

text \<open>A thread that holds a lock and waits, waits for one at a higher address.\<close>

lemma holder_waits_above:
  assumes "atomics_inv s" and "t < length (at_threads s)" and "k \<in># held (at_threads s ! t)"
    and "at_threads s ! t = Acquire l # p"
  shows "lock_address k < lock_address l"
proof -
  have "ordered (at_threads s ! t)" using assms(1) nth_mem [OF assms(2)] unfolding atomics_inv_def by blast
  then have "ordered (Acquire l # p)" unfolding assms(4) .
  then show ?thesis using assms(3,4) by auto
qed



text \<open>What an access reads and writes; a move changes its source.\<close>

fun reads :: "access \<Rightarrow> nat set" where
  "reads (ReadData a) = {a}"
| "reads (EditData a) = {a}"
| "reads (CopyData a b) = {b}"
| "reads (MoveData a b) = {b}"

fun writes :: "access \<Rightarrow> nat set" where
  "writes (ReadData a) = {}"
| "writes (EditData a) = {a}"
| "writes (CopyData a b) = {a}"
| "writes (MoveData a b) = {a, b}"

fun locks_what_it_uses :: "atomic_operation \<Rightarrow> bool" where
  "locks_what_it_uses (MoveConstruct a b) = False"
| "locks_what_it_uses (MoveAssign a b) = False"
| "locks_what_it_uses (CopyConstruct a b) = False"
| "locks_what_it_uses _ = True"

fun covered :: "action list \<Rightarrow> bool" where
  "covered [] = True"
| "covered (Access d # p) = (covered p \<and> (\<forall>a \<in> writes d. Lock a True \<in># held p)
     \<and> (\<forall>a \<in> reads d. Lock a True \<in># held p \<or> Lock a False \<in># held p))"
| "covered (x # p) = covered p"

lemma covered_append: "held q = {#} \<Longrightarrow> ordered p \<Longrightarrow> ordered q \<Longrightarrow> covered p \<Longrightarrow> covered q \<Longrightarrow> covered (p @ q)"
proof (induction p rule: covered.induct)
  case (2 d p)
  then have "held (p @ q) = held p" using ordered_append [of q p] by simp
  with 2 show ?case by simp
qed simp_all

lemma actions_covered: "locks_what_it_uses x \<Longrightarrow> covered (actions_of x)"
  by (cases x) (auto simp: guarded_def)

lemma thread_covered: "\<forall>x \<in> set ops. locks_what_it_uses x \<Longrightarrow> covered (thread_actions ops)"
proof (induction ops)
  case (Cons x ops)
  have "thread_actions (x # ops) = actions_of x @ thread_actions ops" by (simp add: thread_actions_def)
  then show ?case
    using Cons actions_covered [of x] actions_ordered [of x] thread_ordered [of ops] covered_append by simp
qed (simp add: thread_actions_def)

lemma covered_tail: "covered (x # p) \<Longrightarrow> covered p"
  by (cases x) simp_all

lemma covered_steps:
  "(atomic_step m)\<^sup>*\<^sup>* s s' \<Longrightarrow> \<forall>p \<in> set (at_threads s). covered p \<Longrightarrow> \<forall>p \<in> set (at_threads s'). covered p"
proof (induction rule: rtranclp_induct)
  case (step s1 s2)
  obtain t x p where t: "t < length (at_threads s1)" "at_threads s1 ! t = x # p"
    "at_threads s2 = (at_threads s1)[t := p]"
    using step.hyps(2) by (rule atomic_stepE) simp
  have "covered (x # p)" using step.IH [OF step.prems] nth_mem [OF t(1)] t(2) by simp
  then have "covered p" by (rule covered_tail)
  then show ?case
    using step.IH [OF step.prems] set_update_subset_insert [of "at_threads s1" t p] t(3) by auto
qed simp

text \<open>Two different threads never hold locks on an object when one of them holds the unique lock.\<close>

lemma unique_excludes:
  assumes "atomics_inv s" and "t < length (at_threads s)" and "u < length (at_threads s)" and "t \<noteq> u"
    and "Lock a True \<in># held (at_threads s ! t)"
  shows "Lock a v \<notin># held (at_threads s ! u)"
proof
  let ?ps = "at_threads s"
  assume other: "Lock a v \<in># held (?ps ! u)"
  define rest mine where "rest = all_held (?ps[t := []])" and "mine = held (?ps ! t)"
  have "all_held ?ps = rest + mine"
    using all_held_update [OF assms(2), of "[]"] by (simp add: rest_def mine_def)
  then have split: "count (all_held ?ps) l = count rest l + count mine l" for l by simp
  have "Lock a v \<in># rest"
    using all_held_member [of u "?ps[t := []]" "Lock a v"] assms(3,4) other by (simp add: rest_def)
  then have r: "count rest (Lock a v) \<noteq> 0" by simp
  have m: "count mine (Lock a True) \<noteq> 0" using assms(5) by (simp add: mine_def)
  have "count (all_held ?ps) (Lock a True) = (if at_writer s a then 1 else 0)" "at_writer s a \<longrightarrow> at_readers s a = 0"
    "at_readers s a = count (all_held ?ps) (Lock a False)"
    using assms(1) unfolding atomics_inv_def by blast+
  then have one: "count rest (Lock a True) + count mine (Lock a True) \<le> 1"
    and none: "count rest (Lock a True) + count mine (Lock a True) \<noteq> 0 \<longrightarrow> count rest (Lock a False) + count mine (Lock a False) = 0"
    unfolding split by (simp_all split: if_splits)
  show False
  proof (cases v)
    case True
    then have "count rest (Lock a True) \<noteq> 0" using r by simp
    then show False using m one by linarith
  next
    case False
    have "count rest (Lock a False) = 0" using none m by linarith
    then show False using r False by (metis (full_types))
  qed
qed

text \<open>C24: Reads, edits and copy assignments of Atomic objects never race: no two threads are ever
  about to access the same object when one of the accesses writes it.\<close>

theorem atomic_accesses_do_not_race:
  assumes "\<forall>ops \<in> set ts. \<forall>x \<in> set ops. locks_what_it_uses x"
    and "(atomic_step m)\<^sup>*\<^sup>* (atomics_start ts) s"
    and "t < length (at_threads s)" and "u < length (at_threads s)" and "t \<noteq> u"
    and "at_threads s ! t = Access d # p" and "at_threads s ! u = Access e # q"
  shows "writes d \<inter> (reads e \<union> writes e) = {}"
proof -
  have inv: "atomics_inv s" by (rule atomic_system.inv_reachable [OF _ assms(2)]) blast
  have "\<forall>p \<in> set (at_threads (atomics_start ts)). covered p"
    using assms(1) thread_covered by (auto simp: atomics_start_def)
  then have covered: "\<forall>p \<in> set (at_threads s). covered p" by (rule covered_steps [OF assms(2)])
  have "covered (at_threads s ! t)" "covered (at_threads s ! u)"
    using covered nth_mem [OF assms(3)] nth_mem [OF assms(4)] by blast+
  then have "covered (Access d # p)" "covered (Access e # q)" unfolding assms(6,7) .
  then have d: "\<forall>a \<in> writes d. Lock a True \<in># held (at_threads s ! t)"
    and e: "\<forall>a \<in> reads e \<union> writes e. Lock a True \<in># held (at_threads s ! u) \<or> Lock a False \<in># held (at_threads s ! u)"
    using assms(6,7) by auto
  show ?thesis
  proof (rule ccontr)
    assume "writes d \<inter> (reads e \<union> writes e) \<noteq> {}"
    then obtain a where a: "a \<in> writes d" "a \<in> reads e \<union> writes e" by blast
    from unique_excludes [OF inv assms(3-5) d [rule_format, OF a(1)]] e [rule_format, OF a(2)] show False by blast
  qed
qed

theorem atomic_accesses_do_not_race_witness:
  "\<exists>s. (atomic_step True)\<^sup>*\<^sup>* (atomics_start [[AtomicRead 3], [AtomicRead 3]]) s
    \<and> at_readers s 3 = 2 \<and> writes (ReadData 3) \<inter> (reads (ReadData 3) \<union> writes (ReadData 3)) = {}"
proof -
  let ?s = "atomics_start [[AtomicRead 3], [AtomicRead 3]]"
  let ?x = "Acquire (Lock 3 False)" let ?p = "[Access (ReadData 3), Release (Lock 3 False)]"
  let ?s1 = "(perform ?x ?s)\<lparr>at_threads := (at_threads ?s)[0 := ?p]\<rparr>"
  let ?s2 = "(perform ?x ?s1)\<lparr>at_threads := (at_threads ?s1)[1 := ?p]\<rparr>"
  note defs = atomics_start_def thread_actions_def guarded_def enabled_def can_acquire_def perform_def acquire_def
  have "atomic_step True ?s ?s1" by (rule atomic_step.intros) (simp_all add: defs)
  then have "(atomic_step True)\<^sup>*\<^sup>* ?s ?s1" by (rule r_into_rtranclp)
  moreover have "atomic_step True ?s1 ?s2" by (rule atomic_step.intros) (simp_all add: defs)
  ultimately have reach: "(atomic_step True)\<^sup>*\<^sup>* ?s ?s2" by (rule rtranclp.rtrancl_into_rtrancl)
  have safe: "\<forall>ops \<in> set [[AtomicRead 3], [AtomicRead 3]]. \<forall>x \<in> set ops. locks_what_it_uses x" by simp
  have threads: "(0::nat) < length (at_threads ?s2)" "1 < length (at_threads ?s2)" "(0::nat) \<noteq> 1"
    "at_threads ?s2 ! 0 = Access (ReadData 3) # [Release (Lock 3 False)]"
    "at_threads ?s2 ! 1 = Access (ReadData 3) # [Release (Lock 3 False)]"
    by (simp_all add: atomics_start_def)
  have "at_readers ?s2 3 = 2" by (simp add: atomics_start_def perform_def acquire_def)
  with atomic_accesses_do_not_race [OF safe reach threads] reach show ?thesis by blast
qed

text \<open>Move assignment leaves its source unlocked: it races with an edit of the source.\<close>

lemma move_assignment_races:
  "\<exists>s. (atomic_step True)\<^sup>*\<^sup>* (atomics_start [[MoveAssign 0 1], [AtomicEdit 1]]) s
    \<and> at_threads s ! 0 = [Access (MoveData 0 1), Release (Lock 0 True)]
    \<and> at_threads s ! 1 = [Access (EditData 1), Release (Lock 1 True)]"
proof -
  let ?s = "atomics_start [[MoveAssign 0 1], [AtomicEdit 1]]"
  let ?p = "[Access (MoveData 0 1), Release (Lock 0 True)]" let ?q = "[Access (EditData 1), Release (Lock 1 True)]"
  let ?s1 = "(perform (Acquire (Lock 0 True)) ?s)\<lparr>at_threads := (at_threads ?s)[0 := ?p]\<rparr>"
  let ?s2 = "(perform (Acquire (Lock 1 True)) ?s1)\<lparr>at_threads := (at_threads ?s1)[1 := ?q]\<rparr>"
  note defs = atomics_start_def thread_actions_def guarded_def enabled_def can_acquire_def perform_def acquire_def
  have "atomic_step True ?s ?s1" by (rule atomic_step.intros) (simp_all add: defs)
  then have "(atomic_step True)\<^sup>*\<^sup>* ?s ?s1" by (rule r_into_rtranclp)
  moreover have "atomic_step True ?s1 ?s2" by (rule atomic_step.intros) (simp_all add: defs)
  ultimately have "(atomic_step True)\<^sup>*\<^sup>* ?s ?s2" by (rule rtranclp.rtrancl_into_rtrancl)
  moreover have "at_threads ?s2 ! 0 = ?p" "at_threads ?s2 ! 1 = ?q" by (simp_all add: atomics_start_def)
  ultimately show ?thesis by blast
qed

end
