(* ===== verification/Core_Error.thy ===== *)
theory Core_Error
  imports Interfaces
begin

text \<open>
  libs/core/headers/ez/Error.hpp: an error is a code of some enum, the ErrorInfo of that enum, and
  a message. Enum types are a linearly ordered type, which is what std::type_info::before gives;
  the message function of an enum comes with its EZ_ERROR_INFO. Codes are the integers they are
  converted to.
\<close>

record 'ty error_info =
  ei_name :: string
  ei_enum :: 'ty
  ei_message :: "int \<Rightarrow> string"

definition info_eq :: "'ty error_info \<Rightarrow> 'ty error_info \<Rightarrow> bool" where
  "info_eq a b \<longleftrightarrow> ei_enum a = ei_enum b"

definition info_neq :: "'ty error_info \<Rightarrow> 'ty error_info \<Rightarrow> bool" where
  "info_neq a b \<longleftrightarrow> ei_enum a \<noteq> ei_enum b"

definition info_less :: "('ty :: linorder) error_info \<Rightarrow> 'ty error_info \<Rightarrow> bool" where
  "info_less a b \<longleftrightarrow> ei_enum a < ei_enum b"

definition make_error_info :: "string \<Rightarrow> 'ty \<Rightarrow> (int \<Rightarrow> string) \<Rightarrow> 'ty error_info" where
  "make_error_info name enum fn = \<lparr>ei_name = name, ei_enum = enum, ei_message = fn\<rparr>"

record 'ty error =
  er_code :: int
  er_info :: "'ty error_info"
  er_message :: string

definition error_new :: "'ty error_info \<Rightarrow> int \<Rightarrow> 'ty error" where
  "error_new info c = \<lparr>er_code = c, er_info = info, er_message = ei_message info c\<rparr>"

definition error_with_message :: "'ty error_info \<Rightarrow> int \<Rightarrow> string \<Rightarrow> 'ty error" where
  "error_with_message info c msg = \<lparr>er_code = c, er_info = info, er_message = msg\<rparr>"

definition error_eq :: "'ty error \<Rightarrow> 'ty error \<Rightarrow> bool" where
  "error_eq a b \<longleftrightarrow> er_code a = er_code b \<and> info_eq (er_info a) (er_info b)"

definition error_neq :: "'ty error \<Rightarrow> 'ty error \<Rightarrow> bool" where
  "error_neq a b \<longleftrightarrow> er_code a \<noteq> er_code b \<or> info_neq (er_info a) (er_info b)"

definition error_less :: "('ty :: linorder) error \<Rightarrow> 'ty error \<Rightarrow> bool" where
  "error_less a b \<longleftrightarrow>
     er_code a < er_code b \<or> er_code a = er_code b \<and> info_less (er_info a) (er_info b)"

definition error_name :: "'ty error \<Rightarrow> string" where
  "error_name e = ei_name (er_info e)"

definition show_int :: "int \<Rightarrow> (nat \<Rightarrow> string) \<Rightarrow> string" where
  "show_int i digits = (if i < 0 then CHR ''-'' # digits (nat (- i)) else digits (nat i))"

definition error_id :: "(nat \<Rightarrow> string) \<Rightarrow> 'ty error \<Rightarrow> string" where
  "error_id digits e = error_name e @ ''-'' @ show_int (er_code e) digits"

definition error_what :: "'ty error \<Rightarrow> string" where
  "error_what e = er_message e"

definition error_is :: "'ty error_info \<Rightarrow> 'ty error \<Rightarrow> bool" where
  "error_is info e \<longleftrightarrow> info_eq (er_info e) info"

lemmas error_defs = error_eq_def error_neq_def error_less_def info_eq_def info_neq_def info_less_def

interpretation errors: ordered_upto error_eq "error_less :: ('ty :: linorder) error \<Rightarrow> _"
  by unfold_locales (auto simp: error_defs)

text \<open>Errors can be keys of ordered containers: the less-than of errors is a strict order, two
  errors that are not ordered either way are exactly those that compare equal, equality is an
  equivalence which neither reads the message nor the name, and != is its negation. Two errors of
  one enum compare equal iff their codes are equal.\<close>

theorem errors_are_totally_ordered:
  fixes a b c :: "('ty :: linorder) error"
  shows "\<not> error_less a a
    \<and> (error_less a b \<and> error_less b c \<longrightarrow> error_less a c)
    \<and> (\<not> error_less a b \<and> \<not> error_less b a \<longleftrightarrow> error_eq a b)
    \<and> (error_eq a b \<longrightarrow> error_eq b a) \<and> (error_eq a b \<and> error_eq b c \<longrightarrow> error_eq a c)
    \<and> (error_less a b \<and> error_eq b c \<longrightarrow> error_less a c)
    \<and> (error_neq a b \<longleftrightarrow> \<not> error_eq a b)
    \<and> (error_is info a \<and> error_is info b \<longrightarrow> (error_eq a b \<longleftrightarrow> er_code a = er_code b))"
  using errors.less_irrefl errors.less_trans [of a b c] errors.incomparable_iff [of a b]
    errors.equiv_sym [of a b] errors.equiv_trans [of a b c] errors.less_equiv_trans [of a b c]
  by (auto simp: error_neq_def error_eq_def info_neq_def info_eq_def error_is_def)

theorem errors_are_totally_ordered_witness:
  "let io = make_error_info ''io'' (1 :: nat) (\<lambda>_. ''io''); net = make_error_info ''net'' 2 (\<lambda>_. ''net'');
       a = error_new io 3; b = error_new net 3; c = error_with_message net 3 ''other''
   in error_less a c \<and> error_eq c b \<and> (error_is net b \<and> error_is net c \<longrightarrow> er_code b = er_code c)"
proof -
  let ?io = "make_error_info ''io'' (1 :: nat) (\<lambda>_. ''io'')" and ?net = "make_error_info ''net'' (2 :: nat) (\<lambda>_. ''net'')"
  let ?a = "error_new ?io 3" and ?b = "error_new ?net 3" and ?c = "error_with_message ?net 3 ''other''"
  have "error_less ?a ?b" "error_eq ?b ?c"
    by (simp_all add: error_defs error_new_def error_with_message_def make_error_info_def)
  with errors_are_totally_ordered [of ?a ?b ?c ?net] errors_are_totally_ordered [of ?b ?c ?b ?net]
  show ?thesis by (auto simp: Let_def)
qed

end
