(* ===== verification/Core_Resource.thy ===== *)
theory Core_Resource
  imports Prelude "HOL-Library.Multiset"
begin

text \<open>
  libs/core/headers/ez/Resource.hpp: a move-only owner of a value that its destructor hands to a
  deleter. Objects are numbered slots, empty after destruction; \<open>rs_deleted\<close> lists what the deleter
  got. The move constructor default-initialises the value before it swaps, so the moved-from object
  owns that default (a null coroutine handle where the library uses it).
\<close>

record 'v resources =
  rs_slots :: "'v option list"
  rs_deleted :: "'v list"

definition resources_none :: "'v resources" where
  "resources_none = \<lparr>rs_slots = [], rs_deleted = []\<rparr>"

definition resource_new :: "'v \<Rightarrow> 'v resources \<Rightarrow> 'v resources" where
  "resource_new v s = s\<lparr>rs_slots := rs_slots s @ [Some v]\<rparr>"

definition resource_move_assign :: "nat \<Rightarrow> nat \<Rightarrow> 'v resources \<Rightarrow> 'v resources" where
  "resource_move_assign a b s =
     s\<lparr>rs_slots := (rs_slots s)[a := rs_slots s ! b, b := rs_slots s ! a]\<rparr>"

definition resource_move_new :: "'v \<Rightarrow> nat \<Rightarrow> 'v resources \<Rightarrow> 'v resources" where
  "resource_move_new default_value b s =
     resource_move_assign (length (rs_slots s)) b (resource_new default_value s)"

definition resource_destroy :: "nat \<Rightarrow> 'v resources \<Rightarrow> 'v resources" where
  "resource_destroy a s =
     s\<lparr>rs_slots := (rs_slots s)[a := None],
       rs_deleted := rs_deleted s @ (case rs_slots s ! a of Some v \<Rightarrow> [v] | None \<Rightarrow> [])\<rparr>"

definition resource_get :: "nat \<Rightarrow> 'v resources \<Rightarrow> 'v option" where
  "resource_get a s = rs_slots s ! a"

definition resource_set :: "nat \<Rightarrow> 'v \<Rightarrow> 'v resources \<Rightarrow> 'v resources" where
  "resource_set a v s = s\<lparr>rs_slots := (rs_slots s)[a := Some v]\<rparr>"

text \<open>Code that only uses living objects; d is the default of the value type.\<close>

definition living :: "'v resources \<Rightarrow> nat \<Rightarrow> bool" where
  "living s a \<longleftrightarrow> a < length (rs_slots s) \<and> rs_slots s ! a \<noteq> None"

text \<open>A run records the values given to objects: those constructed, and the defaults.\<close>

inductive resource_run :: "'v \<Rightarrow> 'v multiset \<Rightarrow> 'v resources \<Rightarrow> bool" for d where
  start: "resource_run d {#} resources_none"
| new: "resource_run d m s \<Longrightarrow> resource_run d (add_mset v m) (resource_new v s)"
| move_new: "resource_run d m s \<Longrightarrow> living s b \<Longrightarrow> resource_run d (add_mset d m) (resource_move_new d b s)"
| move_assign: "resource_run d m s \<Longrightarrow> living s a \<Longrightarrow> living s b
    \<Longrightarrow> resource_run d m (resource_move_assign a b s)"
| destroy: "resource_run d m s \<Longrightarrow> living s a \<Longrightarrow> resource_run d m (resource_destroy a s)"

definition slot_mset :: "'v option \<Rightarrow> 'v multiset" where
  "slot_mset x = (case x of None \<Rightarrow> {#} | Some v \<Rightarrow> {#v#})"

definition held :: "'v resources \<Rightarrow> 'v multiset" where
  "held s = sum_list (map slot_mset (rs_slots s))"

lemma held_update [simp]:
  "held (s\<lparr>rs_slots := xs\<rparr>) = sum_list (map slot_mset xs)"
  "held (s\<lparr>rs_slots := xs, rs_deleted := ds\<rparr>) = sum_list (map slot_mset xs)"
  by (simp_all add: held_def)

lemma deleted_new [simp]: "rs_deleted (resource_new v s) = rs_deleted s"
  by (simp add: resource_new_def)

lemma sum_slots_update:
  "i < length xs \<Longrightarrow>
     sum_list (map slot_mset (xs[i := x])) + slot_mset (xs ! i) = sum_list (map slot_mset xs) + slot_mset x"
proof (induction xs arbitrary: i)
  case (Cons y ys)
  show ?case
  proof (cases i)
    case (Suc j)
    with Cons show ?thesis by (simp add: add.assoc)
  qed (simp add: ac_simps)
qed simp

lemma held_swap:
  assumes "a < length (rs_slots s)" and "b < length (rs_slots s)"
  shows "held (resource_move_assign a b s) = held s"
proof -
  let ?xs = "rs_slots s"
  let ?ys = "?xs[a := ?xs ! b]"
  have 1: "sum_list (map slot_mset ?ys) + slot_mset (?xs ! a) = held s + slot_mset (?xs ! b)"
    using sum_slots_update [OF assms(1), of "?xs ! b"] by (simp add: held_def)
  have "?ys ! b = ?xs ! b" using assms by (cases "a = b") auto
  then have 2: "sum_list (map slot_mset (?ys[b := ?xs ! a])) + slot_mset (?xs ! b) =
      sum_list (map slot_mset ?ys) + slot_mset (?xs ! a)"
    using sum_slots_update [of b ?ys "?xs ! a"] assms by simp
  from 1 2 have "sum_list (map slot_mset (?ys[b := ?xs ! a])) + slot_mset (?xs ! b) =
      held s + slot_mset (?xs ! b)" by simp
  then show ?thesis by (simp add: resource_move_assign_def)
qed

lemma held_new: "held (resource_new v s) = add_mset v (held s)"
  by (simp add: held_def resource_new_def slot_mset_def)

lemma held_destroy:
  assumes "living s a"
  shows "held (resource_destroy a s) + mset (rs_deleted (resource_destroy a s)) =
    held s + mset (rs_deleted s)"
proof -
  obtain v where v: "rs_slots s ! a = Some v" using assms by (auto simp: living_def)
  have "sum_list (map slot_mset ((rs_slots s)[a := None])) + {#v#} = held s"
    using sum_slots_update [of a "rs_slots s" None] assms v
    by (simp add: living_def held_def slot_mset_def)
  then show ?thesis by (simp add: resource_destroy_def v)
qed

text \<open>C39: Every value given to a resource is deleted exactly once: whatever is moved between objects,
  the values still held and the values deleted together are the values constructed and one default
  per move construction. When all objects are gone, exactly those were deleted.\<close>

theorem resources_delete_each_value_once:
  assumes "resource_run d m s"
  shows "held s + mset (rs_deleted s) = m \<and> ((\<forall>a. \<not> living s a) \<longrightarrow> mset (rs_deleted s) = m)"
proof -
  from assms have *: "held s + mset (rs_deleted s) = m"
  proof induction
    case start
    show ?case by (simp add: held_def resources_none_def)
  next
    case (new m s v)
    then show ?case by (simp add: held_new)
  next
    case (move_new m s b)
    have "held (resource_move_new d b s) = add_mset d (held s)"
      using move_new.hyps held_swap [of "length (rs_slots s)" "resource_new d s" b]
      by (simp add: resource_move_new_def held_new living_def) (simp add: resource_new_def)
    moreover have "rs_deleted (resource_move_new d b s) = rs_deleted s"
      by (simp add: resource_move_new_def resource_move_assign_def)
    ultimately show ?case using move_new.IH by simp
  next
    case (move_assign m s a b)
    then have "held (resource_move_assign a b s) = held s" by (auto simp: living_def intro: held_swap)
    with move_assign.IH show ?case by (simp add: resource_move_assign_def)
  next
    case (destroy m s a)
    then show ?case using held_destroy by auto
  qed
  have "held s = {#}" if "\<forall>a. \<not> living s a"
  proof -
    have "\<forall>x \<in> set (rs_slots s). slot_mset x = {#}"
      using that by (auto simp: living_def slot_mset_def in_set_conv_nth split: option.split)
    then show ?thesis unfolding held_def by (induction rule: list.induct [of _ "rs_slots s"]) auto
  qed
  with * show ?thesis by auto
qed

definition demo_resources :: "nat resources" where
  "demo_resources = resource_destroy 1 (resource_destroy 0 (resource_move_new 0 0 (resource_new 7 resources_none)))"

theorem resources_delete_each_value_once_witness:
  "mset (rs_deleted demo_resources) = {#0, 7#} \<and> resource_run 0 {#0, 7#} demo_resources"
proof -
  note defs = resource_new_def resources_none_def resource_move_new_def resource_move_assign_def
    resource_destroy_def living_def
  have "resource_run 0 {#7#} (resource_new (7 :: nat) resources_none)"
    by (rule resource_run.new [OF resource_run.start])
  then have "resource_run 0 {#0, 7#} (resource_move_new 0 0 (resource_new (7 :: nat) resources_none))"
    by (rule resource_run.move_new) (simp add: defs)
  then have "resource_run 0 {#0, 7#}
      (resource_destroy 0 (resource_move_new 0 0 (resource_new (7 :: nat) resources_none)))"
    by (rule resource_run.destroy) (simp add: defs)
  then have run: "resource_run 0 {#0, 7#} demo_resources"
    unfolding demo_resources_def by (rule resource_run.destroy) (simp add: defs)
  have "\<forall>a. \<not> living demo_resources a"
    by (auto simp: demo_resources_def defs nth_list_update nth_Cons split: nat.splits)
  with resources_delete_each_value_once [OF run] run show ?thesis by blast
qed

end
