(* ===== verification/Core_Contract.thy ===== *)
theory Core_Contract
  imports Core_Result
begin

text \<open>
  libs/core: Contract.hpp and Contract.cpp. A behavior is called with the failed expression; it
  changes the state (the lines written to std::cerr, and whatever else it reaches) and then
  returns, terminates the program or throws. \<open>show_line\<close> is how std::format writes the line number.
\<close>

record contract_expression =
  ce_value :: string
  ce_file :: string
  ce_line :: int

datatype contract_end = Returns | TerminatesProgram | ThrowsLogicError string

type_synonym 's behavior = "contract_expression \<Rightarrow> string list \<times> 's \<Rightarrow> (string list \<times> 's) \<times> contract_end"

definition contract_to_string :: "(int \<Rightarrow> string) \<Rightarrow> contract_expression \<Rightarrow> string" where
  "contract_to_string show_line e =
     ''Condition '' @ CHR 0x27 # ce_value e @ CHR 0x27 # '' failed in '' @ ce_file e @ '', line '' @ show_line (ce_line e)"

definition print_failed_expression ::
  "(int \<Rightarrow> string) \<Rightarrow> contract_expression \<Rightarrow> string list \<times> 's \<Rightarrow> string list \<times> 's" where
  "print_failed_expression show_line e s = (fst s @ [contract_to_string show_line e], snd s)"

definition contract_terminate :: "(int \<Rightarrow> string) \<Rightarrow> 's behavior" where
  "contract_terminate show_line e s = (print_failed_expression show_line e s, TerminatesProgram)"

definition throw_logic_error :: "(int \<Rightarrow> string) \<Rightarrow> 's behavior" where
  "throw_logic_error show_line e s =
     (print_failed_expression show_line e s, ThrowsLogicError (contract_to_string show_line e))"

definition print_error :: "(int \<Rightarrow> string) \<Rightarrow> 's behavior" where
  "print_error show_line e s = (print_failed_expression show_line e s, Returns)"

text \<open>The fold over the comma: the next behavior is called when the one before returned.\<close>

fun run_behaviors :: "contract_expression \<Rightarrow> 's behavior list \<Rightarrow> string list \<times> 's \<Rightarrow> (string list \<times> 's) \<times> contract_end" where
  "run_behaviors e [] s = (s, Returns)"
| "run_behaviors e (b # bs) s =
     (case b e s of (s', Returns) \<Rightarrow> run_behaviors e bs s' | (s', stop) \<Rightarrow> (s', stop))"

definition contract_check ::
  "bool \<Rightarrow> contract_expression \<Rightarrow> 's behavior list \<Rightarrow> string list \<times> 's \<Rightarrow> (string list \<times> 's) \<times> contract_end" where
  "contract_check condition e bs s = (if condition then (s, Returns) else run_behaviors e bs s)"

text \<open>EZ_ASSERT, with and without NDEBUG; with it, the condition is not even evaluated.\<close>

definition ez_assert ::
  "bool \<Rightarrow> (int \<Rightarrow> string) \<Rightarrow> contract_expression \<Rightarrow> (string list \<times> 's \<Rightarrow> bool \<times> string list \<times> 's)
     \<Rightarrow> string list \<times> 's \<Rightarrow> (string list \<times> 's) \<times> contract_end" where
  "ez_assert ndebug show_line e condition s =
     (if ndebug then (s, Returns)
      else (case condition s of
              (c, s') \<Rightarrow> contract_check c e [print_error show_line, contract_terminate show_line] s'))"

section \<open>The order of behaviors\<close>

lemma run_behaviors_append:
  "run_behaviors e (bs @ cs) s =
     (case run_behaviors e bs s of (s', Returns) \<Rightarrow> run_behaviors e cs s' | (s', stop) \<Rightarrow> (s', stop))"
  by (induction bs arbitrary: s) (auto split: prod.split contract_end.split)

text \<open>A check whose condition holds does nothing. Otherwise the behaviors run from left to right,
  and the first that terminates or throws is the last that runs: the check ends as it does, in the
  state it left, whatever comes after it. A failed EZ_ASSERT therefore prints its message twice and
  terminates; under NDEBUG it neither evaluates its condition nor does anything.\<close>

theorem contract_runs_up_to_the_first_stop:
  assumes "run_behaviors e bs s = (s1, Returns)" and "b e s1 = (s2, stop)" and "stop \<noteq> Returns"
  shows "contract_check False e (bs @ b # cs) s = (s2, stop)
    \<and> contract_check False e bs s = (s1, Returns)
    \<and> contract_check True e (bs @ b # cs) s = (s, Returns)
    \<and> ez_assert True show_line e cond s = (s, Returns)
    \<and> ez_assert False show_line e (Pair False) s =
        ((fst s @ [contract_to_string show_line e, contract_to_string show_line e], snd s), TerminatesProgram)"
proof -
  have "run_behaviors e (bs @ b # cs) s = (s2, stop)"
    using assms by (cases stop) (simp_all add: run_behaviors_append)
  with assms(1) show ?thesis
    by (simp add: contract_check_def ez_assert_def print_error_def contract_terminate_def
        print_failed_expression_def)
qed

definition demo_expression :: contract_expression where
  "demo_expression = \<lparr>ce_value = ''i < n'', ce_file = ''a.cpp'', ce_line = 7\<rparr>"

theorem contract_runs_up_to_the_first_stop_witness:
  "contract_check False demo_expression
     [print_error (\<lambda>_. ''7''), throw_logic_error (\<lambda>_. ''7''), contract_terminate (\<lambda>_. ''7'')] ([], ()) =
   (([''Condition '' @ CHR 0x27 # ''i < n'' @ CHR 0x27 # '' failed in a.cpp, line 7'',
      ''Condition '' @ CHR 0x27 # ''i < n'' @ CHR 0x27 # '' failed in a.cpp, line 7''], ()),
    ThrowsLogicError (''Condition '' @ CHR 0x27 # ''i < n'' @ CHR 0x27 # '' failed in a.cpp, line 7''))"
proof -
  let ?sl = "\<lambda>_. ''7''" and ?m = "contract_to_string (\<lambda>_. ''7'') demo_expression"
  have "run_behaviors demo_expression [print_error ?sl] ([], ()) = (([?m], ()), Returns)"
    by (simp add: print_error_def print_failed_expression_def)
  moreover have "throw_logic_error ?sl demo_expression ([?m], ()) = (([?m, ?m], ()), ThrowsLogicError ?m)"
    by (simp add: throw_logic_error_def print_failed_expression_def)
  moreover have "ThrowsLogicError ?m \<noteq> Returns" by simp
  ultimately show ?thesis
    using contract_runs_up_to_the_first_stop
      [of demo_expression "[print_error ?sl]" "([], ())" _ "throw_logic_error ?sl" _ _ "[contract_terminate ?sl]"]
    by (simp add: contract_to_string_def demo_expression_def)
qed

end
