(* ===== verification/Core_Values.thy ===== *)
theory Core_Values
  imports Core_Result Interfaces
begin

text \<open>
  The value types of libs/core: ValueWrapper and StrongType with the operators of Mixin.hpp,
  Option.hpp, Enum.hpp, Box.hpp, the function references of Functional.hpp, and ScopeGuard.hpp.
  Operators of the wrapped type are arguments; an operator that changes its object returns the
  changed object.
\<close>

section \<open>Strong types\<close>

record 'a strong =
  st_value :: 'a

definition strong :: "'a \<Rightarrow> 'a strong" where
  "strong v = \<lparr>st_value = v\<rparr>"

definition strong_swap :: "'a strong \<Rightarrow> 'a strong \<Rightarrow> 'a strong \<times> 'a strong" where
  "strong_swap a b = (a\<lparr>st_value := st_value b\<rparr>, b\<lparr>st_value := st_value a\<rparr>)"

definition mixin_compound :: "('a \<Rightarrow> 'a \<Rightarrow> 'a) \<Rightarrow> 'a strong \<Rightarrow> 'a strong \<Rightarrow> 'a strong" where
  "mixin_compound opr a b = a\<lparr>st_value := opr (st_value a) (st_value b)\<rparr>"

definition mixin_compound_value :: "('a \<Rightarrow> 'a \<Rightarrow> 'a) \<Rightarrow> 'a strong \<Rightarrow> 'a \<Rightarrow> 'a strong" where
  "mixin_compound_value opr a v = a\<lparr>st_value := opr (st_value a) v\<rparr>"

definition mixin_compound_generic :: "('a \<Rightarrow> 't \<Rightarrow> 'a) \<Rightarrow> 'a strong \<Rightarrow> 't \<Rightarrow> 'a strong" where
  "mixin_compound_generic opr a v = a\<lparr>st_value := opr (st_value a) v\<rparr>"

definition mixin_unary :: "('a \<Rightarrow> 'a) \<Rightarrow> 'a strong \<Rightarrow> 'a strong" where
  "mixin_unary opr a = strong (opr (st_value a))"

definition mixin_binary :: "('a \<Rightarrow> 'a \<Rightarrow> 'a) \<Rightarrow> 'a strong \<Rightarrow> 'a strong \<Rightarrow> 'a strong" where
  "mixin_binary opr a b = strong (opr (st_value a) (st_value b))"

definition mixin_value_binary :: "('a \<Rightarrow> 'a \<Rightarrow> 'a) \<Rightarrow> 'a strong \<Rightarrow> 'a \<Rightarrow> 'a strong" where
  "mixin_value_binary opr a v = strong (opr (st_value a) v)"

text \<open>Increment and decrement: the value of the expression, and the object afterwards.\<close>

definition prefix_step :: "('a \<Rightarrow> 'a) \<Rightarrow> 'a strong \<Rightarrow> 'a strong \<times> 'a strong" where
  "prefix_step step a = (let a' = a\<lparr>st_value := step (st_value a)\<rparr> in (a', a'))"

definition postfix_step :: "('a \<Rightarrow> 'a) \<Rightarrow> 'a strong \<Rightarrow> 'a strong \<times> 'a strong" where
  "postfix_step step a = (let tmp = a; (_, a') = prefix_step step a in (tmp, a'))"

definition strong_eq :: "'a strong \<Rightarrow> 'a strong \<Rightarrow> bool" where
  "strong_eq a b \<longleftrightarrow> st_value a = st_value b"

definition strong_neq :: "'a strong \<Rightarrow> 'a strong \<Rightarrow> bool" where
  "strong_neq a b \<longleftrightarrow> \<not> strong_eq a b"

definition strong_less :: "('a :: linorder) strong \<Rightarrow> 'a strong \<Rightarrow> bool" where
  "strong_less a b \<longleftrightarrow> st_value a < st_value b"

definition strong_greater :: "('a :: linorder) strong \<Rightarrow> 'a strong \<Rightarrow> bool" where
  "strong_greater a b \<longleftrightarrow> st_value a > st_value b"

definition strong_le :: "('a :: linorder) strong \<Rightarrow> 'a strong \<Rightarrow> bool" where
  "strong_le a b \<longleftrightarrow> st_value a \<le> st_value b"

definition strong_ge :: "('a :: linorder) strong \<Rightarrow> 'a strong \<Rightarrow> bool" where
  "strong_ge a b \<longleftrightarrow> st_value a \<ge> st_value b"

interpretation strong: ordered_upto strong_eq "strong_less :: ('a :: linorder) strong \<Rightarrow> _"
  by unfold_locales (auto simp: strong_eq_def strong_less_def)

text \<open>The six comparisons agree with each other.\<close>

lemma strong_comparisons:
  "strong_greater a b = strong_less b a" "strong_le a b = (\<not> strong_less b a)"
  "strong_ge a b = (\<not> strong_less a b)" "strong_neq a b = (strong_less a b \<or> strong_less b a)"
  by (auto simp: strong_greater_def strong_le_def strong_ge_def strong_neq_def strong_eq_def strong_less_def)

text \<open>A compound operator leaves what the binary operator returns.\<close>

lemma mixin_compound_binary:
  "mixin_compound opr a b = mixin_binary opr a b" "mixin_compound_value opr a v = mixin_value_binary opr a v"
  "mixin_compound_generic opr a v = mixin_value_binary opr a v"
  by (simp_all add: mixin_compound_def mixin_binary_def mixin_compound_value_def mixin_value_binary_def
      mixin_compound_generic_def strong_def)

section \<open>Option, Enum, Box\<close>

definition option_none :: "'a option" where
  "option_none = None"

definition option_or :: "'a option \<Rightarrow> 'a \<Rightarrow> 'a" where
  "option_or x v = (case x of Some y \<Rightarrow> y | None \<Rightarrow> v)"

text \<open>An Enum is the index of its alternative and a value; alternatives are distinct types.\<close>

record 'v enum =
  en_index :: nat
  en_value :: 'v

definition enum_is :: "nat \<Rightarrow> 'v enum \<Rightarrow> bool" where
  "enum_is i e \<longleftrightarrow> en_index e = i"

definition enum_as :: "nat \<Rightarrow> 'v enum \<Rightarrow> 'e thrown + 'v" where
  "enum_as i e = (if en_index e = i then Inr (en_value e) else Inl BadVariantAccess)"

text \<open>The overload set has one handler for each alternative, which the compiler has chosen.\<close>

definition apply_visitor :: "(nat \<Rightarrow> 'v \<Rightarrow> 'r) \<Rightarrow> 'v enum \<Rightarrow> 'r" where
  "apply_visitor visitor e = visitor (en_index e) (en_value e)"

definition enum_match :: "(nat \<Rightarrow> 'v \<Rightarrow> 'r) \<Rightarrow> 'v enum \<Rightarrow> 'r" where
  "enum_match visitors e = apply_visitor visitors e"

lemma enum_match_chooses:
  "enum_is i e \<Longrightarrow> enum_match (\<lambda>j. if j = i then f else g j) e = f (en_value e)"
  by (simp add: enum_match_def apply_visitor_def enum_is_def)

lemma enum_as_iff: "enum_is i e \<longleftrightarrow> (\<exists>v. enum_as i e = Inr v)"
  by (simp add: enum_is_def enum_as_def)

text \<open>A Box owns a value on the heap; moving leaves a null pointer behind.\<close>

type_synonym 'v box = "'v option"

definition box_new :: "'v \<Rightarrow> 'v box" where
  "box_new v = Some v"

definition box_move :: "'v box \<Rightarrow> 'v box \<times> 'v box" where
  "box_move b = (b, None)"

definition box_move_assign :: "'v box \<Rightarrow> 'v box \<Rightarrow> 'v box \<times> 'v box" where
  "box_move_assign a b = (b, None)"

definition box_value :: "'v box \<Rightarrow> abort + 'v" where
  "box_value b = (case b of None \<Rightarrow> Inl UndefinedBehaviour | Some v \<Rightarrow> Inr v)"

lemma moved_box_is_unusable:
  "box_move (box_new v) = (b, left) \<Longrightarrow> box_value b = Inr v \<and> box_value left = Inl UndefinedBehaviour"
  by (auto simp: box_move_def box_new_def box_value_def)

section \<open>Function references\<close>

text \<open>A FunctionView refers to a callable object; \<open>living\<close> gives the callables that still exist, and
  what a call of them does to the state.\<close>

type_synonym function_view = "nat option"

definition function_view_of :: "nat \<Rightarrow> function_view" where
  "function_view_of callable = Some callable"

definition function_view_null :: function_view where
  "function_view_null = None"

definition function_view_bool :: "function_view \<Rightarrow> bool" where
  "function_view_bool f \<longleftrightarrow> f \<noteq> None"

definition function_view_call ::
  "(nat \<rightharpoonup> ('p \<Rightarrow> 's \<Rightarrow> 'r \<times> 's)) \<Rightarrow> function_view \<Rightarrow> 'p \<Rightarrow> 's \<Rightarrow> abort + 'r \<times> 's" where
  "function_view_call callables f p s =
     (case f of None \<Rightarrow> Inl UndefinedBehaviour
      | Some a \<Rightarrow> (case callables a of None \<Rightarrow> Inl UndefinedBehaviour | Some g \<Rightarrow> Inr (g p s)))"

definition free_function_bool :: "('p \<Rightarrow> 'r) option \<Rightarrow> bool" where
  "free_function_bool f \<longleftrightarrow> f \<noteq> None"

definition free_function_call :: "('p \<Rightarrow> 'r) option \<Rightarrow> 'p \<Rightarrow> abort + 'r" where
  "free_function_call f p = (case f of None \<Rightarrow> Inl UndefinedBehaviour | Some g \<Rightarrow> Inr (g p))"

text \<open>The test of a view does not tell whether its callable still exists.\<close>

lemma function_view_call_defined:
  "(\<exists>r. function_view_call callables f p s = Inr r) \<longleftrightarrow>
     function_view_bool f \<and> (\<forall>a. f = Some a \<longrightarrow> a \<in> dom callables)"
  by (auto simp: function_view_call_def function_view_bool_def split: option.split)

section \<open>Scope guards\<close>

text \<open>The items of a scope: statements, which may throw (True), and EZ_ON_SCOPE_EXIT with a
  function that does not. A guard's function runs when the scope is left behind it.\<close>

datatype 's scope_item = ScopeStatement "'s \<Rightarrow> bool \<times> 's" | OnScopeExit "'s \<Rightarrow> 's"

fun run_scope :: "'s scope_item list \<Rightarrow> 's \<Rightarrow> bool \<times> 's" where
  "run_scope [] s = (False, s)"
| "run_scope (ScopeStatement f # rest) s =
     (case f s of (threw, s') \<Rightarrow> if threw then (True, s') else run_scope rest s')"
| "run_scope (OnScopeExit g # rest) s = (case run_scope rest s of (threw, s') \<Rightarrow> (threw, g s'))"

text \<open>The same without guards: what runs up to the end or an exception, and the guards met on the way.\<close>

fun run_unguarded :: "'s scope_item list \<Rightarrow> 's \<Rightarrow> (bool \<times> 's) \<times> ('s \<Rightarrow> 's) list" where
  "run_unguarded [] s = ((False, s), [])"
| "run_unguarded (ScopeStatement f # rest) s =
     (case f s of (threw, s') \<Rightarrow> if threw then ((True, s'), []) else run_unguarded rest s')"
| "run_unguarded (OnScopeExit g # rest) s = apsnd ((#) g) (run_unguarded rest s)"

text \<open>Whether a scope ends normally or by an exception, every scope guard it has met runs exactly
  once, after everything else and in the reverse order of the guards; guards behind the exception
  do not run, and the exception goes on.\<close>

theorem scope_guards_run_in_reverse:
  "run_scope items s =
     (case run_unguarded items s of ((threw, s'), guards) \<Rightarrow> (threw, fold (\<lambda>g. g) (rev guards) s'))"
  by (induction items s rule: run_scope.induct) (auto split: prod.split)

end
