(* ===== verification/Core_Tuple.thy ===== *)
theory Core_Tuple
  imports Prelude
begin

text \<open>
  libs/core: for_constexpr (Utils.hpp), Tuple.hpp and the type lists of TypeUtils.hpp. A tuple is
  the list of its elements, a type list the list of its types; what the compiler rejects (a failed
  static_assert, an index out of range, no matching overload) is None. Functions that are called
  with elements have a state, so that the order of the calls is visible.
\<close>

section \<open>for_constexpr\<close>

function for_constexpr :: "nat \<Rightarrow> nat \<Rightarrow> (nat \<Rightarrow> 's \<Rightarrow> 's) \<Rightarrow> 's \<Rightarrow> 's option" where
  "for_constexpr begin_index end_index f s =
     (if \<not> begin_index \<le> end_index then None
      else if begin_index < end_index then for_constexpr (begin_index + 1) end_index f (f begin_index s)
      else Some s)"
  by pat_completeness auto
termination by (relation "measure (\<lambda>(b, e, _). e - b)") auto

declare for_constexpr.simps [simp del]

lemma for_constexpr_fold: "b \<le> e \<Longrightarrow> for_constexpr b e f s = Some (fold f [b..<e] s)"
  by (induction b e f s rule: for_constexpr.induct)
    (subst for_constexpr.simps, auto simp: upt_conv_Cons not_less_eq_eq Suc_le_eq)

lemma for_constexpr_rejected: "e < b \<Longrightarrow> for_constexpr b e f s = None"
  by (subst for_constexpr.simps) simp

section \<open>Tuples\<close>

definition tuple_size :: "'a list \<Rightarrow> nat" where
  "tuple_size t = length t"

definition tuple_at :: "'a list \<Rightarrow> nat \<Rightarrow> 'a option" where
  "tuple_at t i = (if i < length t then Some (t ! i) else None)"

text \<open>for_each of a tuple that is not const: the function may change the element.\<close>

definition tuple_for_each :: "('a \<Rightarrow> 's \<Rightarrow> 'a \<times> 's) \<Rightarrow> 'a list \<Rightarrow> 's \<Rightarrow> ('a list \<times> 's) option" where
  "tuple_for_each f t s =
     for_constexpr 0 (tuple_size t)
       (\<lambda>i (u, s). case f (u ! i) s of (x, s') \<Rightarrow> (u[i := x], s')) (t, s)"

definition tuple_for_each_const :: "('a \<Rightarrow> 's \<Rightarrow> 's) \<Rightarrow> 'a list \<Rightarrow> 's \<Rightarrow> 's option" where
  "tuple_for_each_const f t s = for_constexpr 0 (tuple_size t) (\<lambda>i. f (t ! i)) s"

text \<open>transformed calls the function once per index, as the arguments of make_tuple; the language
  leaves the order of these calls open, so it is an argument.\<close>

fun call_arguments :: "nat list \<Rightarrow> (nat \<Rightarrow> 's \<Rightarrow> 'b \<times> 's) \<Rightarrow> (nat \<rightharpoonup> 'b) \<Rightarrow> 's \<Rightarrow> (nat \<rightharpoonup> 'b) \<times> 's" where
  "call_arguments [] g m s = (m, s)"
| "call_arguments (i # is') g m s = (case g i s of (v, s') \<Rightarrow> call_arguments is' g (m(i \<mapsto> v)) s')"

definition transform_impl :: "nat list \<Rightarrow> ('a \<Rightarrow> 's \<Rightarrow> 'b \<times> 's) \<Rightarrow> 'a list \<Rightarrow> 's \<Rightarrow> 'b list \<times> 's" where
  "transform_impl order f t s =
     (case call_arguments order (\<lambda>i. f (t ! i)) Map.empty s of
        (m, s') \<Rightarrow> (map (\<lambda>i. the (m i)) [0..<tuple_size t], s'))"

definition evaluation_order :: "nat list \<Rightarrow> 'a list \<Rightarrow> bool" where
  "evaluation_order order t \<longleftrightarrow> distinct order \<and> set order = {..<length t}"

text \<open>The reference: one call per element, from the first to the last.\<close>

fun visit_elements :: "('a \<Rightarrow> 's \<Rightarrow> 'a \<times> 's) \<Rightarrow> 'a list \<Rightarrow> 's \<Rightarrow> 'a list \<times> 's" where
  "visit_elements f [] s = ([], s)"
| "visit_elements f (x # xs) s =
     (case f x s of (y, s') \<Rightarrow> case visit_elements f xs s' of (ys, s'') \<Rightarrow> (y # ys, s''))"

lemma fold_on_suffix:
  "fold (\<lambda>i (u, s). case f (u ! i) s of (x, s') \<Rightarrow> (u[i := x], s')) [length us..<length us + length t] (us @ t, s) =
   (case visit_elements f t s of (t', s') \<Rightarrow> (us @ t', s'))"
proof (induction t arbitrary: us s)
  case Nil
  then show ?case by simp
next
  case (Cons x t)
  obtain y s' where y: "f x s = (y, s')" by fastforce
  have ix: "[length us..<length us + length (x # t)] =
      length us # [length (us @ [y])..<length (us @ [y]) + length t]"
    by (subst upt_conv_Cons) simp_all
  show ?case
    unfolding ix using Cons [of "us @ [y]" s'] by (simp add: y split: prod.splits)
qed

lemma call_arguments_pure:
  "distinct order \<Longrightarrow>
     call_arguments order (\<lambda>i s. (g i, h i s)) m s =
       (\<lambda>i. if i \<in> set order then Some (g i) else m i, fold h order s)"
  by (induction order arbitrary: m s) (auto simp: fun_eq_iff)

text \<open>for_each calls its function once per element, from the first to the last, and leaves each
  changed element in its place. transformed makes the same calls in an order that the language
  leaves open: when the result does not depend on the state, the new tuple is the same for every
  order, and only the state afterwards tells the orders apart. The compile-time loop they share is
  the loop over the half-open range, and is rejected when the range is reversed.\<close>

theorem tuple_visits_every_element:
  assumes "evaluation_order order t"
  shows "tuple_for_each f t s = Some (visit_elements f t s)
    \<and> tuple_for_each_const h t s = Some (fold h t s)
    \<and> transform_impl order (\<lambda>x s. (g x, h x s)) t s = (map g t, fold (\<lambda>i. h (t ! i)) order s)
    \<and> for_constexpr b e k s = (if b \<le> e then Some (fold k [b..<e] s) else None)"
proof -
  have "tuple_for_each f t s = Some (visit_elements f t s)"
    using fold_on_suffix [of f "[]" t s]
    by (simp add: tuple_for_each_def tuple_size_def for_constexpr_fold)
  moreover have "fold (\<lambda>i. h (t ! i)) [0..<length t] s = fold h t s"
    using fold_map [of h "(!) t" "[0..<length t]"] by (simp add: map_nth comp_def)
  then have "tuple_for_each_const h t s = Some (fold h t s)"
    by (simp add: tuple_for_each_const_def tuple_size_def for_constexpr_fold)
  moreover have "map g t = map (\<lambda>i. g (t ! i)) [0..<length t]"
    by (rule nth_equalityI) simp_all
  then have "transform_impl order (\<lambda>x s. (g x, h x s)) t s = (map g t, fold (\<lambda>i. h (t ! i)) order s)"
    using assms by (auto simp: transform_impl_def evaluation_order_def call_arguments_pure tuple_size_def)
  ultimately show ?thesis by (simp add: for_constexpr_fold for_constexpr_rejected)
qed

theorem tuple_visits_every_element_witness:
  "transform_impl [2, 0, 1] (\<lambda>x s. (x * x, x # s)) [3, 4, 5 :: nat] [] = ([9, 16, 25], [4, 3, 5])"
proof -
  have "evaluation_order [2, 0, 1] [3, 4, 5 :: nat]" by (auto simp: evaluation_order_def)
  from tuple_visits_every_element [OF this, of "\<lambda>x s. (x, s)" "[] :: nat list" "(#)" "\<lambda>x. x * x" 0 0 "\<lambda>_ s. s"]
  show ?thesis by simp
qed

section \<open>Type lists\<close>

definition type_list_contains :: "'ty list \<Rightarrow> 'ty \<Rightarrow> bool" where
  "type_list_contains ts t \<longleftrightarrow> foldr (\<lambda>u r. t = u \<or> r) ts False"

definition type_list_at :: "'ty list \<Rightarrow> nat \<Rightarrow> 'ty option" where
  "type_list_at ts i = (if i < length ts then Some (ts ! i) else None)"

definition type_prepend :: "'ty \<Rightarrow> 'ty list \<Rightarrow> 'ty list" where
  "type_prepend t us = t # us"

definition type_list_append :: "'ty list \<Rightarrow> 'ty list \<Rightarrow> 'ty list" where
  "type_list_append ts us = ts @ us"

fun type_list_for_each :: "('ty \<Rightarrow> 's \<Rightarrow> 's) \<Rightarrow> 'ty list \<Rightarrow> 's \<Rightarrow> 's" where
  "type_list_for_each f [] s = s"
| "type_list_for_each f (t # ts) s = type_list_for_each f ts (f t s)"

fun remove_duplicates :: "'ty list \<Rightarrow> 'ty list option" where
  "remove_duplicates [] = None"
| "remove_duplicates [t] = Some [t]"
| "remove_duplicates (t # u # ts) =
     (if type_list_contains (u # ts) t then remove_duplicates (u # ts)
      else map_option (type_prepend t) (remove_duplicates (u # ts)))"

fun front_type :: "'ty list \<Rightarrow> 'ty option" where
  "front_type [] = None"
| "front_type (t # ts) = Some t"

lemma type_list_contains_iff: "type_list_contains ts t \<longleftrightarrow> t \<in> set ts"
  unfolding type_list_contains_def by (induction ts) auto

lemma remove_duplicates_remdups: "ts \<noteq> [] \<Longrightarrow> remove_duplicates ts = Some (remdups ts)"
  by (induction ts rule: remove_duplicates.induct) (auto simp: type_list_contains_iff type_prepend_def)

text \<open>remove_duplicates of a type list, which when_any builds its result type with, is the usual
  removal of duplicates that keeps last occurrences: the result has the same types, each once, and
  removing again changes nothing. It is only defined for lists that are not empty.\<close>

theorem remove_duplicates_is_remdups:
  "case remove_duplicates ts of
      None \<Rightarrow> ts = []
    | Some us \<Rightarrow> us = remdups ts \<and> distinct us \<and> set us = set ts \<and> remove_duplicates us = Some us
        \<and> (\<forall>t. type_list_contains us t = type_list_contains ts t)"
proof (cases "ts = []")
  case False
  then have "remdups ts \<noteq> []" by (simp add: remdups_eq_nil_iff)
  with False show ?thesis by (simp add: remove_duplicates_remdups type_list_contains_iff distinct_remdups_id)
qed simp

end
