(* ===== verification/Algo_Ranges.thy ===== *)
theory Algo_Ranges
  imports Prelude
begin

text \<open>
  src/apps/algo/main.cpp: intersecting two lists of closed integer ranges. std::ranges::equal_range
  is the half-open interval between its two partition points, which is what it returns on a list
  that is partitioned by the comparison. The integers are only compared, never computed with.
\<close>

section \<open>Ranges\<close>

record range =
  rg_begin :: int
  rg_end :: int

definition contains :: "range \<Rightarrow> int \<Rightarrow> bool" where
  "contains r val \<longleftrightarrow> rg_begin r \<le> val \<and> val \<le> rg_end r"

definition has_overlap :: "range \<Rightarrow> range \<Rightarrow> bool" where
  "has_overlap lhs rhs \<longleftrightarrow> contains lhs (rg_begin rhs) \<or> contains lhs (rg_end rhs)
     \<or> contains rhs (rg_begin lhs) \<or> contains rhs (rg_end lhs)"

definition get_overlap :: "range \<Rightarrow> range \<Rightarrow> range option" where
  "get_overlap lhs rhs =
     (if \<not> has_overlap lhs rhs then None
      else Some \<lparr>rg_begin = max (rg_begin lhs) (rg_begin rhs), rg_end = min (rg_end lhs) (rg_end rhs)\<rparr>)"

text \<open>The comparison of merge, and equal_range with it.\<close>

definition before :: "range \<Rightarrow> range \<Rightarrow> bool" where
  "before lhs rhs \<longleftrightarrow> rg_end lhs < rg_begin rhs"

definition equal_range :: "range list \<Rightarrow> range \<Rightarrow> range list" where
  "equal_range rs r = takeWhile (\<lambda>x. \<not> before r x) (dropWhile (\<lambda>x. before x r) rs)"

text \<open>value() of an empty optional throws bad_optional_access: None.\<close>

fun overlaps :: "range \<Rightarrow> range list \<Rightarrow> range list option" where
  "overlaps r [] = Some []"
| "overlaps r (x # xs) = (case get_overlap r x of
     None \<Rightarrow> None
   | Some y \<Rightarrow> map_option (Cons y) (overlaps r xs))"

fun merge :: "range list \<Rightarrow> range list \<Rightarrow> range list option" where
  "merge [] rngs2 = Some []"
| "merge (r # rngs1) rngs2 = (case overlaps r (equal_range rngs2 r) of
     None \<Rightarrow> None
   | Some xs \<Rightarrow> map_option ((@) xs) (merge rngs1 rngs2))"

section \<open>Sets of integers\<close>

definition members :: "range list \<Rightarrow> int set" where
  "members rs = (\<Union>r \<in> set rs. {rg_begin r..rg_end r})"

definition proper :: "range \<Rightarrow> bool" where
  "proper r \<longleftrightarrow> rg_begin r \<le> rg_end r"

text \<open>Proper ranges in ascending order without overlaps.\<close>

definition ascending :: "range list \<Rightarrow> bool" where
  "ascending rs \<longleftrightarrow> sorted_wrt before rs \<and> (\<forall>r \<in> set rs. proper r)"

lemma has_overlap_iff:
  "proper r \<Longrightarrow> proper x \<Longrightarrow> has_overlap r x \<longleftrightarrow> \<not> before r x \<and> \<not> before x r"
  by (auto simp: has_overlap_def contains_def before_def proper_def)

lemma overlap_members:
  "get_overlap r x = Some y \<Longrightarrow> {rg_begin y..rg_end y} = {rg_begin r..rg_end r} \<inter> {rg_begin x..rg_end x}"
  by (auto simp: get_overlap_def split: if_splits)

lemma overlap_proper:
  "proper r \<Longrightarrow> proper x \<Longrightarrow> get_overlap r x = Some y \<Longrightarrow> proper y"
  by (auto simp: get_overlap_def has_overlap_def contains_def proper_def split: if_splits)

lemma before_trans: "before x y \<Longrightarrow> proper y \<Longrightarrow> before y z \<Longrightarrow> before x z"
  by (simp add: before_def proper_def)

lemma equal_range_overlapping:
  assumes "ascending rs" and "proper r" and "x \<in> set (equal_range rs r)"
  shows "x \<in> set rs \<and> has_overlap r x"
proof -
  let ?d = "dropWhile (\<lambda>x. before x r) rs"
  have x: "x \<in> set ?d" "\<not> before r x"
    using assms(3) by (auto simp: equal_range_def dest: set_takeWhileD)
  then have xr: "x \<in> set rs" by (rule_tac set_dropWhileD)
  have asc: "sorted_wrt before ?d" "\<forall>y \<in> set ?d. proper y"
    using assms(1) by (auto simp: ascending_def sorted_wrt_dropWhile dest: set_dropWhileD)
  have "\<not> before x r"
  proof
    assume b: "before x r"
    obtain y ys where d: "?d = y # ys" using x(1) by (cases ?d) auto
    then have y: "\<not> before y r" using hd_dropWhile [of "\<lambda>x. before x r" rs] by auto
    then have "x \<in> set ys" using x(1) d b by auto
    then have "before y x" using asc(1) d by simp
    then have "before y r" using before_trans [of y x r] asc(2) x(1) b by blast
    with y show False by blast
  qed
  then show ?thesis using x(2) xr assms(1,2) by (simp add: has_overlap_iff ascending_def)
qed

lemma equal_range_complete:
  assumes "ascending rs" and "proper r" and "x \<in> set rs" and "has_overlap r x"
  shows "x \<in> set (equal_range rs r)"
proof -
  let ?d = "dropWhile (\<lambda>x. before x r) rs"
  have x: "\<not> before r x" "\<not> before x r" "proper x"
    using assms by (auto simp: has_overlap_iff ascending_def)
  have "x \<notin> set (takeWhile (\<lambda>x. before x r) rs)" using x(2) by (auto dest: set_takeWhileD)
  then have d: "x \<in> set ?d" using assms(3) by (metis Un_iff set_append takeWhile_dropWhile_id)
  have asc: "sorted_wrt before ?d" "\<forall>y \<in> set ?d. proper y"
    using assms(1) by (auto simp: ascending_def sorted_wrt_dropWhile dest: set_dropWhileD)
  let ?u = "dropWhile (\<lambda>x. \<not> before r x) ?d"
  have "x \<notin> set ?u"
  proof
    assume u: "x \<in> set ?u"
    then obtain y ys where y: "?u = y # ys" by (cases ?u) auto
    then have b: "before r y" using hd_dropWhile [of "\<lambda>x. \<not> before r x" ?d] by auto
    then have "x \<in> set ys" using u y x(1) by auto
    moreover have "sorted_wrt before ?u" using asc(1) by (rule sorted_wrt_dropWhile)
    ultimately have "before y x" using y by simp
    moreover have "proper y" using asc(2) y by (metis list.set_intros(1) set_dropWhileD)
    ultimately show False using before_trans [OF b] x(1) by blast
  qed
  then show ?thesis using d unfolding equal_range_def by (metis Un_iff set_append takeWhile_dropWhile_id)
qed

lemma members_simps [simp]:
  "members [] = {}" "members (r # rs) = {rg_begin r..rg_end r} \<union> members rs"
  "members (xs @ ys) = members xs \<union> members ys"
  by (simp_all add: members_def)

lemma overlaps_total:
  "\<forall>x \<in> set xs. has_overlap r x \<Longrightarrow> \<exists>ys. overlaps r xs = Some ys
    \<and> members ys = {rg_begin r..rg_end r} \<inter> members xs
    \<and> (proper r \<and> (\<forall>x \<in> set xs. proper x) \<longrightarrow> (\<forall>y \<in> set ys. proper y))"
proof (induction xs)
  case (Cons x xs)
  then obtain ys where ys: "overlaps r xs = Some ys" "members ys = {rg_begin r..rg_end r} \<inter> members xs"
    "proper r \<and> (\<forall>x \<in> set xs. proper x) \<longrightarrow> (\<forall>y \<in> set ys. proper y)" by auto
  obtain y where y: "get_overlap r x = Some y" using Cons.prems by (simp add: get_overlap_def)
  have "members (y # ys) = {rg_begin r..rg_end r} \<inter> members (x # xs)"
    by (simp only: members_simps overlap_members [OF y] ys(2) Int_Un_distrib)
  moreover have "overlaps r (x # xs) = Some (y # ys)" using y ys(1) by simp
  moreover have "proper r \<and> (\<forall>x \<in> set (x # xs). proper x) \<longrightarrow> (\<forall>z \<in> set (y # ys). proper z)"
  proof (intro impI ballI)
    fix z assume a: "proper r \<and> (\<forall>x \<in> set (x # xs). proper x)" and "z \<in> set (y # ys)"
    then consider "z = y" | "z \<in> set ys" by auto
    then show "proper z"
    proof cases
      case 1
      with a overlap_proper [OF _ _ y] show ?thesis by simp
    next
      case 2
      have "proper r" "\<forall>x \<in> set xs. proper x" using a by simp_all
      with ys(3) 2 show ?thesis by blast
    qed
  qed
  ultimately show ?case by (intro exI [of _ "y # ys"] conjI)
qed simp

lemma equal_range_members:
  assumes "ascending rs" and "proper r"
  shows "{rg_begin r..rg_end r} \<inter> members (equal_range rs r) = {rg_begin r..rg_end r} \<inter> members rs"
proof -
  have "x \<in> set (equal_range rs r)" if "x \<in> set rs" "i \<in> {rg_begin r..rg_end r}" "i \<in> {rg_begin x..rg_end x}" for i x
    using that equal_range_complete [OF assms that(1)] assms
    by (auto simp: has_overlap_iff ascending_def before_def)
  then have "{rg_begin r..rg_end r} \<inter> members rs \<subseteq> members (equal_range rs r)"
    unfolding members_def by blast
  moreover have "members (equal_range rs r) \<subseteq> members rs"
    using equal_range_overlapping [OF assms] unfolding members_def by blast
  ultimately show ?thesis by blast
qed

section \<open>Property\<close>

text \<open>For a list of proper ranges and a second one whose ranges ascend without overlapping,
  merge never reads an empty optional and returns proper ranges that cover exactly the integers
  that both lists cover.\<close>

theorem merge_is_the_intersection:
  assumes "\<forall>r \<in> set rngs1. proper r" and "ascending rngs2"
  shows "\<exists>rs. merge rngs1 rngs2 = Some rs \<and> members rs = members rngs1 \<inter> members rngs2
    \<and> (\<forall>r \<in> set rs. proper r)"
  using assms(1)
proof (induction rngs1)
  case (Cons r rngs1)
  then obtain rs where rs: "merge rngs1 rngs2 = Some rs" "members rs = members rngs1 \<inter> members rngs2"
    "\<forall>r \<in> set rs. proper r" by auto
  have r: "proper r" using Cons.prems by simp
  have over: "\<forall>x \<in> set (equal_range rngs2 r). has_overlap r x" "\<forall>x \<in> set (equal_range rngs2 r). proper x"
    using equal_range_overlapping [OF assms(2) r] assms(2) by (auto simp: ascending_def)
  obtain ys where ys: "overlaps r (equal_range rngs2 r) = Some ys"
    "members ys = {rg_begin r..rg_end r} \<inter> members (equal_range rngs2 r)" "\<forall>y \<in> set ys. proper y"
    using overlaps_total [OF over(1)] over(2) r by auto
  have "members (ys @ rs) = members (r # rngs1) \<inter> members rngs2"
    using ys(2) rs(2) equal_range_members [OF assms(2) r] by (simp add: Int_Un_distrib2)
  moreover have "merge (r # rngs1) rngs2 = Some (ys @ rs)" using ys(1) rs(1) by simp
  ultimately show ?case using ys(3) rs(3) by auto
qed simp

theorem merge_is_the_intersection_witness:
  "\<exists>rs. merge [\<lparr>rg_begin = 1, rg_end = 3\<rparr>, \<lparr>rg_begin = 5, rg_end = 8\<rparr>] [\<lparr>rg_begin = 1, rg_end = 2\<rparr>, \<lparr>rg_begin = 7, rg_end = 8\<rparr>] = Some rs
    \<and> members rs = members [\<lparr>rg_begin = 1, rg_end = 3\<rparr>, \<lparr>rg_begin = 5, rg_end = 8\<rparr>]
        \<inter> members [\<lparr>rg_begin = 1, rg_end = 2\<rparr>, \<lparr>rg_begin = 7, rg_end = 8\<rparr>]"
proof -
  have "\<forall>r \<in> set [\<lparr>rg_begin = 1, rg_end = 3\<rparr>, \<lparr>rg_begin = 5, rg_end = 8\<rparr>]. proper r"
    "ascending [\<lparr>rg_begin = 1, rg_end = 2\<rparr>, \<lparr>rg_begin = 7, rg_end = 8\<rparr>]"
    by (simp_all add: proper_def ascending_def before_def)
  from merge_is_the_intersection [OF this] show ?thesis by blast
qed

end
