(* ===== verification/Spec2Isabelle.thy ===== *)
theory Spec2Isabelle
  imports Report_Props Report_Logging Flow_Props Flow_Delegates Flow_Export Flow_Parser_Props Flow_Run Flow_App
    Async_Props Async_Wait Async_Operation Async_Pool Rpc_Props Core_Cow Core_Atomic Core_Error Core_Resource
    Core_Contract Core_Values Core_Tuple Algo_Ranges
begin

text \<open>
  Verification development of ez-cpp (all paths below are relative to src/src/libs).

  The program. ez-cpp is a collection of C++20 libraries: core (vocabulary types and execution
  reports), async (coroutine tasks and their combinators), flow (a small workflow language with its
  engine) and rpc (typed remote procedure calls over any transport). The flow engine runs a program
  as nested async tasks whose values are Shared cells of core, asks delegates for what it cannot do
  itself, and races what it waits for against timeouts. Rpc clients and services are async tasks
  around a transport. Reports are trees of shared records that writers fill and observers follow.

  Ground. Prelude holds the shared vocabulary (abort: a failed EZ_ASSERT or undefined behaviour) and
  list lemmas. Interfaces states the contracts as locales: append_only, cell_store, last_wins and
  invariant_system, and ordered_upto, a strict order up to an equivalence; Flow_Fuel adds finer. Each
  is interpreted on the model of the code: append_only on Stable_Vector, cell_store on Core_Shared, last_wins on the scope tables of
  Flow_Scope, invariant_system on the report API, when_all, when_any, sync_wait, the task pool and
  Atomic, ordered_upto on errors and on strong types, finer on the tied interpreter.

  core. Core_Shared is Shared.hpp over a store of cells (copying a handle aliases, a moved-from
  handle is None). Core_Cow is Cow.hpp over the same store, with the theorem that sharing cannot be
  observed. Core_Atomic is Atomic.hpp: the lock actions of every operation, interleaved over any
  number of threads, with the theorems that they neither deadlock nor race. Core_Result is
  Result.hpp, Core_Error Error.hpp, Core_Flags Flags.hpp (flags are sets of bits), Core_Contract the
  checks of Contract.hpp, Core_Resource Resource.hpp (every value is deleted once), Core_Tuple the
  loops over tuples and type lists, Core_Values strong types, options, variants, boxes, function
  references and scope guards. Report_Types is reporting/Types.hpp; Stable_Vector is
  AppendOnlyStableVector.hpp, with the writer's two steps kept apart. Execution_Report is
  ExecutionReport.hpp and .cpp: a report handle is a number into an arena of records
  (report_world), one definition per method; calls of observers are recorded in order. Operations
  that follow links have fuel, the number of reports plus one, which suffices on every tree that
  the API builds (Report_Tree); None means that the code would not return. Report_Tree,
  Report_Status and Report_Api prove what each operation does to a well-formed tree, that it
  returns and that it keeps the invariant. Status_Guard is ExecutionStatusGuard, Report_Logging
  has the handles and the message builders. Report_Props has
  the properties: nothing logged is lost or moved, every call of a writer returns, cancellation,
  progress, busyness and notification reach exactly the reports they should.

  flow. Flow_Ast is ast.hpp and program.hpp, Flow_Value and Flow_Types the values and types of
  src/engine/types (an Entity is its alternative and the address of its cell; a heap is a list of
  cells), Flow_Scope evaluation_context, Flow_Json conversion/json.hpp, Flow_Export the exporter.
  Flow_Interp and Flow_Eval are src/engine/eval and engine.cpp: one definition per eval overload,
  in a state monad (comp) over the record interp: scopes, heap, virtual clock, deadline, output.
  Nested evaluations go through a record of evaluators that the function interpreter ties with fuel;
  Flow_Fuel shows that a result does not depend on it, and OutOfFuel is an outcome of its own. A
  co_await of when_any(work, delay) is with_timeout. Flow_Safety, Flow_Invariant, Flow_Sound,
  Flow_Preserve and Flow_Frame prove that every evaluation keeps the state well typed, leaves the
  scopes below its own alone and only lets time and output grow. Flow_Props states these for whole
  programs; Flow_Behaviour, Flow_Effects and Flow_Delegates state what single constructs do.
  The grammar of src/parser/grammar is data, rule by rule, in Flow_Grammar; Flow_Peg states what the
  code relies on of boost::spirit::x3 as laws of a relation between a parser, a text and an outcome
  (match, failure, expectation failure). Flow_Peg_Wf proves that such a parser has exactly one
  outcome on a grammar without left recursion, Flow_Peg_Run that a fuelled reference parser has the
  laws, so that they can be met, and computes what they determine. Flow_Parser and
  Flow_Parser_Props are parse_using, identifiers and string literals. Flow_Positions shows where the
  nodes of a parse begin and end (annotations.hpp). Flow_Syntax is what x3 makes of a parse: build
  gives each rule the value of its declared type from the parts in the order of ast_adapted.hpp, and
  lang is the set of part lists a grammar expression can leave, from which build_total shows that no
  parse is without a value. Flow_Shape puts runs of the parser and lang together. Flow_Names
  and Flow_Parts follow the identifiers and the positions of a parse into the tree. Flow_Program is
  parser.cpp: every text has exactly one result, the positions in an accepted program lie inside its
  text, which get_code of Flow_Ast relies on, and its names are unreserved words of the text.
  Flow_Run puts parser and engine together. Flow_App is the program
  apps/flow: its arguments, its exit codes and the delegates it gives to the engine.

  async. Async_Receiver is Receiver.hpp and Task.hpp: a coroutine is its phase, its receiver and its
  continuation. Async_Operation is Operation.hpp, Delay.hpp and Race.hpp over the waits of asio's
  timers, with the theorems on when an awaiting coroutine is resumed and when race ends cleanly: a
  handler that is already queued can no longer be cancelled. Async_Latch and Async_Any are detail/WhenAll.hpp and
  detail/WhenAny.hpp: step relations whose steps lie between two atomic operations of the latch,
  with 32-bit counters, for any number of tasks that the counter can hold and every interleaving.
  Async_Props states when and how often the awaiting coroutine is resumed and with what.
  Async_Wait is sync_wait as two threads with a mutex and a condition variable; Async_Pool
  is the task pool and schedule_on over the queue of an io_context.

  rpc. Rpc_Codec is Types.hpp, Serializer and messages.proto over a parameter for protocol buffers;
  codec_ok is their documented round trip, and Rpc_Example a concrete codec that has it.
  Rpc_Function is FunctionUtils.hpp and the server side of Function.hpp, Rpc_Service is Service,
  Rpc_Client is RemoteService, Function.cpp and the client side of Function.hpp. Rpc_Props composes
  client and service (a remote call is a local call) and states the answers of a service to any
  batch of requests and the ways in which a client or a service is broken from outside.

  Parameters. Floating-point arithmetic, boost::format, printed addresses, the text of moved-from
  strings, x3 and its numeric parsers, the value of a
  real literal, the text of a parse error, program options, the file system and processes, delegates and their replies, request ids, protocol buffers and user
  implementations are arguments of the definitions that use them.

  Not modelled. The offset at which a parse error is reported: it is the furthest end of a rule that
  matched, abandoned alternatives included. The compile-time glue of x3_traits.hpp. Data races on observers and on the fields of a report
  that is read while it is written. Concepts, overload sets and preprocessor tests of core, which
  compute nothing at run time, the logging front end, and the range pipelines rpl, whose run returns
  a constant. Of the other programs under src/src/apps only the range intersection of apps/algo is
  modelled (Algo_Ranges).
\<close>

end
